(* ===== verification/Stego_Prelude.thy ===== *)
theory Stego_Prelude
  imports
    Main
    "HOL-Library.AList"
    "HOL-Library.Char_ord"
    "HOL-Library.List_Lexorder"
    "HOL-Library.Sublist"
begin

text \<open>
  Shared vocabulary of the development: Go's error results, loops that return on the first
  error, Go maps as association lists with a canonical key order, and the lemma collections
  that carry the component proofs.

  A Go function that returns \<open>error\<close> is a function into \<open>'e option\<close> (\<open>None\<close> is
  nil), and one that returns a value and an error is a function into \<open>'e + 'a\<close> (\<open>Inl\<close>
  is the error). A Go map is an association list, read with \<open>map_of\<close>. Go iterates over a
  map in an unspecified order; where the code sorts the keys first the model uses
  \<open>sorted_keys\<close>, which depends on the key set alone.
\<close>

named_theorems go_errors "rewrite rules for error results and early returns"
named_theorems go_maps "rewrite rules for maps and their sorted keys"

subsection \<open>Errors and early returns\<close>

type_synonym ('e, 'a) result = "'e + 'a"

fun bind_result :: "('e, 'a) result \<Rightarrow> ('a \<Rightarrow> ('e, 'b) result) \<Rightarrow> ('e, 'b) result" where
  "bind_result (Inl e) f = Inl e"
| "bind_result (Inr a) f = f a"

lemma bind_result_Inr [go_errors]:
  "bind_result r f = Inr b \<longleftrightarrow> (\<exists>a. r = Inr a \<and> f a = Inr b)"
  by (cases r) auto

lemma bind_result_Inl [go_errors]:
  "bind_result r f = Inl e \<longleftrightarrow> r = Inl e \<or> (\<exists>a. r = Inr a \<and> f a = Inl e)"
  by (cases r) auto

text \<open>\<open>after c k\<close> is the Go idiom that returns the error of \<open>c\<close> if there is one, and goes on
  with \<open>k\<close> otherwise.\<close>

fun after :: "'e option \<Rightarrow> ('e, 'a) result \<Rightarrow> ('e, 'a) result" where
  "after (Some e) k = Inl e"
| "after None k = k"

lemma after_Inr [go_errors]: "after c k = Inr a \<longleftrightarrow> c = None \<and> k = Inr a"
  by (cases c) auto

lemma after_Inl [go_errors]: "after c k = Inl e \<longleftrightarrow> c = Some e \<or> c = None \<and> k = Inl e"
  by (cases c) auto

fun or_else :: "'e option \<Rightarrow> 'e option \<Rightarrow> 'e option" where
  "or_else (Some e) k = Some e"
| "or_else None k = k"

lemma or_else_None [simp]: "or_else c k = None \<longleftrightarrow> c = None \<and> k = None"
  by (cases c) auto

lemma or_else_Some [go_errors]: "or_else c k = Some e \<longleftrightarrow> c = Some e \<or> c = None \<and> k = Some e"
  by (cases c) auto

text \<open>A loop over a slice that returns the first error of its body.\<close>

fun first_error :: "('a \<Rightarrow> 'e option) \<Rightarrow> 'a list \<Rightarrow> 'e option" where
  "first_error f [] = None"
| "first_error f (x # xs) = (case f x of Some e \<Rightarrow> Some e | None \<Rightarrow> first_error f xs)"

lemma first_error_None [simp]: "first_error f xs = None \<longleftrightarrow> (\<forall>x \<in> set xs. f x = None)"
  by (induction xs) (auto split: option.splits)

lemma first_error_SomeD: "first_error f xs = Some e \<Longrightarrow> \<exists>x \<in> set xs. f x = Some e"
  by (induction xs) (auto split: option.splits)

lemma first_error_cong [fundef_cong]:
  "xs = ys \<Longrightarrow> (\<And>x. x \<in> set ys \<Longrightarrow> f x = g x) \<Longrightarrow> first_error f xs = first_error g ys"
  by (induction xs arbitrary: ys) (auto split: option.splits)

lemma first_error_append:
  "first_error f (xs @ ys) = or_else (first_error f xs) (first_error f ys)"
  by (induction xs) (auto split: option.splits)

subsection \<open>Maps and their keys in order\<close>

type_synonym 'v gomap = "(string \<times> 'v) list"

definition keys_of :: "('k \<times> 'v) list \<Rightarrow> 'k set" where
  "keys_of m = set (map fst m)"

lemma keys_of_dom [go_maps]: "keys_of m = dom (map_of m)"
  by (simp add: keys_of_def dom_map_of_conv_image_fst)

lemma map_of_not_None_keys: "map_of m k \<noteq> None \<longleftrightarrow> k \<in> set (map fst m)"
  by (simp add: map_of_eq_None_iff)

definition sorted_keys :: "('k::linorder \<times> 'v) list \<Rightarrow> 'k list" where
  "sorted_keys m = sort (remdups (map fst m))"

lemma set_sorted_keys [simp]: "set (sorted_keys m) = fst ` set m"
  by (simp add: sorted_keys_def)

lemma sorted_sorted_keys [simp]: "sorted (sorted_keys m)"
  by (simp add: sorted_keys_def)

lemma distinct_sorted_keys [simp]: "distinct (sorted_keys m)"
  by (simp add: sorted_keys_def)

lemma sorted_keys_dom: "set (sorted_keys m) = dom (map_of m)"
  by (simp add: dom_map_of_conv_image_fst)

text \<open>Two association lists that stand for the same Go map give the same key order: what the
  code prints does not depend on Go's iteration order.\<close>

lemma sorted_keys_cong: "dom (map_of m) = dom (map_of n) \<Longrightarrow> sorted_keys m = sorted_keys n"
  by (rule sorted_distinct_set_unique) (simp_all add: dom_map_of_conv_image_fst)

lemma sorted_keys_map_of_cong: "map_of m = map_of n \<Longrightarrow> sorted_keys m = sorted_keys n"
  by (rule sorted_keys_cong) simp

lemma sorted_keys_get: "k \<in> set (sorted_keys m) \<Longrightarrow> \<exists>v. map_of m k = Some v"
  by (auto simp: dom_map_of_conv_image_fst [symmetric] simp del: set_sorted_keys
      simp: sorted_keys_dom)

lemma map_of_Some_sorted_keys: "map_of m k = Some v \<Longrightarrow> k \<in> set (sorted_keys m)"
  by (metis domI sorted_keys_dom)

subsection \<open>Updating maps in a loop\<close>

lemma map_of_update [simp, go_maps]: "map_of (AList.update k v m) = (map_of m)(k \<mapsto> v)"
  by (rule update_conv')

lemma map_of_delete [simp, go_maps]: "map_of (AList.delete k m) = (map_of m)(k := None)"
  by (simp add: delete_conv')

end
