(* ===== verification/Go_Strings.thy ===== *)
theory Go_Strings
  imports Stego_Prelude
begin

text \<open>
  The parts of Go's standard library that the modelled code calls on strings and slash
  separated paths (\<open>strings\<close>, \<open>unicode/utf8\<close>, \<open>io/fs\<close>, \<open>path\<close> and \<open>path/filepath\<close> on a
  Unix host). A Go string is a byte sequence, and so is the HOL type \<open>string\<close>.
\<close>

definition slash :: char where "slash = CHR ''/''"

subsection \<open>strings: Split, Join, prefixes, case\<close>

fun split_on :: "char \<Rightarrow> string \<Rightarrow> string list" where
  "split_on c [] = [[]]"
| "split_on c (x # xs) =
     (if x = c then [] # split_on c xs
      else (case split_on c xs of [] \<Rightarrow> [[x]] | p # ps \<Rightarrow> (x # p) # ps))"

fun join_with :: "string \<Rightarrow> string list \<Rightarrow> string" where
  "join_with sep [] = []"
| "join_with sep [x] = x"
| "join_with sep (x # y # ys) = x @ sep @ join_with sep (y # ys)"

definition has_prefix :: "string \<Rightarrow> string \<Rightarrow> bool" where
  "has_prefix s p \<longleftrightarrow> prefix p s"

definition has_suffix :: "string \<Rightarrow> string \<Rightarrow> bool" where
  "has_suffix s p \<longleftrightarrow> suffix p s"

definition trim_prefix :: "string \<Rightarrow> string \<Rightarrow> string" where
  "trim_prefix s p = (if has_prefix s p then drop (length p) s else s)"

definition trim_suffix :: "string \<Rightarrow> string \<Rightarrow> string" where
  "trim_suffix s p = (if has_suffix s p then take (length s - length p) s else s)"

definition ascii_upper :: "char \<Rightarrow> char" where
  "ascii_upper c = (let b = (of_char c :: nat) in
     if 97 \<le> b \<and> b \<le> 122 then char_of (b - 32) else c)"

definition ascii_lower :: "char \<Rightarrow> char" where
  "ascii_lower c = (let b = (of_char c :: nat) in
     if 65 \<le> b \<and> b \<le> 90 then char_of (b + 32) else c)"

definition lower_ascii :: "string \<Rightarrow> string" where
  "lower_ascii s = map ascii_lower s"

text \<open>
  \<open>strings.TrimSpace\<close> removes Unicode white space on both sides. \<open>space_seqs\<close> lists the UTF-8
  encodings of the characters \<open>unicode.IsSpace\<close> accepts.
\<close>

definition space_seqs :: "nat list list" where
  "space_seqs =
     [[9], [10], [11], [12], [13], [32], [194, 133], [194, 160], [225, 154, 128],
      [226, 128, 128], [226, 128, 129], [226, 128, 130], [226, 128, 131], [226, 128, 132],
      [226, 128, 133], [226, 128, 134], [226, 128, 135], [226, 128, 136], [226, 128, 137],
      [226, 128, 138], [226, 128, 168], [226, 128, 169], [226, 128, 175], [226, 129, 159],
      [227, 128, 128]]"

function drop_seqs :: "nat list list \<Rightarrow> string \<Rightarrow> string" where
  "drop_seqs qs s =
     (case find (\<lambda>q. q \<noteq> [] \<and> prefix q (map of_char s)) qs of
        None \<Rightarrow> s
      | Some q \<Rightarrow> drop_seqs qs (drop (length q) s))"
  by pat_completeness auto
termination
proof (relation "measure (\<lambda>(qs, s). length s)")
  fix qs :: "nat list list" and s :: string and q
  assume "find (\<lambda>q. q \<noteq> [] \<and> prefix q (map of_char s)) qs = Some q"
  then have "q \<noteq> []" "prefix q (map of_char s)" by (auto simp: find_Some_iff)
  then have "0 < length q" "0 < length s" by (auto simp: prefix_def)
  then show "((qs, drop (length q) s), (qs, s)) \<in> measure (\<lambda>(qs, s). length s)" by simp
qed simp

declare drop_seqs.simps [simp del]

definition trim_space :: "string \<Rightarrow> string" where
  "trim_space s = rev (drop_seqs (map rev space_seqs) (rev (drop_seqs space_seqs s)))"

lemma split_on_not_Nil [simp]: "split_on c s \<noteq> []"
  by (induction s) (auto split: list.splits)

lemma join_with_Cons: "ps \<noteq> [] \<Longrightarrow> join_with sep (p # ps) = p @ sep @ join_with sep ps"
  by (cases ps) auto

lemma join_split [simp]: "join_with [c] (split_on c s) = s"
proof (induction s)
  case Nil
  then show ?case by simp
next
  case (Cons x xs)
  obtain p ps where sp: "split_on c xs = p # ps"
    by (cases "split_on c xs") auto
  with Cons.IH have "join_with [c] (p # ps) = xs" by simp
  then show ?case using sp by (cases ps) auto
qed

lemma split_on_append_sep:
  "c \<notin> set p \<Longrightarrow> split_on c (p @ c # s) = p # split_on c s"
  by (induction p) auto

lemma split_on_no_sep: "c \<notin> set p \<Longrightarrow> split_on c p = [p]"
  by (induction p) auto

lemma split_join:
  "ps \<noteq> [] \<Longrightarrow> \<forall>p \<in> set ps. c \<notin> set p \<Longrightarrow> split_on c (join_with [c] ps) = ps"
proof (induction ps)
  case Nil
  then show ?case by simp
next
  case (Cons p ps)
  then show ?case
    by (cases ps) (auto simp: split_on_append_sep split_on_no_sep)
qed

lemma split_on_parts_no_sep: "p \<in> set (split_on c s) \<Longrightarrow> c \<notin> set p"
  by (induction s arbitrary: p) (auto split: list.splits if_splits)

lemma set_split_on_sub: "p \<in> set (split_on c s) \<Longrightarrow> set p \<subseteq> set s"
proof (induction s arbitrary: p)
  case Nil
  then show ?case by simp
next
  case (Cons x xs)
  then show ?case
    by (cases "split_on c xs") (fastforce split: if_splits)+
qed

lemma has_prefix_append [simp]: "has_prefix (p @ s) p"
  by (simp add: has_prefix_def)

lemma trim_prefix_append [simp]: "trim_prefix (p @ s) p = s"
  by (simp add: trim_prefix_def)

lemma has_prefixE: "has_prefix s p \<Longrightarrow> (\<And>r. s = p @ r \<Longrightarrow> P) \<Longrightarrow> P"
  by (auto simp: has_prefix_def prefix_def)

lemma split_on_append_join:
  "split_on c (a @ c # b) = split_on c a @ split_on c b"
  by (induction a) (auto split: list.splits)

subsection \<open>utf8.ValidString and fs.ValidPath\<close>

fun utf8_valid :: "nat list \<Rightarrow> bool" where
  "utf8_valid [] = True"
| "utf8_valid (a # bs) =
    (if a < 128 then utf8_valid bs
     else case bs of
       [] \<Rightarrow> False
     | b # cs \<Rightarrow>
       if 194 \<le> a \<and> a \<le> 223 then 128 \<le> b \<and> b \<le> 191 \<and> utf8_valid cs
       else (case cs of
         [] \<Rightarrow> False
       | c # ds \<Rightarrow>
         if 224 \<le> a \<and> a \<le> 239 then
           (if a = 224 then 160 else 128) \<le> b \<and> b \<le> (if a = 237 then 159 else 191)
             \<and> 128 \<le> c \<and> c \<le> 191 \<and> utf8_valid ds
         else (case ds of
           [] \<Rightarrow> False
         | d # es \<Rightarrow>
           240 \<le> a \<and> a \<le> 244
             \<and> (if a = 240 then 144 else 128) \<le> b \<and> b \<le> (if a = 244 then 143 else 191)
             \<and> 128 \<le> c \<and> c \<le> 191 \<and> 128 \<le> d \<and> d \<le> 191 \<and> utf8_valid es)))"

definition valid_string :: "string \<Rightarrow> bool" where
  "valid_string s \<longleftrightarrow> utf8_valid (map of_char s)"

definition fs_valid_path :: "string \<Rightarrow> bool" where
  "fs_valid_path name \<longleftrightarrow>
     valid_string name \<and>
     (name = ''.'' \<or>
      list_all (\<lambda>e. e \<noteq> '''' \<and> e \<noteq> ''.'' \<and> e \<noteq> ''..'') (split_on slash name))"

subsection \<open>path.Clean, Join, Dir, Base, Ext and Rel\<close>

fun clean_step :: "bool \<Rightarrow> string \<Rightarrow> string list \<Rightarrow> string list" where
  "clean_step rooted p st =
     (if p = '''' \<or> p = ''.'' then st
      else if p = ''..'' then
        (case st of
           [] \<Rightarrow> if rooted then [] else [''..'']
         | t # ts \<Rightarrow> if t = ''..'' then ''..'' # st else ts)
      else p # st)"

definition clean_parts :: "bool \<Rightarrow> string list \<Rightarrow> string list" where
  "clean_parts rooted ps = rev (fold (clean_step rooted) ps [])"

definition path_clean :: "string \<Rightarrow> string" where
  "path_clean s =
     (if s = '''' then ''.''
      else let rooted = (hd s = slash);
               body = join_with [slash] (clean_parts rooted (split_on slash s))
           in if rooted then slash # body else if body = '''' then ''.'' else body)"

fun path_join :: "string list \<Rightarrow> string" where
  "path_join [] = ''''"
| "path_join (e # es) =
     (if e = '''' then path_join es else path_clean (join_with [slash] (e # es)))"

definition path_dir :: "string \<Rightarrow> string" where
  "path_dir s = path_clean (rev (dropWhile (\<lambda>c. c \<noteq> slash) (rev s)))"

definition path_base :: "string \<Rightarrow> string" where
  "path_base s =
     (if s = '''' then ''.''
      else let t = rev (dropWhile (\<lambda>c. c = slash) (rev s))
           in if t = '''' then [slash] else last (split_on slash t))"

definition path_ext :: "string \<Rightarrow> string" where
  "path_ext s = (let b = last (split_on slash s); ps = split_on CHR ''.'' b
     in if length ps < 2 then '''' else CHR ''.'' # last ps)"

definition path_is_local :: "string \<Rightarrow> bool" where
  "path_is_local p \<longleftrightarrow> p \<noteq> '''' \<and> hd p \<noteq> slash \<and>
     (let q = (if list_ex (\<lambda>e. e = ''.'' \<or> e = ''..'') (split_on slash p)
               then path_clean p else p)
      in q \<noteq> ''..'' \<and> \<not> has_prefix q (''..'' @ [slash]))"

fun strip_common :: "string list \<Rightarrow> string list \<Rightarrow> string list \<times> string list" where
  "strip_common (b # bs) (t # ts) = (if b = t then strip_common bs ts else (b # bs, t # ts))"
| "strip_common bs ts = (bs, ts)"

definition rel_parts :: "string \<Rightarrow> string list" where
  "rel_parts s = (if s = '''' then [] else if s = [slash] then [''''] else split_on slash s)"

text \<open>\<open>filepath.Rel\<close>; \<open>None\<close> is its error.\<close>

definition path_rel :: "string \<Rightarrow> string \<Rightarrow> string option" where
  "path_rel base targ =
     (let b0 = path_clean base; t = path_clean targ in
      if t = b0 then Some ''.''
      else let b = (if b0 = ''.'' then '''' else b0) in
        if (b \<noteq> '''' \<and> hd b = slash) \<noteq> (t \<noteq> '''' \<and> hd t = slash) then None
        else let (bs, ts) = strip_common (rel_parts b) (rel_parts t) in
          if bs \<noteq> [] \<and> ts \<noteq> [] \<and> hd bs = ''..'' then None
          else Some (join_with [slash] (map (\<lambda>_. ''..'') bs @ ts)))"

definition plain_part :: "string \<Rightarrow> bool" where
  "plain_part p \<longleftrightarrow> p \<noteq> '''' \<and> p \<noteq> ''.'' \<and> p \<noteq> ''..''"

lemma fold_clean_plain:
  "list_all plain_part ps \<Longrightarrow> fold (clean_step r) ps st = rev ps @ st"
  by (induction ps arbitrary: st) (auto simp: plain_part_def)

lemma clean_parts_plain: "list_all plain_part ps \<Longrightarrow> clean_parts r ps = ps"
  by (simp add: clean_parts_def fold_clean_plain)

lemma plain_parts_head:
  "list_all plain_part (split_on slash s) \<Longrightarrow> s \<noteq> '''' \<and> hd s \<noteq> slash"
  by (cases s) (auto simp: plain_part_def split: if_splits list.splits)

lemma path_clean_plain:
  assumes "list_all plain_part (split_on slash s)"
  shows "path_clean s = s"
  using plain_parts_head [OF assms] by (simp add: path_clean_def clean_parts_plain [OF assms])

lemma path_join_plain:
  assumes "list_all plain_part (split_on slash a)" and "list_all plain_part (split_on slash b)"
  shows "path_join [a, b] = a @ slash # b"
proof -
  have "list_all plain_part (split_on slash (a @ slash # b))"
    using assms by (simp add: split_on_append_join)
  then have "path_clean (a @ slash # b) = a @ slash # b" by (rule path_clean_plain)
  with plain_parts_head [OF assms(1)] show ?thesis by simp
qed

lemma strip_common_append:
  "strip_common bs ts = (bs', ts') \<Longrightarrow> \<exists>c. bs = c @ bs' \<and> ts = c @ ts'"
proof (induction bs ts arbitrary: bs' ts' rule: strip_common.induct)
  case (1 b bs t ts)
  show ?case
  proof (cases "b = t")
    case True
    with "1.prems" have "strip_common bs ts = (bs', ts')" by simp
    from "1.IH" [OF True this] obtain c where "bs = c @ bs'" "ts = c @ ts'" by blast
    with True have "b # bs = (b # c) @ bs' \<and> t # ts = (b # c) @ ts'" by simp
    then show ?thesis by blast
  next
    case False
    with "1.prems" show ?thesis by simp
  qed
qed auto

lemma join_with_append:
  "as \<noteq> [] \<Longrightarrow> bs \<noteq> [] \<Longrightarrow> join_with sep (as @ bs) = join_with sep as @ sep @ join_with sep bs"
proof (induction as)
  case Nil
  then show ?case by simp
next
  case (Cons a as)
  then show ?case by (cases as) (auto simp: join_with_Cons)
qed

end
