(* ===== verification/Registry_Model.thy ===== *)
theory Registry_Model
  imports Go_Strings
begin

text \<open>
  The registry's records, from \<open>internal/registry/component.go\<close>, and the schema of a component's
  settings, from \<open>internal/types/types.go\<close>. A value that YAML decoded into \<open>any\<close> is of type
  \<open>any_value\<close>. A floating point number is kept as the text that \<open>fmt.Sprint\<close> gives it: the modelled
  code only asks whether it is finite and compares it with other values of its kind through an
  argument. \<open>AnyOther\<close> is a value of a type that no modelled code asks for, such as a time or a map
  whose keys are not all strings, by its text. A pointer or a slice that can be nil is an \<open>option\<close>
  where nil and empty differ.
\<close>

datatype any_value =
    AnyNil
  | AnyBool bool
  | AnyInt int
  | AnyFloat string
  | AnyString string
  | AnyList "any_value list"
  | AnyMap "(string \<times> any_value) list"
  | AnyOther string

datatype config_field =
    Config_Field (cf_type: string) (cf_default: any_value) (cf_items: "config_items option")
      (cf_optional: bool) (cf_enum: "string list")
and config_items =
    Config_Items (ci_fields: "(string \<times> config_field) list option") (ci_inline: "config_field option")

record port =
  port_name :: string

record slot_definition =
  sd_name :: string
  sd_proto :: string
  sd_default :: string

record component =
  comp_kind :: string
  comp_name :: string
  comp_version :: string
  comp_stage :: string
  comp_sunset :: string
  comp_config :: "config_field gomap"
  comp_requires :: "port list"
  comp_provides :: "port list"
  comp_slots :: "slot_definition list"
  comp_namespace :: string

record convention =
  cv_layout :: string
  cv_error_handling :: string
  cv_response_format :: string
  cv_logging :: string
  cv_test_pattern :: string
  cv_request_validation :: string
  cv_cors :: string

record archetype =
  ar_kind :: string
  ar_name :: string
  ar_language :: string
  ar_version :: string
  ar_components :: "string list"
  ar_default_auth :: string
  ar_conventions :: convention
  ar_compatible_mixins :: "string list option"
  ar_bindings :: "string gomap"

record mixin =
  mx_kind :: string
  mx_name :: string
  mx_version :: string
  mx_adds_components :: "string list"
  mx_adds_slots :: "slot_definition list"
  mx_overrides :: string

definition simple_component :: "string \<Rightarrow> string list \<Rightarrow> string list \<Rightarrow> component" where
  "simple_component name requires provides =
     \<lparr>comp_kind = ''component'', comp_name = name, comp_version = ''1.0.0'', comp_stage = ''ga'',
      comp_sunset = '''', comp_config = [], comp_requires = map (\<lambda>p. \<lparr>port_name = p\<rparr>) requires,
      comp_provides = map (\<lambda>p. \<lparr>port_name = p\<rparr>) provides, comp_slots = [],
      comp_namespace = ''''\<rparr>"

end
