(* ===== verification/Ports.thy ===== *)
theory Ports
  imports Registry_Model "HOL-Library.Multiset"
begin

text \<open>
  \<open>internal/ports/resolve.go\<close>: every port that an active component requires gets exactly one
  providing component, from the service's overrides or else the archetype's bindings. The error
  values hold what the Go errors hold; a \<open>binding_fault\<close> stands for the reason text.
\<close>

datatype binding_fault =
    NoComponentLoader
  | NotInRegistry
  | OverrideLacksPort
  | BoundToItself
  | BoundToMissing
  | BoundLacksPort

record unresolved_port =
  up_component :: string
  up_port :: string
  up_providers :: "string list"

record ambiguous_port =
  ap_component :: string
  ap_port :: string
  ap_providers :: "string list"

record invalid_binding =
  ib_component :: string
  ib_port :: string
  ib_bound_to :: string
  ib_reason :: binding_fault

record resolution_error =
  unresolved :: "unresolved_port list"
  ambiguous :: "ambiguous_port list"
  invalid :: "invalid_binding list"

record resolution =
  bindings :: "string gomap gomap"
  active_components :: "component gomap"

record resolve_input =
  ri_components :: "component gomap"
  ri_archetype :: "string gomap"
  ri_overrides :: "string gomap"
  ri_loader :: "(string \<Rightarrow> component option) option"

definition no_errors :: resolution_error where
  "no_errors = \<lparr>unresolved = [], ambiguous = [], invalid = []\<rparr>"

definition has_errors :: "resolution_error \<Rightarrow> bool" where
  "has_errors e \<longleftrightarrow>
     length (unresolved e) > 0 \<or> length (ambiguous e) > 0 \<or> length (invalid e) > 0"

definition comp_provides_port :: "component \<Rightarrow> string \<Rightarrow> bool" where
  "comp_provides_port c port \<longleftrightarrow> list_ex (\<lambda>p. port_name p = port) (comp_provides c)"

subsection \<open>Overrides\<close>

definition find_override ::
    "resolve_input \<Rightarrow> component gomap \<Rightarrow> string \<Rightarrow> (binding_fault, component) result" where
  "find_override inp active oc =
     (case map_of active oc of
        Some c \<Rightarrow> Inr c
      | None \<Rightarrow>
        (case ri_loader inp of
           None \<Rightarrow> Inl NoComponentLoader
         | Some load \<Rightarrow>
           (case load oc of None \<Rightarrow> Inl NotInRegistry | Some c \<Rightarrow> Inr c)))"

definition override_fault :: "string \<Rightarrow> string \<Rightarrow> binding_fault \<Rightarrow> invalid_binding" where
  "override_fault port oc r =
     \<lparr>ib_component = '''', ib_port = port, ib_bound_to = oc, ib_reason = r\<rparr>"

fun load_overrides ::
    "resolve_input \<Rightarrow> string list \<Rightarrow> component gomap \<Rightarrow> invalid_binding list
      \<Rightarrow> component gomap \<times> invalid_binding list" where
  "load_overrides inp [] active faults = (active, faults)"
| "load_overrides inp (port # ports) active faults =
     (let oc = the (map_of (ri_overrides inp) port) in
      case find_override inp active oc of
        Inl r \<Rightarrow> load_overrides inp ports active (faults @ [override_fault port oc r])
      | Inr c \<Rightarrow>
        (let loaded = (case map_of active oc of None \<Rightarrow> AList.update oc c active | Some _ \<Rightarrow> active) in
         if \<not> comp_provides_port c port then
           load_overrides inp ports loaded (faults @ [override_fault port oc OverrideLacksPort])
         else
           load_overrides inp ports
             (case map_of (ri_archetype inp) port of
                Some dc \<Rightarrow> if dc \<noteq> oc then AList.delete dc loaded else loaded
              | None \<Rightarrow> loaded)
             faults))"

definition effective_bindings :: "resolve_input \<Rightarrow> string gomap" where
  "effective_bindings inp = AList.merge (ri_archetype inp) (ri_overrides inp)"

subsection \<open>Required ports\<close>

definition providers_index :: "component gomap \<Rightarrow> string \<Rightarrow> string list" where
  "providers_index active port =
     sort (concat (map (\<lambda>(name, c). map (\<lambda>_. name) (filter (\<lambda>p. port_name p = port) (comp_provides c)))
                       active))"

fun resolve_ports ::
    "string gomap \<Rightarrow> component gomap \<Rightarrow> string \<Rightarrow> port list \<Rightarrow> string gomap \<Rightarrow> resolution_error
      \<Rightarrow> string gomap \<times> resolution_error" where
  "resolve_ports eff active name [] bs err = (bs, err)"
| "resolve_ports eff active name (req # reqs) bs err =
     (let pn = port_name req;
          bad = (\<lambda>bound r. err\<lparr>invalid := invalid err @
                   [\<lparr>ib_component = name, ib_port = pn, ib_bound_to = bound, ib_reason = r\<rparr>]\<rparr>)
      in case map_of eff pn of
        None \<Rightarrow>
          (let others = filter (\<lambda>p. p \<noteq> name) (providers_index active pn) in
           if length others \<ge> 2 then
             resolve_ports eff active name reqs bs
               (err\<lparr>ambiguous := ambiguous err @
                  [\<lparr>ap_component = name, ap_port = pn, ap_providers = others\<rparr>]\<rparr>)
           else
             resolve_ports eff active name reqs bs
               (err\<lparr>unresolved := unresolved err @
                  [\<lparr>up_component = name, up_port = pn, up_providers = others\<rparr>]\<rparr>))
      | Some bound \<Rightarrow>
          if bound = name then resolve_ports eff active name reqs bs (bad bound BoundToItself)
          else (case map_of active bound of
            None \<Rightarrow> resolve_ports eff active name reqs bs (bad bound BoundToMissing)
          | Some bc \<Rightarrow>
            if \<not> comp_provides_port bc pn
            then resolve_ports eff active name reqs bs (bad bound BoundLacksPort)
            else resolve_ports eff active name reqs (AList.update pn bound bs) err))"

fun resolve_components ::
    "string gomap \<Rightarrow> component gomap \<Rightarrow> string list \<Rightarrow> string gomap gomap \<Rightarrow> resolution_error
      \<Rightarrow> string gomap gomap \<times> resolution_error" where
  "resolve_components eff active [] res err = (res, err)"
| "resolve_components eff active (name # names) res err =
     (let comp = the (map_of active name) in
      if length (comp_requires comp) = 0 then resolve_components eff active names res err
      else
        (let (bs, err') = resolve_ports eff active name (comp_requires comp) [] err in
         resolve_components eff active names
           (if length bs > 0 then AList.update name bs res else res) err'))"

definition resolve :: "resolve_input \<Rightarrow> (resolution_error, resolution) result" where
  "resolve inp =
     (let (active, faults) =
            load_overrides inp (sorted_keys (ri_overrides inp)) (ri_components inp) [];
          err0 = no_errors\<lparr>invalid := faults\<rparr>
      in if has_errors err0 then Inl err0
         else
           (let (res, err) =
                  resolve_components (effective_bindings inp) active (sorted_keys active) [] err0
            in if has_errors err then Inl err
               else Inr \<lparr>bindings = res, active_components = active\<rparr>))"

subsection \<open>Questions about an active component set\<close>

definition providers_of :: "component gomap \<Rightarrow> string \<Rightarrow> string list" where
  "providers_of active port =
     sort (map fst (filter (\<lambda>(name, c). comp_provides_port c port) active))"

datatype port_fault = NoProvider string | ManyProviders string "string list"

definition has_one_provider :: "component gomap \<Rightarrow> string \<Rightarrow> port_fault option" where
  "has_one_provider active port =
     (case providers_of active port of
        [_] \<Rightarrow> None
      | [] \<Rightarrow> Some (NoProvider port)
      | ps \<Rightarrow> Some (ManyProviders port ps))"

definition requirers :: "component gomap \<Rightarrow> string \<Rightarrow> string list" where
  "requirers active port =
     sort (concat (map (\<lambda>(name, c). map (\<lambda>_. name) (filter (\<lambda>p. port_name p = port) (comp_requires c)))
                       active))"

definition required_ports :: "component gomap \<Rightarrow> string list" where
  "required_ports active =
     sort (remdups (concat (map (\<lambda>(name, c). map port_name (comp_requires c)) active)))"

text \<open>The unanswered ports with the components that require them; the empty list is Go's nil.\<close>

definition answers_ports :: "component gomap \<Rightarrow> (string \<times> string list) list" where
  "answers_ports active =
     map (\<lambda>port. (port, requirers active port))
       (filter (\<lambda>port. length (providers_of active port) = 0) (required_ports active))"

subsection \<open>When a required port is resolved\<close>

definition resolved_for :: "string gomap \<Rightarrow> component gomap \<Rightarrow> string \<Rightarrow> string \<Rightarrow> bool" where
  "resolved_for eff active name port \<longleftrightarrow>
     (case map_of eff port of
        None \<Rightarrow> False
      | Some q \<Rightarrow> q \<noteq> name \<and>
          (case map_of active q of None \<Rightarrow> False | Some c \<Rightarrow> comp_provides_port c port))"

lemma has_errors_simps [simp]:
  "has_errors (err\<lparr>invalid := xs @ [x]\<rparr>)" "has_errors (err\<lparr>ambiguous := ys @ [y]\<rparr>)"
  "has_errors (err\<lparr>unresolved := zs @ [z]\<rparr>)"
  by (simp_all add: has_errors_def)

lemma resolve_ports_errors:
  "has_errors (snd (resolve_ports eff active name reqs bs err)) \<longleftrightarrow>
     has_errors err \<or> (\<exists>req \<in> set reqs. \<not> resolved_for eff active name (port_name req))"
proof (induction eff active name reqs bs err rule: resolve_ports.induct)
  case (1 eff active name bs err)
  then show ?case by simp
next
  case (2 eff active name req reqs bs err)
  then show ?case
    by (auto simp: Let_def resolved_for_def split: option.splits)
qed

lemma resolve_ports_bindings:
  "map_of (fst (resolve_ports eff active name reqs bs err)) p =
     (if p \<in> port_name ` set reqs \<and> resolved_for eff active name p then map_of eff p
      else map_of bs p)"
proof (induction eff active name reqs bs err rule: resolve_ports.induct)
  case (1 eff active name bs err)
  then show ?case by simp
next
  case (2 eff active name req reqs bs err)
  then show ?case
    by (cases "map_of eff (port_name req)") (auto simp: Let_def resolved_for_def split: option.splits)
qed

definition all_resolved :: "string gomap \<Rightarrow> component gomap \<Rightarrow> string \<Rightarrow> bool" where
  "all_resolved eff active name \<longleftrightarrow>
     (\<forall>req \<in> set (comp_requires (the (map_of active name))). resolved_for eff active name (port_name req))"

lemma resolve_components_errors:
  "has_errors (snd (resolve_components eff active names res err)) \<longleftrightarrow>
     has_errors err \<or> (\<exists>n \<in> set names. \<not> all_resolved eff active n)"
proof (induction eff active names res err rule: resolve_components.induct)
  case (1 eff active res err)
  then show ?case by simp
next
  case (2 eff active name names res err)
  then show ?case
    using resolve_ports_errors [of eff active name "comp_requires (the (map_of active name))" "[]" err]
    by (auto simp: Let_def all_resolved_def split: prod.splits)
qed

lemma resolve_components_other:
  "n \<notin> set names \<Longrightarrow>
     map_of (fst (resolve_components eff active names res err)) n = map_of res n"
  by (induction eff active names res err rule: resolve_components.induct)
     (auto simp: Let_def split: prod.splits)

lemma resolve_components_bindings:
  assumes "distinct names" "n \<in> set names" "all_resolved eff active n"
    and "comp_requires (the (map_of active n)) \<noteq> []"
  shows "\<exists>bs. map_of (fst (resolve_components eff active names res err)) n = Some bs \<and>
    (\<forall>p. map_of bs p = (if p \<in> port_name ` set (comp_requires (the (map_of active n)))
                         then map_of eff p else None))"
  using assms
proof (induction eff active names res err rule: resolve_components.induct)
  case (1 eff active res err)
  then show ?case by simp
next
  case (2 eff active name names res err)
  let ?reqs = "comp_requires (the (map_of active name))"
  obtain bs err' where rp: "resolve_ports eff active name ?reqs [] err = (bs, err')"
    by fastforce
  show ?case
  proof (cases "n = name")
    case True
    with "2.prems"(1) have new: "n \<notin> set names" by simp
    have eq: "map_of bs p = (if p \<in> port_name ` set ?reqs then map_of eff p else None)" for p
      using resolve_ports_bindings [of eff active name ?reqs "[]" err p] rp True "2.prems"(3)
      by (auto simp: all_resolved_def)
    obtain req where req: "req \<in> set ?reqs" using "2.prems"(4) True by (cases ?reqs) auto
    then have "resolved_for eff active name (port_name req)"
      using "2.prems"(3) True by (auto simp: all_resolved_def)
    with eq [of "port_name req"] req have "bs \<noteq> []"
      by (auto simp: resolved_for_def split: option.splits)
    with req rp have step: "resolve_components eff active (name # names) res err =
        resolve_components eff active names (AList.update name bs res) err'"
      by (cases ?reqs) (simp_all add: Let_def)
    have "map_of (fst (resolve_components eff active names (AList.update name bs res) err')) name = Some bs"
      using new True by (simp add: resolve_components_other)
    then have "map_of (fst (resolve_components eff active (name # names) res err)) name = Some bs"
      by (simp only: step)
    with eq True show ?thesis by simp
  next
    case False
    then show ?thesis using 2 rp by (cases "?reqs = []") (auto simp: Let_def)
  qed
qed

lemma effective_bindings_map:
  "map_of (effective_bindings inp) = map_of (ri_archetype inp) ++ map_of (ri_overrides inp)"
  by (simp add: effective_bindings_def merge_conv')


lemma resolve_Inr:
  assumes "resolve inp = Inr r"
  shows "all_resolved (effective_bindings inp) (active_components r) n \<or>
      map_of (active_components r) n = None"
    and "\<exists>err. bindings r = fst (resolve_components (effective_bindings inp) (active_components r)
      (sorted_keys (active_components r)) [] err)"
proof -
  obtain active faults where lo:
    "load_overrides inp (sorted_keys (ri_overrides inp)) (ri_components inp) [] = (active, faults)"
    by fastforce
  let ?err = "no_errors\<lparr>invalid := faults\<rparr>"
  have r: "active_components r = active"
    "bindings r = fst (resolve_components (effective_bindings inp) active (sorted_keys active) [] ?err)"
    "\<not> has_errors (snd (resolve_components (effective_bindings inp) active (sorted_keys active) [] ?err))"
    using assms lo by (auto simp: resolve_def Let_def split: prod.splits if_splits)
  show "all_resolved (effective_bindings inp) (active_components r) n \<or>
      map_of (active_components r) n = None"
    using r(3) unfolding resolve_components_errors r(1)
    by (metis map_of_Some_sorted_keys not_None_eq)
  show "\<exists>err. bindings r = fst (resolve_components (effective_bindings inp) (active_components r)
      (sorted_keys (active_components r)) [] err)"
    using r(1,2) by blast
qed

text \<open>C22. In a successful resolution every required port of every active component is bound, to
  another active component that provides the port, and the binding is the service's override
  where there is one and the archetype's otherwise.\<close>

theorem resolve_binds_every_port:
  assumes "resolve inp = Inr r"
    and "map_of (active_components r) name = Some c" and "port \<in> set (comp_requires c)"
  shows "\<exists>bs q provider.
    map_of (bindings r) name = Some bs \<and> map_of bs (port_name port) = Some q \<and> q \<noteq> name \<and>
    map_of (active_components r) q = Some provider \<and> comp_provides_port provider (port_name port) \<and>
    Some q = (case map_of (ri_overrides inp) (port_name port) of
                Some o_comp \<Rightarrow> Some o_comp | None \<Rightarrow> map_of (ri_archetype inp) (port_name port))"
proof -
  let ?active = "active_components r" and ?eff = "effective_bindings inp"
  from resolve_Inr(1) [OF assms(1), of name] assms(2) have all: "all_resolved ?eff ?active name" by auto
  have "name \<in> set (sorted_keys ?active)" using assms(2) by (rule map_of_Some_sorted_keys)
  with resolve_components_bindings [OF distinct_sorted_keys this all] resolve_Inr(2) [OF assms(1)] assms(2,3)
  obtain bs where bs: "map_of (bindings r) name = Some bs"
    "map_of bs (port_name port) = map_of ?eff (port_name port)" by force
  have "resolved_for ?eff ?active name (port_name port)"
    using all assms(2,3) by (auto simp: all_resolved_def)
  then obtain q provider where "map_of ?eff (port_name port) = Some q" "q \<noteq> name"
    "map_of ?active q = Some provider" "comp_provides_port provider (port_name port)"
    by (auto simp: resolved_for_def split: option.splits)
  with bs show ?thesis by (auto simp: effective_bindings_map map_add_def split: option.splits)
qed

definition sample_input :: resolve_input where
  "sample_input =
     \<lparr>ri_components = [(''rest'', simple_component ''rest'' [''storage'', ''auth''] []),
                       (''pg'', simple_component ''pg'' [] [''storage'']),
                       (''jwt'', simple_component ''jwt'' [] [''auth''])],
      ri_archetype = [(''storage'', ''pg''), (''auth'', ''jwt'')],
      ri_overrides = [(''auth'', ''sso'')],
      ri_loader = Some (\<lambda>n. if n = ''sso'' then Some (simple_component ''sso'' [] [''auth'']) else None)\<rparr>"

definition sample_active :: "component gomap" where
  "sample_active =
     [(''rest'', simple_component ''rest'' [''storage'', ''auth''] []),
      (''pg'', simple_component ''pg'' [] [''storage'']),
      (''sso'', simple_component ''sso'' [] [''auth''])]"

lemma sample_overrides:
  "load_overrides sample_input (sorted_keys (ri_overrides sample_input))
     (ri_components sample_input) [] = (sample_active, [])"
  by code_simp

lemma sample_resolve:
  "resolve sample_input =
     Inr \<lparr>bindings = [(''rest'', [(''storage'', ''pg''), (''auth'', ''sso'')])],
          active_components = sample_active\<rparr>"
  by code_simp


theorem resolve_binds_every_port_witness:
  "\<exists>bs q provider.
    map_of (bindings \<lparr>bindings = [(''rest'', [(''storage'', ''pg''), (''auth'', ''sso'')])],
                       active_components = sample_active\<rparr>) ''rest'' = Some bs \<and>
    map_of bs ''auth'' = Some q \<and> q \<noteq> ''rest'' \<and>
    map_of sample_active q = Some provider \<and> comp_provides_port provider ''auth'' \<and>
    Some q = Some ''sso''"
proof -
  have m: "map_of (ri_overrides sample_input) ''auth'' = Some ''sso''" by code_simp
  have c: "map_of sample_active ''rest'' = Some (simple_component ''rest'' [''storage'', ''auth''] [])"
    by code_simp
  have p: "\<lparr>port_name = ''auth''\<rparr> \<in> set (comp_requires (simple_component ''rest'' [''storage'', ''auth''] []))"
    by code_simp
  show ?thesis
    using resolve_binds_every_port [OF sample_resolve, of "''rest''" _ "\<lparr>port_name = ''auth''\<rparr>"] c p m
    by simp
qed

subsection \<open>Answering and providing ports\<close>

lemma set_providers_of:
  "q \<in> set (providers_of active port) \<longleftrightarrow> (\<exists>c. (q, c) \<in> set active \<and> comp_provides_port c port)"
  by (force simp: providers_of_def)

lemma set_required_ports:
  "port \<in> set (required_ports active) \<longleftrightarrow>
     (\<exists>name c req. (name, c) \<in> set active \<and> req \<in> set (comp_requires c) \<and> port_name req = port)"
  by (force simp: required_ports_def)

lemma answers_ports_Nil:
  "answers_ports active = [] \<longleftrightarrow>
     (\<forall>name c req. (name, c) \<in> set active \<and> req \<in> set (comp_requires c) \<longrightarrow>
        (\<exists>q d. (q, d) \<in> set active \<and> comp_provides_port d (port_name req)))"
proof -
  have "answers_ports active = [] \<longleftrightarrow>
      (\<forall>port \<in> set (required_ports active). providers_of active port \<noteq> [])"
    by (simp add: answers_ports_def filter_empty_conv)
  also have "\<dots> \<longleftrightarrow> (\<forall>port \<in> set (required_ports active). \<exists>q. q \<in> set (providers_of active port))"
    by (metis last_in_set list.set(1) empty_iff)
  finally show ?thesis unfolding set_providers_of using set_required_ports by metis
qed

text \<open>The active component set of a successful resolution answers its ports: the check of
  ST-SUP-SP03 gives nil for it.\<close>

lemma resolve_answers_ports:
  assumes "resolve inp = Inr r" and "distinct (map fst (active_components r))"
  shows "answers_ports (active_components r) = []"
  unfolding answers_ports_Nil
proof (intro allI impI)
  fix name c req
  assume "(name, c) \<in> set (active_components r) \<and> req \<in> set (comp_requires c)"
  then have "map_of (active_components r) name = Some c" "req \<in> set (comp_requires c)"
    using assms(2) by (auto simp: map_of_is_SomeI)
  moreover have "all_resolved (effective_bindings inp) (active_components r) name \<or>
      map_of (active_components r) name = None"
    by (rule resolve_Inr(1) [OF assms(1)])
  ultimately have "resolved_for (effective_bindings inp) (active_components r) name (port_name req)"
    by (auto simp: all_resolved_def)
  then show "\<exists>q d. (q, d) \<in> set (active_components r) \<and> comp_provides_port d (port_name req)"
    by (auto simp: resolved_for_def split: option.splits dest!: map_of_SomeD)
qed

lemma sample_answers_ports: "answers_ports sample_active = []"
  using resolve_answers_ports [OF sample_resolve]
  by (simp add: sample_active_def)

lemma has_one_provider_None:
  "has_one_provider active port = None \<longleftrightarrow> length (providers_of active port) = 1"
  by (auto simp: has_one_provider_def length_Suc_conv split: list.splits)

text \<open>A port passes ST-SUP-SP02 exactly when one component of the active set provides it.\<close>

lemma has_one_provider_iff:
  assumes "distinct (map fst active)"
  shows "has_one_provider active port = None \<longleftrightarrow>
    (\<exists>!q. \<exists>c. map_of active q = Some c \<and> comp_provides_port c port)"
proof -
  have dist: "distinct (providers_of active port)"
    using assms by (simp add: providers_of_def distinct_map_filter)
  have mem: "q \<in> set (providers_of active port) \<longleftrightarrow>
      (\<exists>c. map_of active q = Some c \<and> comp_provides_port c port)" for q
    using assms by (auto simp: set_providers_of map_of_is_SomeI dest: map_of_SomeD)
  have "length (providers_of active port) = 1 \<longleftrightarrow> card (set (providers_of active port)) = 1"
    using dist by (simp add: distinct_card)
  also have "\<dots> \<longleftrightarrow> (\<exists>!q. q \<in> set (providers_of active port))"
    by (simp only: is_singleton_altdef [symmetric] is_singleton_iff_ex1)
  finally show ?thesis by (simp only: has_one_provider_None mem)
qed

lemma sample_has_one_provider: "has_one_provider sample_active ''storage'' = None"
proof -
  have d: "distinct (map fst sample_active)" by code_simp
  have "map_of sample_active q = Some c \<and> comp_provides_port c ''storage'' \<longleftrightarrow>
      q = ''pg'' \<and> c = simple_component ''pg'' [] [''storage'']" for q c
    by (auto simp: sample_active_def comp_provides_port_def simple_component_def)
  then show ?thesis unfolding has_one_provider_iff [OF d] by auto
qed

subsection \<open>The result does not depend on Go's map order\<close>

text \<open>\<open>same_map m n\<close>: two association lists that are the same Go map.\<close>

definition same_map :: "('k \<times> 'v) list \<Rightarrow> ('k \<times> 'v) list \<Rightarrow> bool" where
  "same_map m n \<longleftrightarrow>
     distinct (map fst m) \<and> distinct (map fst n) \<and> map_of m = map_of n"

lemma same_map_mset: "same_map m n \<Longrightarrow> mset m = mset n"
  by (auto simp: same_map_def map_of_inject_set distinct_map set_eq_iff_mset_eq_distinct)

lemma same_map_update: "same_map m n \<Longrightarrow> same_map (AList.update k v m) (AList.update k v n)"
  by (auto simp: same_map_def distinct_update)

lemma same_map_delete: "same_map m n \<Longrightarrow> same_map (AList.delete k m) (AList.delete k n)"
  by (auto simp: same_map_def distinct_delete)

lemma same_map_keys: "same_map m n \<Longrightarrow> sorted_keys m = sorted_keys n"
  by (auto simp: same_map_def intro: sorted_keys_map_of_cong)

lemma sort_mset_cong: "mset xs = mset ys \<Longrightarrow> sort xs = sort ys"
  by (metis mset_sort properties_for_sort sorted_sort)

lemma mset_concat_map: "mset (concat (map f m)) = sum_mset (image_mset (\<lambda>x. mset (f x)) (mset m))"
  by (induction m) auto

lemma mset_concat_map_cong: "mset m = mset n \<Longrightarrow> mset (concat (map f m)) = mset (concat (map f n))"
  by (simp add: mset_concat_map)

lemma providers_index_cong: "same_map m n \<Longrightarrow> providers_index m p = providers_index n p"
  unfolding providers_index_def
  by (intro sort_mset_cong mset_concat_map_cong same_map_mset)

lemma resolve_ports_cong:
  "same_map m n \<Longrightarrow> map_of e = map_of e' \<Longrightarrow>
     resolve_ports e m name reqs bs err = resolve_ports e' n name reqs bs err"
proof (induction e m name reqs bs err rule: resolve_ports.induct)
  case (1 eff active name bs err)
  then show ?case by simp
next
  case (2 eff active name req reqs bs err)
  then have m: "map_of active = map_of n" by (simp add: same_map_def)
  show ?case
    using 2 providers_index_cong [OF "2.prems"(1)]
    by (auto simp: Let_def m split: option.splits)
qed

lemma resolve_components_cong:
  "same_map m n \<Longrightarrow> map_of e = map_of e' \<Longrightarrow>
     resolve_components e m names res err = resolve_components e' n names res err"
proof (induction e m names res err rule: resolve_components.induct)
  case (1 eff active res err)
  then show ?case by simp
next
  case (2 eff active name names res err)
  then have "map_of active = map_of n" by (simp add: same_map_def)
  with 2 resolve_ports_cong [OF "2.prems"] show ?case
    by (auto simp: Let_def split: prod.splits)
qed

definition same_input :: "resolve_input \<Rightarrow> resolve_input \<Rightarrow> bool" where
  "same_input a b \<longleftrightarrow>
     same_map (ri_components a) (ri_components b) \<and> same_map (ri_archetype a) (ri_archetype b) \<and>
     same_map (ri_overrides a) (ri_overrides b) \<and> ri_loader a = ri_loader b"

lemma load_overrides_cong:
  assumes "same_input a b"
  shows "same_map m n \<Longrightarrow>
     same_map (fst (load_overrides a ports m faults)) (fst (load_overrides b ports n faults)) \<and>
     snd (load_overrides a ports m faults) = snd (load_overrides b ports n faults)"
proof (induction ports arbitrary: m n faults)
  case Nil
  then show ?case by simp
next
  case (Cons port ports)
  let ?oc = "the (map_of (ri_overrides a) port)"
  have maps: "map_of (ri_overrides b) = map_of (ri_overrides a)"
    "map_of (ri_archetype b) = map_of (ri_archetype a)" "ri_loader b = ri_loader a"
    using assms by (auto simp: same_input_def same_map_def)
  from Cons.prems have mn: "map_of n = map_of m" by (simp add: same_map_def)
  have fo: "find_override b n ?oc = find_override a m ?oc"
    by (simp add: find_override_def mn maps split: option.splits)
  show ?case
    using Cons.prems
    by (auto simp: Let_def maps mn fo intro!: Cons.IH same_map_update same_map_delete
        split: sum.splits option.splits)
qed

text \<open>Resolution does not depend on the order in which Go iterates over its maps: inputs that
  are the same maps give the same error lists, or the same bindings and the same active set.\<close>

lemma resolve_deterministic:
  assumes "same_input a b"
  shows "case resolve a of
      Inl e \<Rightarrow> resolve b = Inl e
    | Inr r \<Rightarrow> \<exists>r'. resolve b = Inr r' \<and> bindings r' = bindings r \<and>
        same_map (active_components r) (active_components r')"
proof -
  have keys: "sorted_keys (ri_overrides a) = sorted_keys (ri_overrides b)"
    and comps: "same_map (ri_components a) (ri_components b)"
    and eff: "map_of (effective_bindings a) = map_of (effective_bindings b)"
    using assms by (auto simp: same_input_def effective_bindings_map same_map_def same_map_keys)
  obtain m fa where ma: "load_overrides a (sorted_keys (ri_overrides b)) (ri_components a) [] = (m, fa)"
    by fastforce
  obtain n fb where nb: "load_overrides b (sorted_keys (ri_overrides b)) (ri_components b) [] = (n, fb)"
    by fastforce
  from load_overrides_cong [OF assms comps, of "sorted_keys (ri_overrides b)" "[]"] ma nb
  have mn: "same_map m n" "fa = fb" by simp_all
  have rc: "resolve_components (effective_bindings a) m (sorted_keys m) [] err =
      resolve_components (effective_bindings b) n (sorted_keys n) [] err" for err
    using resolve_components_cong [OF mn(1) eff] same_map_keys [OF mn(1)] by simp
  show ?thesis
    using mn by (auto simp: resolve_def keys ma nb Let_def rc split: prod.splits)
qed

theorem resolve_deterministic_witness:
  "case resolve sample_input of
      Inl e \<Rightarrow> False
    | Inr r \<Rightarrow> \<exists>r'. resolve (sample_input\<lparr>ri_archetype := rev (ri_archetype sample_input)\<rparr>) = Inr r' \<and>
        bindings r' = bindings r"
proof -
  have "same_map (ri_archetype sample_input) (rev (ri_archetype sample_input))"
    by (simp add: same_map_def sample_input_def fun_upd_twist)
  moreover have "distinct (map fst (ri_components sample_input))" by code_simp
  ultimately have "same_input sample_input (sample_input\<lparr>ri_archetype := rev (ri_archetype sample_input)\<rparr>)"
    by (simp add: same_input_def same_map_def sample_input_def)
  from resolve_deterministic [OF this] show ?thesis by (auto simp: sample_resolve)
qed

end
