(* ===== verification/Go_Time.thy ===== *)
theory Go_Time
  imports Go_Strings
begin

text \<open>
  What the code uses of Go's \<open>time\<close>, \<open>strconv\<close> and \<open>fmt\<close>: instants, calendar days, dates
  written as YYYY-MM-DD, and decimal numbers. An instant is the number of nanoseconds since
  Go's zero time, midnight of January 1 of year 1 in UTC, so \<open>IsZero\<close> is \<open>t = 0\<close>.
\<close>

subsection \<open>Decimal numbers\<close>

definition digit :: "nat \<Rightarrow> char" where
  "digit n = char_of (48 + n mod 10)"

definition is_digit :: "char \<Rightarrow> bool" where
  "is_digit c \<longleftrightarrow> 48 \<le> (of_char c :: nat) \<and> (of_char c :: nat) \<le> 57"

definition hex_lower :: "char \<Rightarrow> bool" where
  "hex_lower c \<longleftrightarrow> is_digit c \<or> (97 \<le> (of_char c :: nat) \<and> (of_char c :: nat) \<le> 102)"

definition digit_value :: "char \<Rightarrow> nat" where
  "digit_value c = of_char c - 48"

fun show_nat :: "nat \<Rightarrow> string" where
  "show_nat n = (if n < 10 then [digit n] else show_nat (n div 10) @ [digit n])"

declare show_nat.simps [simp del]

definition read_nat :: "string \<Rightarrow> nat" where
  "read_nat s = foldl (\<lambda>acc c. 10 * acc + digit_value c) 0 s"

definition pad_zero :: "nat \<Rightarrow> string \<Rightarrow> string" where
  "pad_zero w s = replicate (w - length s) CHR ''0'' @ s"

text \<open>\<open>fmt.Sprintf("%04d", n)\<close>: the sign counts in the width.\<close>

definition sprintf_04d :: "int \<Rightarrow> string" where
  "sprintf_04d n =
     (if n < 0 then CHR ''-'' # pad_zero 3 (show_nat (nat (- n))) else pad_zero 4 (show_nat (nat n)))"

definition itoa :: "int \<Rightarrow> string" where
  "itoa n = (if n < 0 then CHR ''-'' # show_nat (nat (- n)) else show_nat (nat n))"

text \<open>\<open>strconv.Atoi\<close> on a string of digits: a value beyond the 64 bit \<open>int\<close> is an error.\<close>

definition max_int :: int where "max_int = 2 ^ 63 - 1"

definition atoi_digits :: "string \<Rightarrow> int option" where
  "atoi_digits s = (if int (read_nat s) \<le> max_int then Some (int (read_nat s)) else None)"

text \<open>Addition of 64 bit integers wraps around.\<close>

definition wrap64 :: "int \<Rightarrow> int" where
  "wrap64 x = (x + 2 ^ 63) mod 2 ^ 64 - 2 ^ 63"

lemma is_digit_digit [simp]: "is_digit (digit n)"
proof -
  have "48 + n mod 10 < 256" by simp
  then show ?thesis by (simp add: is_digit_def digit_def of_char_of take_bit_eq_mod)
qed

lemma digit_value_digit [simp]: "digit_value (digit n) = n mod 10"
proof -
  have "48 + n mod 10 < 256" by simp
  then show ?thesis by (simp add: digit_value_def digit_def of_char_of take_bit_eq_mod)
qed

lemma read_nat_append: "read_nat (s @ [c]) = 10 * read_nat s + digit_value c"
  by (simp add: read_nat_def)

lemma read_show_nat [simp]: "read_nat (show_nat n) = n"
proof (induction n rule: show_nat.induct)
  case (1 n)
  show ?case
  proof (cases "n < 10")
    case True
    then show ?thesis by (simp add: show_nat.simps [of n] read_nat_def)
  next
    case False
    with 1 show ?thesis by (simp add: show_nat.simps [of n] read_nat_append)
  qed
qed

lemma show_nat_digits [simp]: "c \<in> set (show_nat n) \<Longrightarrow> is_digit c"
proof (induction n rule: show_nat.induct)
  case (1 n)
  then show ?case by (cases "n < 10") (auto simp: show_nat.simps [of n])
qed

lemma show_nat_length: "n < 10 ^ k \<Longrightarrow> 0 < k \<Longrightarrow> length (show_nat n) \<le> k"
proof (induction n arbitrary: k rule: show_nat.induct)
  case (1 n)
  show ?case
  proof (cases "n < 10")
    case True
    with 1(3) show ?thesis by (simp add: show_nat.simps [of n])
  next
    case False
    then obtain j where k: "k = Suc j" and j: "0 < j"
      using 1(2,3) by (cases k; cases "k - 1") auto
    have "n div 10 < 10 ^ j" using 1(2) k by (simp add: less_mult_imp_div_less mult.commute)
    with 1(1) [OF False this j] False k show ?thesis by (simp add: show_nat.simps [of n])
  qed
qed

lemma show_nat_nonempty: "show_nat n \<noteq> []"
  by (subst show_nat.simps) simp

lemma read_nat_zero: "read_nat (CHR ''0'' # s) = read_nat s"
  by (simp add: read_nat_def digit_value_def)

lemma read_pad_zero [simp]: "read_nat (pad_zero w s) = read_nat s"
proof -
  have "read_nat (replicate k CHR ''0'' @ s) = read_nat s" for k
    by (induction k) (simp_all add: read_nat_zero)
  then show ?thesis by (simp add: pad_zero_def)
qed

lemma length_pad_zero: "length (pad_zero w s) = max w (length s)"
  by (simp add: pad_zero_def)

lemma pad_zero_digits: "\<forall>c \<in> set s. is_digit c \<Longrightarrow> c \<in> set (pad_zero w s) \<Longrightarrow> is_digit c"
  by (auto simp: pad_zero_def is_digit_def)

subsection \<open>Calendar\<close>

definition leap_year :: "int \<Rightarrow> bool" where
  "leap_year y \<longleftrightarrow> y mod 4 = 0 \<and> (y mod 100 \<noteq> 0 \<or> y mod 400 = 0)"

text \<open>Days from January 1 of year 1 to January 1 of \<open>y\<close>.\<close>

definition days_before_year :: "int \<Rightarrow> int" where
  "days_before_year y = 365 * (y - 1) + (y - 1) div 4 - (y - 1) div 100 + (y - 1) div 400"

definition month_table :: "int list" where
  "month_table = [0, 31, 59, 90, 120, 151, 181, 212, 243, 273, 304, 334, 365]"

definition days_before_month :: "bool \<Rightarrow> int \<Rightarrow> int" where
  "days_before_month leap m = month_table ! nat (m - 1) + (if leap \<and> m > 2 then 1 else 0)"

definition days_in_month :: "bool \<Rightarrow> int \<Rightarrow> int" where
  "days_in_month leap m = days_before_month leap (m + 1) - days_before_month leap m"

text \<open>\<open>time.Date(y, m, d, ...)\<close>: a month or day out of range is carried over.\<close>

definition day_number :: "int \<Rightarrow> int \<Rightarrow> int \<Rightarrow> int" where
  "day_number y m d =
     (let y' = y + (m - 1) div 12; m' = (m - 1) mod 12 + 1
      in days_before_year y' + days_before_month (leap_year y') m' + (d - 1))"

definition year_of :: "int \<Rightarrow> int" where
  "year_of n =
     (let a = n div 146097; r = n mod 146097;
          b = min (r div 36524) 3; r1 = r - b * 36524;
          c = r1 div 1461; r2 = r1 mod 1461;
          d = min (r2 div 365) 3
      in 400 * a + 100 * b + 4 * c + d + 1)"

definition month_of_yday :: "bool \<Rightarrow> int \<Rightarrow> int" where
  "month_of_yday leap yd =
     (if days_before_month leap 12 \<le> yd then 12 else if days_before_month leap 11 \<le> yd then 11
      else if days_before_month leap 10 \<le> yd then 10 else if days_before_month leap 9 \<le> yd then 9
      else if days_before_month leap 8 \<le> yd then 8 else if days_before_month leap 7 \<le> yd then 7
      else if days_before_month leap 6 \<le> yd then 6 else if days_before_month leap 5 \<le> yd then 5
      else if days_before_month leap 4 \<le> yd then 4 else if days_before_month leap 3 \<le> yd then 3
      else if days_before_month leap 2 \<le> yd then 2 else 1)"

definition date_of :: "int \<Rightarrow> int \<times> int \<times> int" where
  "date_of n =
     (let y = year_of n; yd = n - days_before_year y; m = month_of_yday (leap_year y) yd
      in (y, m, yd - days_before_month (leap_year y) m + 1))"

lemma year_of_bounds: "days_before_year (year_of n) \<le> n \<and> n < days_before_year (year_of n + 1)"
proof -
  define a r where "a = n div 146097" and "r = n mod 146097"
  define b where "b = min (r div 36524) 3"
  define r1 where "r1 = r - b * 36524"
  define c r2 where "c = r1 div 1461" and "r2 = r1 mod 1461"
  define d where "d = min (r2 div 365) 3"
  note defs = a_def r_def b_def r1_def c_def r2_def d_def
  have r: "0 \<le> r" "r < 146097" "n = 146097 * a + r" by (simp_all add: a_def r_def)
  have b: "0 \<le> b" "b \<le> 3" "0 \<le> r1" "r1 \<le> 36524" "b < 3 \<longrightarrow> r1 < 36524"
    using r by (auto simp: b_def r1_def)
  have c: "0 \<le> c" "c \<le> 24 \<or> (c = 25 \<and> r1 \<ge> 36525)" "0 \<le> r2" "r2 < 1461" "r1 = 1461 * c + r2"
    using b by (auto simp: c_def r2_def)
  have c24: "c \<le> 24" using b c by auto
  have d: "0 \<le> d" "d \<le> 3" "365 * d \<le> r2" "d < 3 \<longrightarrow> r2 < 365 * d + 365"
    using c by (auto simp: d_def)
  define z where "z = 400 * a + 100 * b + 4 * c + d"
  have y: "year_of n = z + 1"
    by (simp add: year_of_def Let_def defs z_def)
  have e: "z div 4 = 100 * a + 25 * b + c" "z div 100 = 4 * a + b" "z div 400 = a"
    using b c c24 d by (auto simp: z_def)
  have low: "days_before_year (year_of n) = 146097 * a + 36524 * b + 1461 * c + 365 * d"
    unfolding y days_before_year_def using e by (simp add: z_def)
  have nn: "n = 146097 * a + 36524 * b + 1461 * c + r2" using r b c by (simp add: r1_def)
  have up: "days_before_year (year_of n + 1) =
      365 * (z + 1) + (z + 1) div 4 - (z + 1) div 100 + (z + 1) div 400"
    unfolding y days_before_year_def by (simp only: add_diff_cancel_right')
  have "d < 3 \<or> (d = 3 \<and> c < 24) \<or> (d = 3 \<and> c = 24 \<and> b < 3) \<or> (d = 3 \<and> c = 24 \<and> b = 3)"
    using b c24 d by auto
  then have "n < days_before_year (year_of n + 1)"
  proof (elim disjE conjE)
    assume "d < 3"
    then have "(z + 1) div 4 = 100 * a + 25 * b + c" "(z + 1) div 100 = 4 * a + b"
      "(z + 1) div 400 = a"
      using b c c24 d by (auto simp: z_def)
    with \<open>d < 3\<close> d nn show ?thesis unfolding up by (simp add: z_def)
  next
    assume "d = 3" "c < 24"
    then have "(z + 1) div 4 = 100 * a + 25 * b + c + 1" "(z + 1) div 100 = 4 * a + b"
      "(z + 1) div 400 = a"
      using b c d by (auto simp: z_def)
    with \<open>d = 3\<close> c nn show ?thesis unfolding up by (simp add: z_def)
  next
    assume "d = 3" "c = 24" "b < 3"
    then have z: "z = 400 * a + 100 * b + 99" by (simp add: z_def)
    from \<open>c = 24\<close> \<open>b < 3\<close> b c have "r2 < 1460" by auto
    moreover have "(z + 1) div 4 = 100 * a + 25 * b + 25" "(z + 1) div 100 = 4 * a + b + 1"
      "(z + 1) div 400 = a"
      using b \<open>b < 3\<close> by (auto simp: z)
    ultimately show ?thesis unfolding up using \<open>c = 24\<close> nn z by simp
  next
    assume "d = 3" "c = 24" "b = 3"
    then have z: "z = 400 * a + 399" by (simp add: z_def)
    then have "(z + 1) div 4 = 100 * a + 100" "(z + 1) div 100 = 4 * a + 4" "(z + 1) div 400 = a + 1"
      by auto
    then show ?thesis unfolding up using \<open>c = 24\<close> \<open>b = 3\<close> nn z b c by simp
  qed
  with low nn d show ?thesis by simp
qed

lemma div_step:
  fixes x k :: int
  assumes "0 < k"
  shows "(x + 1) div k = x div k + (if (x + 1) mod k = 0 then 1 else 0)"
proof (cases "x mod k + 1 = k")
  case True
  have e: "x + 1 = (x div k + 1) * k"
  proof -
    have "x + 1 = k * (x div k) + (x mod k + 1)" by simp
    also have "\<dots> = (x div k + 1) * k" unfolding True by (simp add: algebra_simps)
    finally show ?thesis .
  qed
  have "(x + 1) div k = x div k + 1" unfolding e using assms by simp
  moreover have "(x + 1) mod k = 0" unfolding e by simp
  ultimately show ?thesis by simp
next
  case False
  have r: "0 \<le> x mod k" "x mod k < k" using assms by simp_all
  have x: "x + 1 = k * (x div k) + (x mod k + 1)" by simp
  have "0 \<le> x mod k + 1" "x mod k + 1 < k" using r False by simp_all
  from int_div_pos_eq [OF x this] int_mod_pos_eq [OF x this] r show ?thesis by simp
qed

lemma year_step:
  fixes y :: int
  assumes "p4 = q4 + (if a then 1 else 0)" "p100 = q100 + (if b then 1 else 0)"
    and "p400 = q400 + (if c then 1 else 0)" and "c \<Longrightarrow> b" and "b \<Longrightarrow> a"
  shows "365 * y + p4 - p100 + p400 =
    365 * (y - 1) + q4 - q100 + q400 + (if a \<and> (\<not> b \<or> c) then 366 else 365)"
  using assms by auto

lemma year_length: "days_before_year (y + 1) = days_before_year y + (if leap_year y then 366 else 365)"
proof -
  have "y div k = (y - 1) div k + (if y mod k = 0 then 1 else 0)" if "0 < k" for k
    using div_step [OF that, of "y - 1"] by simp
  note step = this
  have "y mod 100 = (y mod 400) mod 100" "y mod 4 = (y mod 100) mod 4"
    by (simp_all add: mod_mod_cancel)
  then have m: "y mod 400 = 0 \<Longrightarrow> y mod 100 = 0" "y mod 100 = 0 \<Longrightarrow> y mod 4 = 0" by simp_all
  show ?thesis
    unfolding days_before_year_def leap_year_def add_diff_cancel_right'
    by (rule year_step [OF step step step m]) simp_all
qed

definition valid_date :: "int \<Rightarrow> int \<Rightarrow> int \<Rightarrow> bool" where
  "valid_date y m d \<longleftrightarrow> 1 \<le> m \<and> m \<le> 12 \<and> 1 \<le> d \<and> d \<le> days_in_month (leap_year y) m"

lemma month_values:
  "days_before_month leap 1 = 0" "days_before_month leap 2 = 31"
    "days_before_month leap 3 = (if leap then 60 else 59)" "days_before_month leap 4 = (if leap then 91 else 90)"
    "days_before_month leap 5 = (if leap then 121 else 120)" "days_before_month leap 6 = (if leap then 152 else 151)"
    "days_before_month leap 7 = (if leap then 182 else 181)" "days_before_month leap 8 = (if leap then 213 else 212)"
    "days_before_month leap 9 = (if leap then 244 else 243)" "days_before_month leap 10 = (if leap then 274 else 273)"
    "days_before_month leap 11 = (if leap then 305 else 304)" "days_before_month leap 12 = (if leap then 335 else 334)"
    "days_before_month leap 13 = (if leap then 366 else 365)"
  by (simp_all add: days_before_month_def month_table_def)

lemma month_of_yday_bounds:
  assumes "0 \<le> yd" and "yd < (if leap then 366 else 365)"
  shows "1 \<le> month_of_yday leap yd \<and> month_of_yday leap yd \<le> 12 \<and>
    days_before_month leap (month_of_yday leap yd) \<le> yd \<and>
    yd < days_before_month leap (month_of_yday leap yd + 1)"
  using assms by (cases leap) (simp_all add: month_of_yday_def month_values)

lemma date_of_valid:
  assumes "date_of n = (y, m, d)"
  shows "valid_date y m d" and "day_number y m d = n"
proof -
  let ?yd = "n - days_before_year (year_of n)"
  have "0 \<le> ?yd" "?yd < (if leap_year (year_of n) then 366 else 365)"
    using year_of_bounds [of n] by (auto simp: year_length)
  note b = month_of_yday_bounds [OF this]
  from assms have eq: "y = year_of n" "m = month_of_yday (leap_year y) ?yd"
    "d = ?yd - days_before_month (leap_year y) m + 1"
    by (auto simp: date_of_def Let_def)
  with b show "valid_date y m d" by (auto simp: valid_date_def days_in_month_def)
  have "(m - 1) div 12 = 0" "(m - 1) mod 12 + 1 = m" using b eq by auto
  then show "day_number y m d = n" by (simp add: day_number_def Let_def eq)
qed

subsection \<open>Instants and days\<close>

type_synonym time = int

definition day_ns :: int where "day_ns = 86400 * 10 ^ 9"

definition day_of :: "time \<Rightarrow> int" where "day_of t = t div day_ns"

definition time_of_day :: "int \<Rightarrow> time" where "time_of_day n = n * day_ns"

definition add_months :: "time \<Rightarrow> int \<Rightarrow> time" where
  "add_months t k =
     (let (y, m, d) = date_of (day_of t) in time_of_day (day_number y (m + k) d) + t mod day_ns)"

definition date_text :: "int \<Rightarrow> string" where
  "date_text n =
     (let (y, m, d) = date_of n
      in (if y < 0 then CHR ''-'' # pad_zero 4 (show_nat (nat (- y))) else pad_zero 4 (show_nat (nat y))) @ ''-'' @ pad_zero 2 (show_nat (nat m)) @ ''-''
         @ pad_zero 2 (show_nat (nat d)))"

text \<open>\<open>time.Parse("2006-01-02", s)\<close>: the fields have exactly four, two and two digits, and the
  date must exist.\<close>

definition parse_date_text :: "string \<Rightarrow> int option" where
  "parse_date_text s =
     (case split_on CHR ''-'' s of
        [ys, ms, ds] \<Rightarrow>
          if length ys = 4 \<and> length ms = 2 \<and> length ds = 2 \<and> list_all is_digit (ys @ ms @ ds)
          then (let y = int (read_nat ys); m = int (read_nat ms); d = int (read_nat ds)
                in if valid_date y m d then Some (day_number y m d) else None)
          else None
      | _ \<Rightarrow> None)"

lemma day_ns_pos [simp]: "0 < day_ns" "\<not> day_ns < 0" "day_ns \<noteq> 0"
  by (simp_all add: day_ns_def)

lemma day_of_time_of_day [simp]: "day_of (time_of_day n) = n"
  by (simp add: day_of_def time_of_day_def)

lemma time_of_day_less [simp]: "time_of_day a < time_of_day b \<longleftrightarrow> a < b"
  by (simp add: time_of_day_def)

lemma time_of_day_le [simp]: "time_of_day a \<le> time_of_day b \<longleftrightarrow> a \<le> b"
  by (auto simp: time_of_day_def mult_le_cancel_right)

lemma time_of_day_eq [simp]: "time_of_day a = time_of_day b \<longleftrightarrow> a = b"
  using day_of_time_of_day by metis

lemma day_of_mono: "s \<le> t \<Longrightarrow> day_of s \<le> day_of t"
  by (simp add: day_of_def zdiv_mono1)

lemma days_before_month_bounds:
  "1 \<le> m \<Longrightarrow> m \<le> 12 \<Longrightarrow> days_in_month leap m \<le> 31"
proof -
  assume "1 \<le> m" "m \<le> 12"
  then have "m = 1 \<or> m = 2 \<or> m = 3 \<or> m = 4 \<or> m = 5 \<or> m = 6 \<or> m = 7 \<or> m = 8 \<or> m = 9 \<or> m = 10
    \<or> m = 11 \<or> m = 12" by presburger
  then show ?thesis by (auto simp: days_in_month_def month_values)
qed

lemma is_digit_not_dash: "is_digit c \<Longrightarrow> c \<noteq> CHR ''-''"
  by (auto simp: is_digit_def)

lemma padded_digits: "c \<in> set (pad_zero w (show_nat n)) \<Longrightarrow> is_digit c"
  by (rule pad_zero_digits) simp_all

lemma padded_length: "n < 10 ^ w \<Longrightarrow> 0 < w \<Longrightarrow> length (pad_zero w (show_nat n)) = w"
  using show_nat_length [of n w] by (simp add: length_pad_zero)

text \<open>A date of a four digit year reads back as the day it was written from.\<close>

lemma parse_date_text_roundtrip:
  assumes "0 \<le> year_of n" and "year_of n \<le> 9999"
  shows "parse_date_text (date_text n) = Some n"
proof -
  obtain y m d where ymd: "date_of n = (y, m, d)" by (cases "date_of n") auto
  note v = date_of_valid [OF ymd]
  have y: "y = year_of n" using ymd by (auto simp: date_of_def Let_def)
  let ?y = "pad_zero 4 (show_nat (nat y))" and ?m = "pad_zero 2 (show_nat (nat m))"
    and ?d = "pad_zero 2 (show_nat (nat d))"
  have b: "1 \<le> m" "m \<le> 12" "1 \<le> d" "d \<le> 31"
    using v(1) days_before_month_bounds [of m "leap_year y"] by (auto simp: valid_date_def)
  have len: "length ?y = 4" "length ?m = 2" "length ?d = 2"
    using b y assms by (auto intro!: padded_length)
  have dash: "CHR ''-'' \<notin> set ?y" "CHR ''-'' \<notin> set ?m" "CHR ''-'' \<notin> set ?d"
    using is_digit_not_dash padded_digits by blast+
  have "date_text n = ?y @ CHR ''-'' # ?m @ CHR ''-'' # ?d"
    using y assms by (simp add: date_text_def ymd)
  then have "split_on CHR ''-'' (date_text n) = [?y, ?m, ?d]"
    using dash by (simp add: split_on_append_sep split_on_no_sep)
  moreover have "list_all is_digit (?y @ ?m @ ?d)"
    by (auto simp: list_all_iff intro: padded_digits)
  ultimately show ?thesis
    using len v b y assms by (simp add: parse_date_text_def)
qed

end
