(* ===== verification/Lifecycle.thy ===== *)
theory Lifecycle
  imports Go_Time
begin

text \<open>
  \<open>internal/lifecycle\<close>: what happened to a component digest after it was published. This
  theory holds the value types (\<open>types.go\<close>), the rules of a supersession (\<open>rules.go\<close>), the two
  commands on one lifecycle (\<open>commands.go\<close>) and the standing of a pin (\<open>standing.go\<close>,
  \<open>standing_reader.go\<close>). The folder that stores the records is in \<open>Lifecycle_Store\<close>.
\<close>

subsection \<open>types.go\<close>

record subject =
  sj_kind :: string
  sj_name :: string
  sj_digest :: string

definition component_package :: string where "component_package = ''component''"
definition runtime_package :: string where "runtime_package = ''runtime''"

definition lower_letter :: "char \<Rightarrow> bool" where
  "lower_letter c \<longleftrightarrow> 97 \<le> (of_char c :: nat) \<and> (of_char c :: nat) \<le> 122"

definition upper_letter :: "char \<Rightarrow> bool" where
  "upper_letter c \<longleftrightarrow> 65 \<le> (of_char c :: nat) \<and> (of_char c :: nat) \<le> 90"

definition is_component_digest :: "string \<Rightarrow> bool" where
  "is_component_digest s \<longleftrightarrow> length s = 64 \<and> list_all hex_lower s"

definition is_package_name :: "string \<Rightarrow> bool" where
  "is_package_name s \<longleftrightarrow>
     (case s of [] \<Rightarrow> False
      | c # cs \<Rightarrow> (lower_letter c \<or> is_digit c) \<and>
          list_all (\<lambda>d. lower_letter d \<or> is_digit d \<or> d \<in> {CHR ''.'', CHR ''/'', CHR ''_'', CHR ''-''}) cs)"

definition skip_digits :: "string \<Rightarrow> string option" where
  "skip_digits s = (if s = [] \<or> \<not> is_digit (hd s) then None else Some (dropWhile is_digit s))"

fun skip_char :: "char \<Rightarrow> string \<Rightarrow> string option" where
  "skip_char c [] = None"
| "skip_char c (x # xs) = (if x = c then Some xs else None)"

definition is_runtime_version :: "string \<Rightarrow> bool" where
  "is_runtime_version s \<longleftrightarrow>
     (case Option.bind (skip_char CHR ''v'' s) (\<lambda>s. Option.bind (skip_digits s)
        (\<lambda>s. Option.bind (skip_char CHR ''.'' s) (\<lambda>s. Option.bind (skip_digits s)
        (\<lambda>s. Option.bind (skip_char CHR ''.'' s) skip_digits)))) of
        None \<Rightarrow> False
      | Some rest \<Rightarrow> rest = [] \<or>
          (hd rest = CHR ''-'' \<and> tl rest \<noteq> [] \<and>
           list_all (\<lambda>c. is_digit c \<or> lower_letter c \<or> upper_letter c \<or> c = CHR ''.'' \<or> c = CHR ''-'')
             (tl rest)))"

datatype subject_fault =
    NameMissing
  | NotAPackageName string
  | DigestMissing
  | NotAComponentDigest string
  | VersionMissing
  | NotARuntimeVersion string
  | UnknownKind string

definition subject_check :: "subject \<Rightarrow> subject_fault option" where
  "subject_check s =
     (if sj_name s = '''' then Some NameMissing
      else if \<not> is_package_name (sj_name s) then Some (NotAPackageName (sj_name s))
      else if sj_kind s = component_package then
        (if sj_digest s = '''' then Some DigestMissing
         else if \<not> is_component_digest (sj_digest s) then Some (NotAComponentDigest (sj_digest s))
         else None)
      else if sj_kind s = runtime_package then
        (if sj_digest s = '''' then Some VersionMissing
         else if \<not> is_runtime_version (sj_digest s) then Some (NotARuntimeVersion (sj_digest s))
         else None)
      else Some (UnknownKind (sj_kind s)))"

record supersession =
  sp_successor :: subject
  sp_fails_after :: time
  sp_needs_declaration :: bool
  sp_needs_fill :: bool
  sp_recorded_on :: time
  sp_advisory_id :: string
  sp_summary :: string
  sp_references :: "string list"

record withdrawal =
  wd_fails_after :: time
  wd_reason :: string
  wd_recorded_on :: time
  wd_advisory_id :: string
  wd_references :: "string list"

record lifecycle =
  lc_subject :: subject
  lc_supersession :: "supersession option"
  lc_withdrawal :: "withdrawal option"

definition empty_lifecycle :: "subject \<Rightarrow> lifecycle" where
  "empty_lifecycle s = \<lparr>lc_subject = s, lc_supersession = None, lc_withdrawal = None\<rparr>"

text \<open>\<open>Day\<close>: midnight UTC of the calendar day of an instant.\<close>

definition Day :: "time \<Rightarrow> time" where
  "Day t = time_of_day (day_of t)"

definition parse_date :: "string \<Rightarrow> time option" where
  "parse_date text = map_option time_of_day (parse_date_text text)"

definition format_date :: "time \<Rightarrow> string" where
  "format_date t = date_text (day_of (Day t))"

subsection \<open>Requests and events of commands.go and events.go\<close>

record supersede_request =
  rq_superseded :: subject
  rq_superseded_stage :: string
  rq_superseded_provides :: "string list"
  rq_successor :: subject
  rq_successor_stage :: string
  rq_took_over :: "string list"
  rq_released_on :: time
  rq_fails_after :: "time option"
  rq_needs_declaration :: "bool option"
  rq_needs_fill :: "bool option"
  rq_summary :: string
  rq_references :: "string list"
  rq_recorded_on :: time
  rq_windows :: "int gomap option"

record withdraw_request =
  wr_withdrawn :: subject
  wr_fails_after :: "time option"
  wr_reason :: string
  wr_references :: "string list"
  wr_recorded_on :: time

record digest_superseded =
  ds_subject :: subject
  ds_supersession :: supersession

record digest_withdrawn =
  dw_subject :: subject
  dw_withdrawal :: withdrawal

datatype lifecycle_error =
    BadSubject string subject_fault
  | SuccessorMissing subject
  | DeclarationChangeNotStated subject
  | FillChangeNotStated subject
  | NoSummary subject
  | NoRecordingTime subject
  | AlreadySuperseded subject subject string
  | OtherKind subject subject
  | SameDigest subject
  | TookOverNoPort subject subject
  | NotGraduated subject string
  | DeclarationChangeNeeded subject
  | NoReleaseDate subject
  | NoStage string
  | NoWindow string string
  | FailDateTooLate time time int string
  | NoFailDate subject
  | NoReason subject
  | FailDatePast time time subject
  | AlreadyWithdrawn subject string
  | NilDereference \<comment> \<open>the run time panic of a nil pointer\<close>

subsection \<open>rules.go\<close>

definition default_windows :: "int gomap" where
  "default_windows = [(''alpha'', 0), (''beta'', 3), (''ga'', 6)]"

definition one_successor :: "lifecycle \<Rightarrow> supersede_request \<Rightarrow> lifecycle_error option" where
  "one_successor current r =
     (let superseded = rq_superseded r; successor = rq_successor r in
      case lc_supersession current of
        Some s \<Rightarrow> Some (AlreadySuperseded superseded (sp_successor s) (sp_advisory_id s))
      | None \<Rightarrow>
        if sj_kind successor \<noteq> sj_kind superseded then Some (OtherKind successor superseded)
        else if sj_name successor = sj_name superseded then
          (if sj_digest successor = sj_digest superseded then Some (SameDigest superseded) else None)
        else if \<not> list_ex (\<lambda>port. port \<in> set (rq_superseded_provides r)) (rq_took_over r)
          then Some (TookOverNoPort successor superseded)
        else if rq_successor_stage r \<noteq> ''ga'' then Some (NotGraduated successor (rq_successor_stage r))
        else (case rq_needs_declaration r of
            None \<Rightarrow> Some NilDereference
          | Some needs \<Rightarrow> if \<not> needs then Some (DeclarationChangeNeeded successor) else None))"

definition fail_date_in_window :: "supersede_request \<Rightarrow> (lifecycle_error, time) result" where
  "fail_date_in_window r =
     (if rq_released_on r = 0 then Inl (NoReleaseDate (rq_successor r))
      else let windows = (case rq_windows r of None \<Rightarrow> default_windows | Some w \<Rightarrow> w) in
        if rq_superseded_stage r = '''' then Inl (NoStage (sj_name (rq_superseded r)))
        else (case map_of windows (rq_superseded_stage r) of
          None \<Rightarrow> Inl (NoWindow (rq_superseded_stage r) (sj_name (rq_superseded r)))
        | Some window \<Rightarrow>
          (case rq_needs_declaration r of
             None \<Rightarrow> Inl NilDereference
           | Some needs \<Rightarrow>
             (let months = (if needs then window * 2 else window);
                  latest = add_months (Day (rq_released_on r)) months
              in case rq_fails_after r of
                None \<Rightarrow> Inr latest
              | Some given \<Rightarrow>
                (let fails_after = Day given in
                 if fails_after > latest
                 then Inl (FailDateTooLate fails_after latest months (rq_superseded_stage r))
                 else Inr fails_after)))))"

subsection \<open>commands.go: one lifecycle\<close>

definition with_default_successor :: "supersede_request \<Rightarrow> supersede_request" where
  "with_default_successor r =
     (let old = rq_superseded r; new = rq_successor r;
          new1 = (if sj_name new = '''' then new\<lparr>sj_name := sj_name old\<rparr> else new);
          new2 = (if sj_kind new1 = '''' then new1\<lparr>sj_kind := sj_kind old\<rparr> else new1)
      in r\<lparr>rq_successor := new2\<rparr>)"

definition check_role :: "string \<Rightarrow> subject \<Rightarrow> lifecycle_error option" where
  "check_role role s = map_option (BadSubject role) (subject_check s)"

definition supersede ::
    "lifecycle \<Rightarrow> supersede_request \<Rightarrow> string \<Rightarrow> (lifecycle_error, lifecycle \<times> digest_superseded) result"
  where
  "supersede l request advisory_id =
     after (check_role ''the superseded digest'' (rq_superseded request))
      (if sj_digest (rq_successor request) = '''' then Inl (SuccessorMissing (rq_superseded request))
       else let r = with_default_successor request in
        after (check_role ''the successor'' (rq_successor r))
         (if rq_needs_declaration r = None then Inl (DeclarationChangeNotStated (rq_superseded r))
          else if rq_needs_fill r = None then Inl (FillChangeNotStated (rq_superseded r))
          else if trim_space (rq_summary r) = '''' then Inl (NoSummary (rq_superseded r))
          else if rq_recorded_on r = 0 then Inl (NoRecordingTime (rq_superseded r))
          else after (one_successor l r)
           (bind_result (fail_date_in_window r) (\<lambda>fails_after.
              let s = \<lparr>sp_successor = rq_successor r, sp_fails_after = fails_after,
                       sp_needs_declaration = the (rq_needs_declaration r),
                       sp_needs_fill = the (rq_needs_fill r), sp_recorded_on = rq_recorded_on r,
                       sp_advisory_id = advisory_id, sp_summary = rq_summary r,
                       sp_references = rq_references r\<rparr>
              in Inr (l\<lparr>lc_subject := rq_superseded r, lc_supersession := Some s\<rparr>,
                      \<lparr>ds_subject = rq_superseded r, ds_supersession = s\<rparr>)))))"

definition withdraw ::
    "lifecycle \<Rightarrow> withdraw_request \<Rightarrow> string \<Rightarrow> (lifecycle_error, lifecycle \<times> digest_withdrawn) result"
  where
  "withdraw l r advisory_id =
     after (check_role ''the withdrawn digest'' (wr_withdrawn r))
      (case wr_fails_after r of
         None \<Rightarrow> Inl (NoFailDate (wr_withdrawn r))
       | Some given \<Rightarrow>
         if trim_space (wr_reason r) = '''' then Inl (NoReason (wr_withdrawn r))
         else if wr_recorded_on r = 0 then Inl (NoRecordingTime (wr_withdrawn r))
         else let fails_after = Day given; today = Day (wr_recorded_on r) in
           if fails_after < today then Inl (FailDatePast fails_after today (wr_withdrawn r))
           else (case lc_withdrawal l of
               Some w \<Rightarrow> Inl (AlreadyWithdrawn (wr_withdrawn r) (wd_advisory_id w))
             | None \<Rightarrow>
               (let w = \<lparr>wd_fails_after = fails_after, wd_reason = wr_reason r,
                         wd_recorded_on = wr_recorded_on r, wd_advisory_id = advisory_id,
                         wd_references = wr_references r\<rparr>
                in Inr (l\<lparr>lc_subject := wr_withdrawn r, lc_withdrawal := Some w\<rparr>,
                        \<lparr>dw_subject = wr_withdrawn r, dw_withdrawal = w\<rparr>))))"

subsection \<open>standing.go\<close>

definition is_superseded :: "lifecycle \<Rightarrow> bool" where
  "is_superseded l \<longleftrightarrow> lc_supersession l \<noteq> None"

definition is_past_fail_date :: "lifecycle \<Rightarrow> time \<Rightarrow> bool" where
  "is_past_fail_date l day \<longleftrightarrow>
     (let today = Day day in
      (case lc_supersession l of None \<Rightarrow> False | Some s \<Rightarrow> today > Day (sp_fails_after s)) \<or>
      (case lc_withdrawal l of None \<Rightarrow> False | Some w \<Rightarrow> today > Day (wd_fails_after w)))"

definition is_withdrawn :: "lifecycle \<Rightarrow> bool" where
  "is_withdrawn l \<longleftrightarrow> lc_withdrawal l \<noteq> None"

text \<open>The error that kept the records from being read is a value of type \<open>'e\<close>.\<close>

record 'e standing =
  st_day :: time
  st_pins :: "lifecycle list"
  st_unreadable :: "'e option"

fun by_subject :: "(subject \<times> lifecycle) list \<Rightarrow> lifecycle list \<Rightarrow> (subject \<times> lifecycle) list" where
  "by_subject m [] = m"
| "by_subject m (l # ls) = by_subject (AList.update (lc_subject l) l m) ls"

definition project_standing ::
    "subject list \<Rightarrow> lifecycle list \<Rightarrow> 'e option \<Rightarrow> time \<Rightarrow> 'e standing" where
  "project_standing pins lifecycles unreadable day =
     (let m = by_subject [] lifecycles in
      \<lparr>st_day = Day day,
       st_pins = map (\<lambda>pin. case map_of m pin of Some l \<Rightarrow> l | None \<Rightarrow> empty_lifecycle pin) pins,
       st_unreadable = unreadable\<rparr>)"

record 'e pin_state =
  ps_pin :: subject
  ps_unchecked :: bool
  ps_cause :: "'e option"
  ps_superseded :: bool
  ps_supersession :: "supersession option"
  ps_withdrawn :: bool
  ps_withdrawal :: "withdrawal option"
  ps_past_fail_date :: bool

definition pin_current :: "'e pin_state \<Rightarrow> bool" where
  "pin_current p \<longleftrightarrow> \<not> ps_unchecked p \<and> \<not> ps_superseded p \<and> \<not> ps_withdrawn p"

definition pin_state_of :: "'e standing \<Rightarrow> lifecycle \<Rightarrow> 'e pin_state" where
  "pin_state_of standing l =
     (case st_unreadable standing of
        Some e \<Rightarrow>
          \<lparr>ps_pin = lc_subject l, ps_unchecked = True, ps_cause = Some e, ps_superseded = False,
           ps_supersession = None, ps_withdrawn = False, ps_withdrawal = None,
           ps_past_fail_date = False\<rparr>
      | None \<Rightarrow>
          \<lparr>ps_pin = lc_subject l, ps_unchecked = False, ps_cause = None,
           ps_superseded = is_superseded l,
           ps_supersession = (if is_superseded l then lc_supersession l else None),
           ps_withdrawn = is_withdrawn l,
           ps_withdrawal = (if is_withdrawn l then lc_withdrawal l else None),
           ps_past_fail_date = is_past_fail_date l (st_day standing)\<rparr>)"

definition pin_standing :: "'e standing \<Rightarrow> 'e pin_state list" where
  "pin_standing standing = map (pin_state_of standing) (st_pins standing)"

subsection \<open>What a recorded supersession and withdrawal promise\<close>

lemmas supersede_unfold = supersede_def with_default_successor_def check_role_def one_successor_def
  Let_def go_errors

lemma with_default_successor_simps [simp]:
  "rq_superseded (with_default_successor r) = rq_superseded r"
  "rq_superseded_stage (with_default_successor r) = rq_superseded_stage r"
  "rq_superseded_provides (with_default_successor r) = rq_superseded_provides r"
  "rq_successor_stage (with_default_successor r) = rq_successor_stage r"
  "rq_took_over (with_default_successor r) = rq_took_over r"
  "rq_released_on (with_default_successor r) = rq_released_on r"
  "rq_fails_after (with_default_successor r) = rq_fails_after r"
  "rq_needs_declaration (with_default_successor r) = rq_needs_declaration r"
  "rq_needs_fill (with_default_successor r) = rq_needs_fill r"
  "rq_summary (with_default_successor r) = rq_summary r"
  "rq_references (with_default_successor r) = rq_references r"
  "rq_recorded_on (with_default_successor r) = rq_recorded_on r"
  "rq_windows (with_default_successor r) = rq_windows r"
  by (simp_all add: with_default_successor_def Let_def)

lemma one_successor_None:
  "one_successor l r = None \<longleftrightarrow>
     lc_supersession l = None \<and> sj_kind (rq_successor r) = sj_kind (rq_superseded r) \<and>
     (if sj_name (rq_successor r) = sj_name (rq_superseded r)
      then sj_digest (rq_successor r) \<noteq> sj_digest (rq_superseded r)
      else (\<exists>port \<in> set (rq_took_over r). port \<in> set (rq_superseded_provides r)) \<and>
           rq_successor_stage r = ''ga'' \<and> rq_needs_declaration r = Some True)"
  by (auto simp: one_successor_def Let_def list_ex_iff split: option.splits if_splits)

definition stage_window :: "supersede_request \<Rightarrow> int option" where
  "stage_window r =
     map_of (case rq_windows r of None \<Rightarrow> default_windows | Some w \<Rightarrow> w) (rq_superseded_stage r)"

definition latest_fail_date :: "supersede_request \<Rightarrow> int \<Rightarrow> bool \<Rightarrow> time" where
  "latest_fail_date r window needs =
     add_months (Day (rq_released_on r)) (if needs then window * 2 else window)"

lemma window_simps [simp]:
  "stage_window (with_default_successor r) = stage_window r"
  "latest_fail_date (with_default_successor r) = latest_fail_date r"
  by (simp_all add: stage_window_def latest_fail_date_def fun_eq_iff)

lemma fail_date_Inr:
  "fail_date_in_window r = Inr t \<longleftrightarrow>
     rq_released_on r \<noteq> 0 \<and> rq_superseded_stage r \<noteq> '''' \<and>
     (\<exists>window needs. stage_window r = Some window \<and> rq_needs_declaration r = Some needs \<and>
        t \<le> latest_fail_date r window needs \<and>
        t = (case rq_fails_after r of None \<Rightarrow> latest_fail_date r window needs | Some d \<Rightarrow> Day d))"
proof (cases "stage_window r")
  case None
  then show ?thesis by (auto simp: fail_date_in_window_def Let_def stage_window_def)
next
  case window: (Some window)
  show ?thesis
  proof (cases "rq_needs_declaration r")
    case None
    with window show ?thesis by (auto simp: fail_date_in_window_def Let_def stage_window_def)
  next
    case (Some needs)
    have "fail_date_in_window r = Inr t \<longleftrightarrow>
        rq_released_on r \<noteq> 0 \<and> rq_superseded_stage r \<noteq> '''' \<and>
        (case rq_fails_after r of None \<Rightarrow> latest_fail_date r window needs = t
         | Some d \<Rightarrow> Day d \<le> latest_fail_date r window needs \<and> Day d = t)"
      using window Some
      by (simp add: fail_date_in_window_def Let_def stage_window_def latest_fail_date_def not_less
          split: option.split)
    with window Some show ?thesis by (auto split: option.splits)
  qed
qed

lemma supersede_Inr:
  "supersede l r i = Inr (l', ev) \<longleftrightarrow>
     subject_check (rq_superseded r) = None \<and> sj_digest (rq_successor r) \<noteq> '''' \<and>
     subject_check (rq_successor (with_default_successor r)) = None \<and>
     (\<exists>decl fl fails_after.
        rq_needs_declaration r = Some decl \<and> rq_needs_fill r = Some fl \<and>
        trim_space (rq_summary r) \<noteq> '''' \<and> rq_recorded_on r \<noteq> 0 \<and>
        one_successor l (with_default_successor r) = None \<and>
        fail_date_in_window (with_default_successor r) = Inr fails_after \<and>
        (let s = \<lparr>sp_successor = rq_successor (with_default_successor r), sp_fails_after = fails_after,
                  sp_needs_declaration = decl, sp_needs_fill = fl, sp_recorded_on = rq_recorded_on r,
                  sp_advisory_id = i, sp_summary = rq_summary r, sp_references = rq_references r\<rparr>
         in l' = l\<lparr>lc_subject := rq_superseded r, lc_supersession := Some s\<rparr> \<and>
            ev = \<lparr>ds_subject = rq_superseded r, ds_supersession = s\<rparr>))"
  by (auto simp: supersede_def Let_def go_errors check_role_def split: if_splits)

text \<open>A recorded supersession obeys the one-successor rule (ST-DIS-INV06): the digest had none
  before, the successor is a different, well formed subject of the same kind, and a successor of
  another component took over a port, graduated to ga and states a declaration change. The
  withdrawal is left as it was.\<close>

lemma supersede_one_successor:
  assumes "supersede l r i = Inr (l', ev)"
  shows "lc_supersession l = None \<and> lc_withdrawal l' = lc_withdrawal l \<and>
    lc_subject l' = rq_superseded r \<and> lc_supersession l' = Some (ds_supersession ev) \<and>
    (let s = ds_supersession ev; succ = sp_successor s in
       subject_check succ = None \<and> sj_kind succ = sj_kind (rq_superseded r) \<and>
       succ \<noteq> rq_superseded r \<and>
       (sj_name succ \<noteq> sj_name (rq_superseded r) \<longrightarrow>
          (\<exists>port \<in> set (rq_took_over r). port \<in> set (rq_superseded_provides r)) \<and>
          rq_successor_stage r = ''ga'' \<and> sp_needs_declaration s))"
  using assms by (auto simp: supersede_Inr one_successor_None Let_def split: if_splits)

text \<open>C20. The fail date of a recorded supersession is never later than the successor's release plus
  the window of the superseded stage, doubled when a declaration change is needed
  (ST-DIS-INV12), and it is that date when the request gives none.\<close>

theorem supersede_within_window:
  assumes "supersede l r i = Inr (l', ev)"
  shows "\<exists>window needs. stage_window r = Some window \<and> rq_needs_declaration r = Some needs \<and>
    sp_fails_after (ds_supersession ev) \<le> latest_fail_date r window needs \<and>
    sp_fails_after (ds_supersession ev) =
      (case rq_fails_after r of None \<Rightarrow> latest_fail_date r window needs | Some d \<Rightarrow> Day d)"
proof -
  obtain t where "fail_date_in_window (with_default_successor r) = Inr t"
    "sp_fails_after (ds_supersession ev) = t"
    using assms by (auto simp: supersede_Inr Let_def)
  then show ?thesis by (auto simp: fail_date_Inr split: option.splits)
qed

text \<open>No input makes the command dereference a nil pointer: the two facts that the rules read
  through pointers are checked before.\<close>

lemma supersede_no_panic: "supersede l r i \<noteq> Inl NilDereference"
proof
  assume "supersede l r i = Inl NilDereference"
  then show False
    by (auto simp: supersede_def Let_def go_errors check_role_def one_successor_def
        fail_date_in_window_def split: if_splits option.splits)
qed

lemma withdraw_Inr:
  "withdraw l r i = Inr (l', ev) \<longleftrightarrow>
     subject_check (wr_withdrawn r) = None \<and>
     (\<exists>given. wr_fails_after r = Some given \<and> trim_space (wr_reason r) \<noteq> '''' \<and>
        wr_recorded_on r \<noteq> 0 \<and> Day (wr_recorded_on r) \<le> Day given \<and> lc_withdrawal l = None \<and>
        (let w = \<lparr>wd_fails_after = Day given, wd_reason = wr_reason r,
                  wd_recorded_on = wr_recorded_on r, wd_advisory_id = i,
                  wd_references = wr_references r\<rparr>
         in l' = l\<lparr>lc_subject := wr_withdrawn r, lc_withdrawal := Some w\<rparr> \<and>
            ev = \<lparr>dw_subject = wr_withdrawn r, dw_withdrawal = w\<rparr>))"
  by (auto simp: withdraw_def Let_def go_errors check_role_def not_less split: if_splits option.splits)

subsection \<open>When a pin fails\<close>

lemma Day_less: "Day s < Day t \<longleftrightarrow> day_of s < day_of t"
  by (simp add: Day_def)

lemma day_of_Day [simp]: "day_of (Day t) = day_of t"
  by (simp add: Day_def)

lemma Day_Day [simp]: "Day (Day t) = Day t"
  by (simp add: Day_def)

lemma past_fail_date_iff:
  "is_past_fail_date l t \<longleftrightarrow>
     (\<exists>s. lc_supersession l = Some s \<and> day_of (sp_fails_after s) < day_of t) \<or>
     (\<exists>w. lc_withdrawal l = Some w \<and> day_of (wd_fails_after w) < day_of t)"
  by (auto simp: is_past_fail_date_def Let_def Day_less split: option.splits)

text \<open>Once a pin is past its fail date it stays past it, and it never is on the fail date itself
  or before: with the supersession just recorded and no withdrawal, the pin stands up to and
  including the fail date and fails on every later day.\<close>

lemma superseded_pin_fails_after_its_date:
  assumes "supersede l r i = Inr (l', ev)" and "lc_withdrawal l = None"
  shows "is_past_fail_date l' t \<longleftrightarrow> day_of (sp_fails_after (ds_supersession ev)) < day_of t"
proof -
  from supersede_one_successor [OF assms(1)] assms(2)
  have "lc_supersession l' = Some (ds_supersession ev)" "lc_withdrawal l' = None" by auto
  then show ?thesis by (simp add: past_fail_date_iff)
qed

lemma past_fail_date_mono: "is_past_fail_date l s \<Longrightarrow> s \<le> t \<Longrightarrow> is_past_fail_date l t"
  using day_of_mono [of s t] by (auto simp: past_fail_date_iff)

subsection \<open>The standing of the pins\<close>

lemma pin_state_simps:
  "st_unreadable st = Some e \<Longrightarrow> \<not> pin_current (pin_state_of st l)"
  "st_unreadable st = None \<Longrightarrow>
     pin_current (pin_state_of st l) \<longleftrightarrow> lc_supersession l = None \<and> lc_withdrawal l = None"
  "ps_pin (pin_state_of st l) = lc_subject l"
  by (auto simp: pin_current_def pin_state_of_def is_superseded_def is_withdrawn_def split: option.splits)

fun last_of :: "subject \<Rightarrow> lifecycle list \<Rightarrow> lifecycle option" where
  "last_of p [] = None"
| "last_of p (l # ls) =
     (case last_of p ls of Some x \<Rightarrow> Some x | None \<Rightarrow> if lc_subject l = p then Some l else None)"

lemma by_subject_map:
  "map_of (by_subject m ls) p = (case last_of p ls of Some l \<Rightarrow> Some l | None \<Rightarrow> map_of m p)"
  by (induction m ls rule: by_subject.induct) (auto split: option.splits)

lemma last_of_mem: "last_of p ls = Some l \<Longrightarrow> l \<in> set ls \<and> lc_subject l = p"
  by (induction ls) (auto split: option.splits if_splits)

lemma last_of_unique:
  "distinct (map lc_subject ls) \<Longrightarrow> l \<in> set ls \<Longrightarrow> last_of (lc_subject l) ls = Some l"
proof (induction ls)
  case Nil
  then show ?case by simp
next
  case (Cons x xs)
  show ?case
  proof (cases "l = x")
    case True
    with Cons.prems(1) have "last_of (lc_subject l) xs = None"
      by (cases "last_of (lc_subject l) xs") (auto dest!: last_of_mem simp: image_iff)
    with True show ?thesis by simp
  next
    case False
    with Cons show ?thesis by simp
  qed
qed

text \<open>C23. A pin is reported as current exactly when the records could be read and no record gives its
  digest a supersession or a withdrawal. Unreadable records make no pin current.\<close>

theorem pin_current_iff:
  assumes "distinct (map lc_subject ls)" and "i < length pins"
  shows "ps_pin (pin_standing (project_standing pins ls e day) ! i) = pins ! i \<and>
    (pin_current (pin_standing (project_standing pins ls e day) ! i) \<longleftrightarrow>
       e = None \<and>
       (\<forall>l \<in> set ls. lc_subject l = pins ! i \<longrightarrow> lc_supersession l = None \<and> lc_withdrawal l = None))"
proof -
  let ?st = "project_standing pins ls e day" and ?p = "pins ! i"
  let ?l = "case last_of ?p ls of Some l \<Rightarrow> l | None \<Rightarrow> empty_lifecycle ?p"
  have at: "pin_standing ?st ! i = pin_state_of ?st ?l"
    using assms(2)
    by (simp add: pin_standing_def project_standing_def Let_def by_subject_map split: option.splits)
  have subj: "lc_subject ?l = ?p"
    by (auto simp: empty_lifecycle_def split: option.splits dest: last_of_mem)
  have "(\<forall>l \<in> set ls. lc_subject l = ?p \<longrightarrow> lc_supersession l = None \<and> lc_withdrawal l = None) \<longleftrightarrow>
      lc_supersession ?l = None \<and> lc_withdrawal ?l = None"
  proof (cases "last_of ?p ls")
    case None
    then have "\<forall>l \<in> set ls. lc_subject l \<noteq> ?p"
      using last_of_unique [OF assms(1)] by force
    with None show ?thesis by (simp add: empty_lifecycle_def)
  next
    case (Some l)
    then have "\<forall>k \<in> set ls. lc_subject k = ?p \<longleftrightarrow> k = l"
      using last_of_unique [OF assms(1)] last_of_mem [OF Some] by (metis option.inject)
    with Some last_of_mem [OF Some] show ?thesis by auto
  qed
  moreover have "st_unreadable ?st = e" by (simp add: project_standing_def Let_def)
  ultimately show ?thesis
    unfolding at by (cases e) (auto simp: pin_state_simps subj)
qed

subsection \<open>Examples\<close>

definition sample_digest :: "char \<Rightarrow> string" where
  "sample_digest c = replicate 64 c"

definition sample_subject :: "char \<Rightarrow> subject" where
  "sample_subject c = \<lparr>sj_kind = ''component'', sj_name = ''rest-api'', sj_digest = sample_digest c\<rparr>"

definition sample_supersede :: supersede_request where
  "sample_supersede =
     \<lparr>rq_superseded = sample_subject CHR ''a'', rq_superseded_stage = ''ga'',
      rq_superseded_provides = [''http''],
      rq_successor = \<lparr>sj_kind = '''', sj_name = '''', sj_digest = sample_digest CHR ''b''\<rparr>,
      rq_successor_stage = ''ga'', rq_took_over = [],
      rq_released_on = time_of_day (day_number 2026 8 31), rq_fails_after = None,
      rq_needs_declaration = Some False, rq_needs_fill = Some False, rq_summary = ''new digest'',
      rq_references = [], rq_recorded_on = time_of_day (day_number 2026 9 1), rq_windows = None\<rparr>"

lemma sample_supersede_ok:
  "\<exists>l ev. supersede (empty_lifecycle (sample_subject CHR ''a'')) sample_supersede ''STEGO-2026-0001''
     = Inr (l, ev)"
proof -
  have "\<not> isl (supersede (empty_lifecycle (sample_subject CHR ''a'')) sample_supersede ''STEGO-2026-0001'')"
    by code_simp
  then show ?thesis
    by (cases "supersede (empty_lifecycle (sample_subject CHR ''a'')) sample_supersede ''STEGO-2026-0001''")
       auto
qed

theorem supersede_one_successor_witness:
  "\<exists>l ev. supersede (empty_lifecycle (sample_subject CHR ''a'')) sample_supersede ''STEGO-2026-0001''
     = Inr (l, ev) \<and> sp_successor (ds_supersession ev) \<noteq> sample_subject CHR ''a''"
proof -
  obtain l ev where eq: "supersede (empty_lifecycle (sample_subject CHR ''a'')) sample_supersede
      ''STEGO-2026-0001'' = Inr (l, ev)"
    using sample_supersede_ok by blast
  from supersede_one_successor [OF this] have "sp_successor (ds_supersession ev) \<noteq> sample_subject CHR ''a''"
    by (simp add: Let_def sample_supersede_def)
  with eq show ?thesis by blast
qed

theorem supersede_within_window_witness:
  "\<exists>l ev. supersede (empty_lifecycle (sample_subject CHR ''a'')) sample_supersede ''STEGO-2026-0001''
     = Inr (l, ev) \<and> sp_fails_after (ds_supersession ev) = time_of_day (day_number 2027 2 31)"
proof -
  obtain l ev where eq: "supersede (empty_lifecycle (sample_subject CHR ''a'')) sample_supersede
      ''STEGO-2026-0001'' = Inr (l, ev)"
    using sample_supersede_ok by blast
  have "stage_window sample_supersede = Some 6" "rq_fails_after sample_supersede = None"
    "rq_needs_declaration sample_supersede = Some False"
    "latest_fail_date sample_supersede 6 False = time_of_day (day_number 2027 2 31)"
    by code_simp+
  with supersede_within_window [OF eq] have "sp_fails_after (ds_supersession ev) =
      time_of_day (day_number 2027 2 31)" by auto
  with eq show ?thesis by blast
qed

theorem superseded_pin_fails_after_its_date_witness:
  "\<exists>l ev. supersede (empty_lifecycle (sample_subject CHR ''a'')) sample_supersede ''STEGO-2026-0001''
     = Inr (l, ev) \<and> \<not> is_past_fail_date l (sp_fails_after (ds_supersession ev))"
proof -
  obtain l ev where eq: "supersede (empty_lifecycle (sample_subject CHR ''a'')) sample_supersede
      ''STEGO-2026-0001'' = Inr (l, ev)"
    using sample_supersede_ok by blast
  have "lc_withdrawal (empty_lifecycle (sample_subject CHR ''a'')) = None"
    by (simp add: empty_lifecycle_def)
  from superseded_pin_fails_after_its_date [OF eq this] eq show ?thesis by auto
qed

theorem pin_current_iff_witness:
  "pin_current (pin_standing (project_standing [sample_subject CHR ''a''] [] None 0 :: unit standing) ! 0)"
proof -
  have "distinct (map lc_subject [])" "(0 :: nat) < length [sample_subject CHR ''a'']" by simp_all
  from pin_current_iff [OF this, of "None :: unit option" 0] show ?thesis by simp
qed

end
