(* ===== verification/Go_Rfc3339.thy ===== *)
theory Go_Rfc3339
  imports Go_Time
begin

text \<open>
  Times in the layout RFC 3339: the contract of \<open>time.Format\<close> and \<open>time.Parse\<close> that the code relies on, and
  the layout in UTC, which keeps it.
\<close>

text \<open>What the code relies on in \<open>time.Format\<close> and \<open>time.Parse\<close>: an instant of a four digit
  year reads back, to the second.\<close>

definition to_second :: "time \<Rightarrow> time" where
  "to_second t = t - t mod 10 ^ 9"

definition four_digit_year :: "time \<Rightarrow> bool" where
  "four_digit_year t \<longleftrightarrow> 0 \<le> year_of (day_of t) \<and> year_of (day_of t) \<le> 9999"

locale rfc3339 =
  fixes show_time :: "time \<Rightarrow> string" and read_time :: "string \<Rightarrow> time option"
  assumes read_show: "four_digit_year t \<Longrightarrow> read_time (show_time t) = Some (to_second t)"
begin

lemma read_show_not_None: "four_digit_year t \<Longrightarrow> read_time (show_time t) \<noteq> None"
  by (simp add: read_show)

end

text \<open>The layout in UTC: a date, \<open>T\<close>, a time of day and \<open>Z\<close>.\<close>

definition show_two :: "int \<Rightarrow> string" where
  "show_two n = pad_zero 2 (show_nat (nat n))"

definition utc_text :: "time \<Rightarrow> string" where
  "utc_text t =
     (let s = (t mod day_ns) div 10 ^ 9
      in date_text (day_of t) @ ''T'' @ show_two (s div 3600) @ '':'' @ show_two (s div 60 mod 60)
         @ '':'' @ show_two (s mod 60) @ ''Z'')"

definition read_utc :: "string \<Rightarrow> time option" where
  "read_utc s =
     (case split_on CHR ''T'' s of
        [d, c] \<Rightarrow>
          (case (parse_date_text d, split_on CHR '':'' (butlast c)) of
             (Some day, [h, m, sec]) \<Rightarrow>
               if c \<noteq> [] \<and> last c = CHR ''Z'' \<and> length h = 2 \<and> length m = 2 \<and> length sec = 2
                  \<and> list_all is_digit (h @ m @ sec)
                  \<and> read_nat h < 24 \<and> read_nat m < 60 \<and> read_nat sec < 60
               then Some (time_of_day day
                          + int (3600 * read_nat h + 60 * read_nat m + read_nat sec) * 10 ^ 9)
               else None
           | _ \<Rightarrow> None)
      | _ \<Rightarrow> None)"

lemma show_two_digits: "c \<in> set (show_two n) \<Longrightarrow> is_digit c"
  by (auto simp: show_two_def intro: padded_digits)

lemma show_two_props:
  assumes "0 \<le> n" "n < 100"
  shows "length (show_two n) = 2" and "int (read_nat (show_two n)) = n"
    and "list_all is_digit (show_two n)"
  using assms by (auto simp: show_two_def list_all_iff intro: padded_digits padded_length)

lemma date_text_no_T:
  assumes "0 \<le> year_of n"
  shows "CHR ''T'' \<notin> set (date_text n)"
proof -
  have "\<not> is_digit CHR ''T''" by (simp add: is_digit_def)
  then have "CHR ''T'' \<notin> set (pad_zero w (show_nat k))" for w k using padded_digits by blast
  then show ?thesis
    using assms by (auto simp: date_text_def date_of_def Let_def)
qed

lemma hours_minutes_seconds:
  fixes s :: int
  shows "3600 * (s div 3600) + 60 * (s div 60 mod 60) + s mod 60 = s"
proof -
  have "s div 3600 = s div 60 div 60" using zdiv_zmult2_eq [of 60 s 60] by simp
  moreover have "60 * (s div 60 div 60) + s div 60 mod 60 = s div 60" by simp
  moreover have "60 * (s div 60) + s mod 60 = s" by simp
  ultimately show ?thesis by linarith
qed

lemma read_utc_parts:
  assumes "split_on CHR ''T'' u = [d, h @ CHR '':'' # m @ CHR '':'' # sec @ ''Z'']"
    and "parse_date_text d = Some day"
    and "\<forall>x \<in> {h, m, sec}. length x = 2 \<and> list_all is_digit x \<and> CHR '':'' \<notin> set x"
    and "read_nat h < 24" "read_nat m < 60" "read_nat sec < 60"
  shows "read_utc u =
    Some (time_of_day day + int (3600 * read_nat h + 60 * read_nat m + read_nat sec) * 10 ^ 9)"
proof -
  have "split_on CHR '':'' (h @ CHR '':'' # m @ CHR '':'' # sec) = [h, m, sec]"
    using assms(3) by (simp add: split_on_append_sep split_on_no_sep)
  then show ?thesis
    unfolding read_utc_def assms(1) using assms(2-) by (simp add: butlast_append)
qed

lemma seconds_of_day:
  assumes "0 \<le> x" and "x < day_ns"
  shows "0 \<le> x div 10 ^ 9 \<and> x div 10 ^ 9 < (86400 :: int)"
proof -
  have "(x div 10 ^ 9) * 10 ^ 9 \<le> x" by (simp add: minus_mod_eq_div_mult [symmetric])
  then have "(x div 10 ^ 9) * 10 ^ 9 < 86400 * 10 ^ 9"
    using assms(2) unfolding day_ns_def by (rule le_less_trans)
  then have "x div 10 ^ 9 < 86400" by (simp only: mult_less_cancel_right) simp
  moreover have "0 \<le> x div 10 ^ 9" using assms(1) by (simp add: pos_imp_zdiv_nonneg_iff)
  ultimately show ?thesis by simp
qed

lemma second_of_day_text:
  "time_of_day (day_of t) + (t mod day_ns) div 10 ^ 9 * 10 ^ 9 = to_second t"
proof -
  have "(10 ^ 9 :: int) dvd day_ns" unfolding day_ns_def by (rule dvd_triv_right)
  then have "t mod day_ns mod 10 ^ 9 = t mod 10 ^ 9" by (rule mod_mod_cancel)
  moreover have "time_of_day (day_of t) + t mod day_ns = t"
    unfolding time_of_day_def day_of_def by (rule div_mult_mod_eq)
  ultimately show ?thesis
    unfolding to_second_def minus_mod_eq_div_mult [symmetric] by simp
qed

lemma two_digit_fields:
  assumes "0 \<le> s" and "s < (86400 :: int)"
  shows "0 \<le> s div 3600 \<and> s div 3600 < 24" "0 \<le> s div 60 mod 60 \<and> s div 60 mod 60 < 60"
    "0 \<le> s mod 60 \<and> s mod 60 < 60"
  using assms by auto

lemma split_utc_text:
  assumes "0 \<le> year_of (day_of t)"
  shows "split_on CHR ''T'' (utc_text t) =
    [date_text (day_of t),
     show_two ((t mod day_ns) div 10 ^ 9 div 3600) @ CHR '':''
       # show_two ((t mod day_ns) div 10 ^ 9 div 60 mod 60) @ CHR '':''
       # show_two ((t mod day_ns) div 10 ^ 9 mod 60) @ ''Z'']"
proof -
  have nd: "\<not> is_digit CHR ''T''" by (simp add: is_digit_def)
  then have two: "CHR ''T'' \<notin> set (show_two k)" for k using show_two_digits by blast
  have u: "utc_text t = date_text (day_of t) @ CHR ''T''
      # (show_two ((t mod day_ns) div 10 ^ 9 div 3600) @ CHR '':''
       # show_two ((t mod day_ns) div 10 ^ 9 div 60 mod 60) @ CHR '':''
       # show_two ((t mod day_ns) div 10 ^ 9 mod 60) @ ''Z'')"
    unfolding utc_text_def Let_def by (simp only: append.simps append_assoc)
  have r: "split_on CHR ''T'' (show_two a @ CHR '':'' # show_two b @ CHR '':'' # show_two c @ ''Z'') =
      [show_two a @ CHR '':'' # show_two b @ CHR '':'' # show_two c @ ''Z'']" for a b c
    using two by (intro split_on_no_sep) simp
  show ?thesis
    unfolding u split_on_append_sep [OF date_text_no_T [OF assms]] r ..
qed

lemma two_digit_read:
  assumes "0 \<le> k" and "k < (int b)" and "b \<le> 100"
  shows "length (show_two k) = 2 \<and> list_all is_digit (show_two k) \<and> CHR '':'' \<notin> set (show_two k) \<and>
    read_nat (show_two k) < b \<and> int (read_nat (show_two k)) = k"
proof -
  have "k < 100" using assms by simp
  note p = show_two_props [OF assms(1) this]
  have "\<not> is_digit CHR '':''" by (simp add: is_digit_def)
  then have "CHR '':'' \<notin> set (show_two k)" using show_two_digits by blast
  moreover have "int (read_nat (show_two k)) < int b" using p(2) assms(2) by simp
  then have "read_nat (show_two k) < b" by (simp only: of_nat_less_iff)
  ultimately show ?thesis using p by simp
qed

lemma read_utc_text:
  assumes "four_digit_year t"
  shows "read_utc (utc_text t) = Some (to_second t)"
proof -
  define s where "s = (t mod day_ns) div 10 ^ 9"
  have "0 \<le> s \<and> s < 86400"
    unfolding s_def by (rule seconds_of_day) simp_all
  then have f: "0 \<le> s div 3600 \<and> s div 3600 < 24" "0 \<le> s div 60 mod 60 \<and> s div 60 mod 60 < 60"
    "0 \<le> s mod 60 \<and> s mod 60 < 60"
    using two_digit_fields [of s] by blast+
  note h = two_digit_read [of "s div 3600" 24] and m = two_digit_read [of "s div 60 mod 60" 60]
    and sec = two_digit_read [of "s mod 60" 60]
  have y: "0 \<le> year_of (day_of t)" "year_of (day_of t) \<le> 9999"
    using assms by (simp_all add: four_digit_year_def)
  note sp = split_utc_text [OF y(1), folded s_def]
  note day = parse_date_text_roundtrip [OF y]
  have "read_utc (utc_text t) = Some (time_of_day (day_of t) +
      int (3600 * read_nat (show_two (s div 3600)) + 60 * read_nat (show_two (s div 60 mod 60))
        + read_nat (show_two (s mod 60))) * 10 ^ 9)"
    using h m sec f by (intro read_utc_parts [OF sp day]) simp_all
  also have "int (3600 * read_nat (show_two (s div 3600)) + 60 * read_nat (show_two (s div 60 mod 60))
        + read_nat (show_two (s mod 60))) = s"
    using h m sec f hours_minutes_seconds [of s] by simp
  finally show ?thesis unfolding s_def second_of_day_text .
qed

interpretation utc: rfc3339 utc_text read_utc
  by unfold_locales (rule read_utc_text)

end
