(* ===== verification/Lifecycle_Store.thy ===== *)
theory Lifecycle_Store
  imports Lifecycle Go_Rfc3339 "HOL-Library.Multiset"
begin

text \<open>
  \<open>internal/lifecycle/store.go\<close>: the folder of OSV advisories, one file per record, and the two
  commands of \<open>commands.go\<close> that read it, decide and add one file.

  The formats of \<open>encoding/json\<close> and of RFC 3339 times are arguments of the definitions: \<open>decode\<close>
  is a strict decoder of one JSON value, \<open>encode\<close> the indented encoding with its newline, and
  \<open>read_time\<close>, \<open>show_time\<close> are \<open>time.Parse\<close> and \<open>Format\<close> with the layout RFC3339 (in UTC).
\<close>

subsection \<open>Advisories\<close>

record osv_package =
  pk_ecosystem :: string
  pk_name :: string

record osv_event =
  ev_introduced :: string
  ev_fixed :: string

record osv_range =
  rg_type :: string
  rg_events :: "osv_event list"

record osv_affected =
  af_package :: osv_package
  af_ranges :: "osv_range list"
  af_versions :: "string list"

record osv_reference =
  rf_type :: string
  rf_url :: string

record stego_fields =
  sf_kind :: string
  sf_successor_name :: string
  sf_fails_after :: string
  sf_needs_declaration :: "bool option"
  sf_needs_fill :: "bool option"

record advisory =
  ad_schema_version :: string
  ad_id :: string
  ad_modified :: string
  ad_published :: string
  ad_withdrawn :: string
  ad_summary :: string
  ad_affected :: "osv_affected list"
  ad_references :: "osv_reference list"
  ad_stego :: stego_fields

record advisory_entry =
  ae_subject :: subject
  ae_supersession :: "supersession option"
  ae_withdrawal :: "withdrawal option"

definition osv_schema_version :: string where "osv_schema_version = ''1.6.0''"
definition component_ecosystem :: string where "component_ecosystem = ''STEGO''"
definition runtime_ecosystem :: string where "runtime_ecosystem = ''Go''"
definition supersession_kind :: string where "supersession_kind = ''supersession''"
definition withdrawal_kind :: string where "withdrawal_kind = ''withdrawal''"

text \<open>\<open>^STEGO-([0-9]{4})-([0-9]{4,})$\<close>, with its two groups.\<close>

definition match_advisory_id :: "string \<Rightarrow> (string \<times> string) option" where
  "match_advisory_id s =
     (if has_prefix s ''STEGO-'' then
        (let r = drop 6 s; year = take 4 r; rest = drop 4 r in
         if length year = 4 \<and> list_all is_digit year \<and> has_prefix rest ''-''
            \<and> length (tl rest) \<ge> 4 \<and> list_all is_digit (tl rest)
         then Some (year, tl rest) else None)
      else None)"

datatype advisory_fault =
    WrongSchemaVersion string
  | NotAnAdvisoryId string
  | EmptySummary
  | BadPublishedTime string
  | BadModifiedTime string
  | AffectedCount nat
  | UnknownEcosystem string
  | BadFailDate string
  | SupersessionShape
  | SupersessionFacts
  | AdvisorySubject string subject_fault
  | BadWithdrawnTime string
  | WithdrawalShape
  | WithdrawalHasSuccessor
  | UnknownAdvisoryKind string

definition supersession_shape :: "osv_affected \<Rightarrow> (string \<times> string) option" where
  "supersession_shape a =
     (case (af_versions a, af_ranges a) of
        ([], [r]) \<Rightarrow>
          if rg_type r \<noteq> ''ECOSYSTEM'' then None
          else (case rg_events r of
              [e1, e2] \<Rightarrow>
                if ev_introduced e1 = '''' \<or> ev_fixed e1 \<noteq> '''' \<or> ev_fixed e2 = '''' \<or> ev_introduced e2 \<noteq> ''''
                then None else Some (ev_introduced e1, ev_fixed e2)
            | _ \<Rightarrow> None)
      | _ \<Rightarrow> None)"

definition check_subject :: "string \<Rightarrow> subject \<Rightarrow> advisory_fault option" where
  "check_subject role s = map_option (AdvisorySubject role) (subject_check s)"

definition supersession_entry ::
    "(string \<Rightarrow> time option) \<Rightarrow> advisory \<Rightarrow> osv_affected \<Rightarrow> string \<Rightarrow> time \<Rightarrow> time
      \<Rightarrow> (advisory_fault, advisory_entry) result" where
  "supersession_entry read_time a affected kind fails_after published =
     (let fields = ad_stego a in
      case supersession_shape affected of
        None \<Rightarrow> Inl SupersessionShape
      | Some (introduced, fixed) \<Rightarrow>
        (case (sf_needs_declaration fields, sf_needs_fill fields) of
           (Some decl, Some fill) \<Rightarrow>
             (let subj = \<lparr>sj_kind = kind, sj_name = pk_name (af_package affected), sj_digest = introduced\<rparr>;
                  succ0 = \<lparr>sj_kind = kind, sj_name = pk_name (af_package affected), sj_digest = fixed\<rparr>;
                  succ = (if sf_successor_name fields \<noteq> '''' then succ0\<lparr>sj_name := sf_successor_name fields\<rparr>
                          else succ0)
              in after (check_subject ''the superseded digest'' subj)
                 (after (check_subject ''the successor'' succ)
                   (if ad_withdrawn a \<noteq> '''' \<and> read_time (ad_withdrawn a) = None
                    then Inl (BadWithdrawnTime (ad_withdrawn a))
                    else Inr \<lparr>ae_subject = subj,
                           ae_supersession = Some
                             \<lparr>sp_successor = succ, sp_fails_after = fails_after,
                              sp_needs_declaration = decl, sp_needs_fill = fill,
                              sp_recorded_on = published, sp_advisory_id = ad_id a,
                              sp_summary = ad_summary a,
                              sp_references = map rf_url (ad_references a)\<rparr>,
                           ae_withdrawal = None\<rparr>)))
         | _ \<Rightarrow> Inl SupersessionFacts))"

definition withdrawal_entry ::
    "(string \<Rightarrow> time option) \<Rightarrow> advisory \<Rightarrow> osv_affected \<Rightarrow> string \<Rightarrow> time
      \<Rightarrow> (advisory_fault, advisory_entry) result" where
  "withdrawal_entry read_time a affected kind fails_after =
     (let fields = ad_stego a in
      case (af_ranges affected, af_versions affected) of
        ([], [version]) \<Rightarrow>
          if sf_successor_name fields \<noteq> '''' \<or> sf_needs_declaration fields \<noteq> None \<or> sf_needs_fill fields \<noteq> None
          then Inl WithdrawalHasSuccessor
          else (case read_time (ad_withdrawn a) of
              None \<Rightarrow> Inl (BadWithdrawnTime (ad_withdrawn a))
            | Some withdrawn \<Rightarrow>
              (let subj = \<lparr>sj_kind = kind, sj_name = pk_name (af_package affected), sj_digest = version\<rparr>
               in after (check_subject ''the withdrawn digest'' subj)
                  (Inr \<lparr>ae_subject = subj, ae_supersession = None,
                        ae_withdrawal = Some
                          \<lparr>wd_fails_after = fails_after, wd_reason = ad_summary a,
                           wd_recorded_on = withdrawn, wd_advisory_id = ad_id a,
                           wd_references = map rf_url (ad_references a)\<rparr>\<rparr>)))
      | _ \<Rightarrow> Inl WithdrawalShape)"

definition read_entry ::
    "(string \<Rightarrow> time option) \<Rightarrow> advisory \<Rightarrow> (advisory_fault, advisory_entry) result" where
  "read_entry read_time a =
     (if ad_schema_version a \<noteq> osv_schema_version then Inl (WrongSchemaVersion (ad_schema_version a))
      else if match_advisory_id (ad_id a) = None then Inl (NotAnAdvisoryId (ad_id a))
      else if trim_space (ad_summary a) = '''' then Inl EmptySummary
      else (case read_time (ad_published a) of
        None \<Rightarrow> Inl (BadPublishedTime (ad_published a))
      | Some published \<Rightarrow>
        if read_time (ad_modified a) = None then Inl (BadModifiedTime (ad_modified a))
        else (case ad_affected a of
          [affected] \<Rightarrow>
            (let eco = pk_ecosystem (af_package affected) in
             if eco \<noteq> component_ecosystem \<and> eco \<noteq> runtime_ecosystem then Inl (UnknownEcosystem eco)
             else
               (let kind = (if eco = component_ecosystem then component_package else runtime_package);
                    fields = ad_stego a
                in case parse_date (sf_fails_after fields) of
                  None \<Rightarrow> Inl (BadFailDate (sf_fails_after fields))
                | Some fails_after \<Rightarrow>
                  if sf_kind fields = supersession_kind then
                    supersession_entry read_time a affected kind fails_after published
                  else if sf_kind fields = withdrawal_kind then
                    withdrawal_entry read_time a affected kind fails_after
                  else Inl (UnknownAdvisoryKind (sf_kind fields))))
        | _ \<Rightarrow> Inl (AffectedCount (length (ad_affected a))))))"

definition ecosystem :: "string \<Rightarrow> string" where
  "ecosystem kind = (if kind = runtime_package then runtime_ecosystem else component_ecosystem)"

definition osv_references :: "string list \<Rightarrow> osv_reference list" where
  "osv_references urls = map (\<lambda>u. \<lparr>rf_type = ''WEB'', rf_url = u\<rparr>) urls"

definition supersession_advisory :: "(time \<Rightarrow> string) \<Rightarrow> subject \<Rightarrow> supersession \<Rightarrow> advisory" where
  "supersession_advisory show_time subj s =
     (let recorded = show_time (sp_recorded_on s) in
      \<lparr>ad_schema_version = osv_schema_version, ad_id = sp_advisory_id s, ad_modified = recorded,
       ad_published = recorded, ad_withdrawn = '''', ad_summary = sp_summary s,
       ad_affected =
         [\<lparr>af_package = \<lparr>pk_ecosystem = ecosystem (sj_kind subj), pk_name = sj_name subj\<rparr>,
           af_ranges = [\<lparr>rg_type = ''ECOSYSTEM'',
              rg_events = [\<lparr>ev_introduced = sj_digest subj, ev_fixed = ''''\<rparr>,
                           \<lparr>ev_introduced = '''', ev_fixed = sj_digest (sp_successor s)\<rparr>]\<rparr>],
           af_versions = []\<rparr>],
       ad_references = osv_references (sp_references s),
       ad_stego =
         \<lparr>sf_kind = supersession_kind,
          sf_successor_name = (if sj_name (sp_successor s) \<noteq> sj_name subj then sj_name (sp_successor s) else ''''),
          sf_fails_after = format_date (sp_fails_after s),
          sf_needs_declaration = Some (sp_needs_declaration s), sf_needs_fill = Some (sp_needs_fill s)\<rparr>\<rparr>)"

definition withdrawal_advisory :: "(time \<Rightarrow> string) \<Rightarrow> subject \<Rightarrow> withdrawal \<Rightarrow> advisory" where
  "withdrawal_advisory show_time subj w =
     (let recorded = show_time (wd_recorded_on w) in
      \<lparr>ad_schema_version = osv_schema_version, ad_id = wd_advisory_id w, ad_modified = recorded,
       ad_published = recorded, ad_withdrawn = recorded, ad_summary = wd_reason w,
       ad_affected =
         [\<lparr>af_package = \<lparr>pk_ecosystem = ecosystem (sj_kind subj), pk_name = sj_name subj\<rparr>,
           af_ranges = [], af_versions = [sj_digest subj]\<rparr>],
       ad_references = osv_references (wd_references w),
       ad_stego =
         \<lparr>sf_kind = withdrawal_kind, sf_successor_name = '''',
          sf_fails_after = format_date (wd_fails_after w),
          sf_needs_declaration = None, sf_needs_fill = None\<rparr>\<rparr>)"

subsection \<open>Grouping advisories by subject\<close>

datatype 'f store_error =
    NoFolder
  | FolderUnreadable
  | NotAFolder
  | NotAnAdvisoryFile string
  | InvalidRecord string 'f
  | MisnamedRecord string string
  | DuplicateAdvisoryId string
  | TwoSuccessors subject string string
  | TwoWithdrawals subject string string
  | WriteFailed string
  | Refused lifecycle_error

definition entry_of :: "(string \<Rightarrow> time option) \<Rightarrow> advisory \<Rightarrow> advisory_entry" where
  "entry_of read_time a =
     (case read_entry read_time a of
        Inr e \<Rightarrow> e
      | Inl _ \<Rightarrow> \<lparr>ae_subject = \<lparr>sj_kind = '''', sj_name = '''', sj_digest = ''''\<rparr>,
                 ae_supersession = None, ae_withdrawal = None\<rparr>)"

text \<open>The map keeps its keys in the order of their first use, as the source's \<open>order\<close> slice does.\<close>

fun group_advisories ::
    "(advisory \<Rightarrow> advisory_entry) \<Rightarrow> advisory list \<Rightarrow> string list \<Rightarrow> (subject \<times> lifecycle) list
      \<Rightarrow> ('f store_error, (subject \<times> lifecycle) list) result" where
  "group_advisories entry [] ids m = Inr m"
| "group_advisories entry (a # as) ids m =
     (if ad_id a \<in> set ids then Inl (DuplicateAdvisoryId (ad_id a))
      else
        (let e = entry a; subj = ae_subject e;
             current = (case map_of m subj of Some l \<Rightarrow> l | None \<Rightarrow> empty_lifecycle subj);
             ids' = ad_id a # ids
         in case ae_supersession e of
              Some s \<Rightarrow>
                if ad_withdrawn a \<noteq> '''' then group_advisories entry as ids' (AList.update subj current m)
                else (case lc_supersession current of
                    Some old \<Rightarrow> Inl (TwoSuccessors subj (sp_advisory_id old) (ad_id a))
                  | None \<Rightarrow> group_advisories entry as ids'
                      (AList.update subj (current\<lparr>lc_supersession := Some s\<rparr>) m))
            | None \<Rightarrow>
                (case lc_withdrawal current of
                    Some old \<Rightarrow> Inl (TwoWithdrawals subj (wd_advisory_id old) (ad_id a))
                  | None \<Rightarrow> group_advisories entry as ids'
                      (AList.update subj (current\<lparr>lc_withdrawal := ae_withdrawal e\<rparr>) m))))"

definition lifecycles ::
    "(string \<Rightarrow> time option) \<Rightarrow> advisory list \<Rightarrow> ('f store_error, lifecycle list) result" where
  "lifecycles read_time advisories =
     bind_result (group_advisories (entry_of read_time) advisories [] []) (\<lambda>m. Inr (map snd m))"

subsection \<open>The folder\<close>

text \<open>A file that cannot be opened or read has no content.\<close>

record dir_file =
  df_regular :: bool
  df_content :: "string option"

datatype folder =
    Missing
  | StatFails
  | NotDirectory
  | ListFails
  | Directory "dir_file gomap"

datatype record_fault =
    CannotRead
  | TooLarge
  | NotOneJsonValue
  | BadAdvisory advisory_fault

definition max_advisory_bytes :: nat where "max_advisory_bytes = 1048576"

definition read_advisory ::
    "(string \<Rightarrow> advisory option) \<Rightarrow> (string \<Rightarrow> time option) \<Rightarrow> dir_file
      \<Rightarrow> (record_fault, advisory) result" where
  "read_advisory decode read_time f =
     (case df_content f of
        None \<Rightarrow> Inl CannotRead
      | Some data \<Rightarrow>
        if length data > max_advisory_bytes then Inl TooLarge
        else (case decode data of
            None \<Rightarrow> Inl NotOneJsonValue
          | Some a \<Rightarrow>
            (case read_entry read_time a of
               Inl e \<Rightarrow> Inl (BadAdvisory e) | Inr _ \<Rightarrow> Inr a)))"

fun read_files ::
    "(string \<Rightarrow> advisory option) \<Rightarrow> (string \<Rightarrow> time option) \<Rightarrow> dir_file gomap \<Rightarrow> string list
      \<Rightarrow> (record_fault store_error, advisory list) result" where
  "read_files decode read_time files [] = Inr []"
| "read_files decode read_time files (name # names) =
     (if name = ''README.md'' then read_files decode read_time files names
      else let f = the (map_of files name) in
        if \<not> df_regular f \<or> \<not> has_suffix name ''.json'' then Inl (NotAnAdvisoryFile name)
        else (case read_advisory decode read_time f of
            Inl e \<Rightarrow> Inl (InvalidRecord name e)
          | Inr a \<Rightarrow>
            if ad_id a @ ''.json'' \<noteq> name then Inl (MisnamedRecord name (ad_id a))
            else bind_result (read_files decode read_time files names) (\<lambda>as. Inr (a # as))))"

definition read_store ::
    "(string \<Rightarrow> advisory option) \<Rightarrow> (string \<Rightarrow> time option) \<Rightarrow> folder
      \<Rightarrow> (record_fault store_error, advisory list) result" where
  "read_store decode read_time folder =
     (case folder of
        Missing \<Rightarrow> Inl NoFolder
      | StatFails \<Rightarrow> Inl FolderUnreadable
      | NotDirectory \<Rightarrow> Inl NotAFolder
      | ListFails \<Rightarrow> Inl FolderUnreadable
      | Directory files \<Rightarrow> read_files decode read_time files (sorted_keys files))"

definition store_all ::
    "(string \<Rightarrow> advisory option) \<Rightarrow> (string \<Rightarrow> time option) \<Rightarrow> folder
      \<Rightarrow> (record_fault store_error, lifecycle list) result" where
  "store_all decode read_time folder =
     bind_result (read_store decode read_time folder) (lifecycles read_time)"

definition store_get ::
    "(string \<Rightarrow> advisory option) \<Rightarrow> (string \<Rightarrow> time option) \<Rightarrow> folder \<Rightarrow> subject
      \<Rightarrow> (record_fault store_error, lifecycle) result" where
  "store_get decode read_time folder subj =
     (case store_all decode read_time folder of
        Inl NoFolder \<Rightarrow> Inr (empty_lifecycle subj)
      | Inl e \<Rightarrow> Inl e
      | Inr all \<Rightarrow>
        Inr (case find (\<lambda>l. lc_subject l = subj) all of Some l \<Rightarrow> l | None \<Rightarrow> empty_lifecycle subj))"

fun highest_number :: "string \<Rightarrow> advisory list \<Rightarrow> int \<Rightarrow> int" where
  "highest_number year [] highest = highest"
| "highest_number year (a # as) highest =
     highest_number year as
       (case match_advisory_id (ad_id a) of
          None \<Rightarrow> highest
        | Some (y, n) \<Rightarrow>
          if y \<noteq> year then highest
          else (case atoi_digits n of
              Some number \<Rightarrow> if number > highest then number else highest
            | None \<Rightarrow> highest))"

definition next_advisory_id ::
    "(string \<Rightarrow> advisory option) \<Rightarrow> (string \<Rightarrow> time option) \<Rightarrow> folder \<Rightarrow> time
      \<Rightarrow> (record_fault store_error, string) result" where
  "next_advisory_id decode read_time folder recorded_on =
     (let year = year_of (day_of recorded_on);
          id_after = (\<lambda>as. ''STEGO-'' @ sprintf_04d year @ ''-'' @
                        sprintf_04d (wrap64 (highest_number (itoa year) as 0 + 1)))
      in case read_store decode read_time folder of
        Inr as \<Rightarrow> Inr (id_after as)
      | Inl NoFolder \<Rightarrow> Inr (id_after [])
      | Inl e \<Rightarrow> Inl e)"

text \<open>
  \<open>add\<close> as the states of the folder it goes through: the folder made, the temporary file there,
  the advisory linked, the temporary file removed. The argument \<open>fault\<close> says that the call that
  makes the folder fails, or that a later call before the link does; then the temporary file is
  removed and the error is returned. The link itself fails when the name is taken.
\<close>

datatype add_fault = MkdirFails | WriteFails

definition folder_files :: "folder \<Rightarrow> dir_file gomap" where
  "folder_files f = (case f of Directory m \<Rightarrow> m | _ \<Rightarrow> [])"

definition regular_file :: "string \<Rightarrow> dir_file" where
  "regular_file data = \<lparr>df_regular = True, df_content = Some data\<rparr>"

definition add_states ::
    "(advisory \<Rightarrow> string) \<Rightarrow> string \<Rightarrow> advisory \<Rightarrow> folder \<Rightarrow> folder list" where
  "add_states encode temporary a folder =
     (let files = folder_files folder; name = ad_id a @ ''.json'';
          staged = AList.update temporary (regular_file (encode a)) files
      in [Directory files, Directory staged,
          Directory (AList.update name (regular_file (encode a)) staged),
          Directory (AList.delete temporary (AList.update name (regular_file (encode a)) staged))])"

definition store_add ::
    "(advisory \<Rightarrow> string) \<Rightarrow> add_fault option \<Rightarrow> string \<Rightarrow> advisory \<Rightarrow> folder
      \<Rightarrow> record_fault store_error option \<times> folder" where
  "store_add encode fault temporary a folder =
     (let files = folder_files folder; name = ad_id a @ ''.json'' in
      if fault = Some MkdirFails then (Some (WriteFailed (ad_id a)), folder)
      else if fault = Some WriteFails then (Some (WriteFailed (ad_id a)), Directory files)
      else if map_of files name \<noteq> None then (Some (WriteFailed (ad_id a)), Directory files)
      else (None, last (add_states encode temporary a folder)))"

subsection \<open>The commands on the store\<close>

record store_codec =
  sc_decode :: "string \<Rightarrow> advisory option"
  sc_encode :: "advisory \<Rightarrow> string"
  sc_read_time :: "string \<Rightarrow> time option"
  sc_show_time :: "time \<Rightarrow> string"

definition store_supersede ::
    "store_codec \<Rightarrow> add_fault option \<Rightarrow> string \<Rightarrow> folder \<Rightarrow> supersede_request
      \<Rightarrow> (record_fault store_error, digest_superseded) result \<times> folder" where
  "store_supersede c fault temporary folder request =
     (case store_get (sc_decode c) (sc_read_time c) folder (rq_superseded request) of
        Inl e \<Rightarrow> (Inl e, folder)
      | Inr current \<Rightarrow>
        (case next_advisory_id (sc_decode c) (sc_read_time c) folder (rq_recorded_on request) of
           Inl e \<Rightarrow> (Inl e, folder)
         | Inr i \<Rightarrow>
           (case supersede current request i of
              Inl e \<Rightarrow> (Inl (Refused e), folder)
            | Inr (l, event) \<Rightarrow>
              (case store_add (sc_encode c) fault temporary
                      (supersession_advisory (sc_show_time c) (lc_subject l) (the (lc_supersession l))) folder of
                 (Some e, folder') \<Rightarrow> (Inl e, folder')
               | (None, folder') \<Rightarrow> (Inr event, folder')))))"

definition store_withdraw ::
    "store_codec \<Rightarrow> add_fault option \<Rightarrow> string \<Rightarrow> folder \<Rightarrow> withdraw_request
      \<Rightarrow> (record_fault store_error, digest_withdrawn) result \<times> folder" where
  "store_withdraw c fault temporary folder request =
     (case store_get (sc_decode c) (sc_read_time c) folder (wr_withdrawn request) of
        Inl e \<Rightarrow> (Inl e, folder)
      | Inr current \<Rightarrow>
        (case next_advisory_id (sc_decode c) (sc_read_time c) folder (wr_recorded_on request) of
           Inl e \<Rightarrow> (Inl e, folder)
         | Inr i \<Rightarrow>
           (case withdraw current request i of
              Inl e \<Rightarrow> (Inl (Refused e), folder)
            | Inr (l, event) \<Rightarrow>
              (case store_add (sc_encode c) fault temporary
                      (withdrawal_advisory (sc_show_time c) (lc_subject l) (the (lc_withdrawal l))) folder of
                 (Some e, folder') \<Rightarrow> (Inl e, folder')
               | (None, folder') \<Rightarrow> (Inr event, folder')))))"

definition read_standing ::
    "store_codec \<Rightarrow> folder \<Rightarrow> subject list \<Rightarrow> time \<Rightarrow> record_fault store_error pin_state list" where
  "read_standing c folder pins day =
     (case store_all (sc_decode c) (sc_read_time c) folder of
        Inl e \<Rightarrow> pin_standing (project_standing pins [] (Some e) day)
      | Inr all \<Rightarrow> pin_standing (project_standing pins all None day))"

subsection \<open>An advisory reads back\<close>

lemma parse_format_date:
  assumes "four_digit_year t"
  shows "parse_date (format_date t) = Some (Day t)"
  using assms unfolding parse_date_def format_date_def four_digit_year_def
  by (simp add: parse_date_text_roundtrip Day_def)

definition known_kind :: "subject \<Rightarrow> bool" where
  "known_kind s \<longleftrightarrow> sj_kind s = component_package \<or> sj_kind s = runtime_package"

lemma checked_subject:
  assumes "subject_check s = None"
  shows "known_kind s" and "sj_name s \<noteq> ''''" and "sj_digest s \<noteq> ''''"
  using assms by (auto simp: subject_check_def known_kind_def split: if_splits)

lemma ecosystem_kind:
  assumes "known_kind s"
  shows "(if ecosystem (sj_kind s) = component_ecosystem then component_package else runtime_package) = sj_kind s"
    and "ecosystem (sj_kind s) = component_ecosystem \<or> ecosystem (sj_kind s) = runtime_ecosystem"
  using assms by (auto simp: known_kind_def ecosystem_def component_package_def runtime_package_def
      component_ecosystem_def runtime_ecosystem_def)

lemma kinds_differ [simp]: "withdrawal_kind \<noteq> supersession_kind"
  by (simp add: withdrawal_kind_def supersession_kind_def)

lemma ecosystem_kind_simps:
  assumes "known_kind s"
  shows "\<not> (ecosystem (sj_kind s) \<noteq> component_ecosystem \<and> ecosystem (sj_kind s) \<noteq> runtime_ecosystem)"
    and "ecosystem (sj_kind s) = component_ecosystem \<Longrightarrow> sj_kind s = component_package"
    and "ecosystem (sj_kind s) \<noteq> component_ecosystem \<Longrightarrow> sj_kind s = runtime_package"
  using ecosystem_kind [OF assms] by (auto split: if_splits)

text \<open>What the folder can hold of a supersession: checked subjects of one kind, an advisory id and
  a summary, and times of four digit years.\<close>

definition storable_supersession :: "subject \<Rightarrow> supersession \<Rightarrow> bool" where
  "storable_supersession subj s \<longleftrightarrow>
     subject_check subj = None \<and> subject_check (sp_successor s) = None \<and>
     sj_kind (sp_successor s) = sj_kind subj \<and> match_advisory_id (sp_advisory_id s) \<noteq> None \<and>
     trim_space (sp_summary s) \<noteq> '''' \<and> four_digit_year (sp_recorded_on s) \<and>
     four_digit_year (sp_fails_after s)"

definition storable_withdrawal :: "subject \<Rightarrow> withdrawal \<Rightarrow> bool" where
  "storable_withdrawal subj w \<longleftrightarrow>
     subject_check subj = None \<and> match_advisory_id (wd_advisory_id w) \<noteq> None \<and>
     trim_space (wd_reason w) \<noteq> '''' \<and> four_digit_year (wd_recorded_on w) \<and>
     four_digit_year (wd_fails_after w)"

text \<open>What the folder keeps of the times: the day a pin fails after, and the second of recording.\<close>

definition stored_supersession :: "supersession \<Rightarrow> supersession" where
  "stored_supersession s =
     s\<lparr>sp_fails_after := Day (sp_fails_after s), sp_recorded_on := to_second (sp_recorded_on s)\<rparr>"

definition stored_withdrawal :: "withdrawal \<Rightarrow> withdrawal" where
  "stored_withdrawal w =
     w\<lparr>wd_fails_after := Day (wd_fails_after w), wd_recorded_on := to_second (wd_recorded_on w)\<rparr>"

lemma osv_reference_urls [simp]: "map rf_url (osv_references urls) = urls"
  by (simp add: osv_references_def comp_def)

lemmas advisory_simps = supersession_advisory_def withdrawal_advisory_def Let_def

context rfc3339
begin

lemma supersession_roundtrip:
  assumes "storable_supersession subj s"
  shows "read_entry read_time (supersession_advisory show_time subj s) =
    Inr \<lparr>ae_subject = subj, ae_supersession = Some (stored_supersession s), ae_withdrawal = None\<rparr>"
proof -
  note st = assms [unfolded storable_supersession_def]
  have k: "known_kind subj" using st checked_subject(1) by blast
  let ?a = "supersession_advisory show_time subj s"
  obtain aff where aff: "ad_affected ?a = [aff]" and "aff = hd (ad_affected ?a)"
    by (simp add: advisory_simps)
  then have shape: "supersession_shape aff = Some (sj_digest subj, sj_digest (sp_successor s))"
    and name: "pk_name (af_package aff) = sj_name subj"
    and eco: "pk_ecosystem (af_package aff) = ecosystem (sj_kind subj)"
    using st checked_subject(3) by (auto simp: advisory_simps supersession_shape_def)
  have entry: "supersession_entry read_time ?a aff (sj_kind subj) (Day (sp_fails_after s))
      (to_second (sp_recorded_on s)) =
    Inr \<lparr>ae_subject = subj, ae_supersession = Some (stored_supersession s), ae_withdrawal = None\<rparr>"
    using st checked_subject(2) [of "sp_successor s"] unfolding supersession_entry_def shape name
    by (cases subj; cases "sp_successor s"; cases s)
      (auto simp: advisory_simps check_subject_def stored_supersession_def)
  show ?thesis
    unfolding read_entry_def aff
    using st ecosystem_kind_simps [OF k] entry read_show [of "sp_recorded_on s"]
    by (auto simp: advisory_simps eco parse_format_date)
qed

lemma withdrawal_roundtrip:
  assumes "storable_withdrawal subj w"
  shows "read_entry read_time (withdrawal_advisory show_time subj w) =
    Inr \<lparr>ae_subject = subj, ae_supersession = None, ae_withdrawal = Some (stored_withdrawal w)\<rparr>"
proof -
  note st = assms [unfolded storable_withdrawal_def]
  have k: "known_kind subj" using st checked_subject(1) by blast
  let ?a = "withdrawal_advisory show_time subj w"
  obtain aff where aff: "ad_affected ?a = [aff]" and "aff = hd (ad_affected ?a)"
    by (simp add: advisory_simps)
  then have shape: "af_ranges aff = []" "af_versions aff = [sj_digest subj]"
    and name: "pk_name (af_package aff) = sj_name subj"
    and eco: "pk_ecosystem (af_package aff) = ecosystem (sj_kind subj)"
    by (auto simp: advisory_simps)
  have entry: "withdrawal_entry read_time ?a aff (sj_kind subj) (Day (wd_fails_after w)) =
    Inr \<lparr>ae_subject = subj, ae_supersession = None, ae_withdrawal = Some (stored_withdrawal w)\<rparr>"
    using st read_show [of "wd_recorded_on w"] unfolding withdrawal_entry_def shape name
    by (cases subj; cases w) (auto simp: advisory_simps check_subject_def stored_withdrawal_def)
  show ?thesis
    unfolding read_entry_def aff
    using st ecosystem_kind_simps [OF k] entry read_show [of "wd_recorded_on w"]
    by (auto simp: advisory_simps eco parse_format_date)
qed

end

subsection \<open>Which advisories a folder can hold together\<close>

type_synonym 'f grouped = "('f store_error, (subject \<times> lifecycle) list) result"

definition live_supersession :: "(advisory \<Rightarrow> advisory_entry) \<Rightarrow> advisory \<Rightarrow> bool" where
  "live_supersession entry a \<longleftrightarrow> ae_supersession (entry a) \<noteq> None \<and> ad_withdrawn a = ''''"

definition states_withdrawal :: "(advisory \<Rightarrow> advisory_entry) \<Rightarrow> advisory \<Rightarrow> bool" where
  "states_withdrawal entry a \<longleftrightarrow> ae_supersession (entry a) = None"

definition supersession_in :: "(subject \<times> lifecycle) list \<Rightarrow> subject \<Rightarrow> supersession option" where
  "supersession_in m subj = Option.bind (map_of m subj) lc_supersession"

definition withdrawal_in :: "(subject \<times> lifecycle) list \<Rightarrow> subject \<Rightarrow> withdrawal option" where
  "withdrawal_in m subj = Option.bind (map_of m subj) lc_withdrawal"

lemma in_map_updates:
  fixes m :: "(subject \<times> lifecycle) list"
  defines "current subj \<equiv> (case map_of m subj of Some l \<Rightarrow> l | None \<Rightarrow> empty_lifecycle subj)"
  shows "supersession_in (AList.update subj (current subj) m) = supersession_in m"
    "withdrawal_in (AList.update subj (current subj) m) = withdrawal_in m"
    "supersession_in (AList.update subj (current subj\<lparr>lc_supersession := x\<rparr>) m) = (supersession_in m)(subj := x)"
    "withdrawal_in (AList.update subj (current subj\<lparr>lc_supersession := x\<rparr>) m) = withdrawal_in m"
    "supersession_in (AList.update subj (current subj\<lparr>lc_withdrawal := y\<rparr>) m) = supersession_in m"
    "withdrawal_in (AList.update subj (current subj\<lparr>lc_withdrawal := y\<rparr>) m) = (withdrawal_in m)(subj := y)"
    "lc_supersession (current subj) = supersession_in m subj"
    "lc_withdrawal (current subj) = withdrawal_in m subj"
  by (auto simp: supersession_in_def withdrawal_in_def current_def empty_lifecycle_def fun_eq_iff
      split: option.splits)

definition compatible ::
    "(advisory \<Rightarrow> advisory_entry) \<Rightarrow> advisory list \<Rightarrow> string set
      \<Rightarrow> (subject \<Rightarrow> supersession option) \<Rightarrow> (subject \<Rightarrow> withdrawal option) \<Rightarrow> bool" where
  "compatible entry as ids sups wds \<longleftrightarrow>
     distinct (map ad_id as) \<and> set (map ad_id as) \<inter> ids = {} \<and>
     distinct (map (\<lambda>a. ae_subject (entry a)) (filter (live_supersession entry) as)) \<and>
     (\<forall>a \<in> set (filter (live_supersession entry) as). sups (ae_subject (entry a)) = None) \<and>
     distinct (map (\<lambda>a. ae_subject (entry a)) (filter (states_withdrawal entry) as)) \<and>
     (\<forall>a \<in> set (filter (states_withdrawal entry) as). wds (ae_subject (entry a)) = None)"

definition well_read :: "(advisory \<Rightarrow> advisory_entry) \<Rightarrow> advisory \<Rightarrow> bool" where
  "well_read entry a \<longleftrightarrow> ae_supersession (entry a) = None \<longrightarrow> ae_withdrawal (entry a) \<noteq> None"

text \<open>What one advisory adds to the successors or withdrawals already taken.\<close>

lemma taken_step:
  fixes taken :: "'k \<Rightarrow> 'v option"
  assumes "P x \<Longrightarrow> v x \<noteq> None"
  shows "(distinct (map k (filter P (x # xs))) \<and> (\<forall>y \<in> set (filter P (x # xs)). taken (k y) = None)) \<longleftrightarrow>
    (P x \<longrightarrow> taken (k x) = None) \<and> distinct (map k (filter P xs)) \<and>
    (\<forall>y \<in> set (filter P xs). (if P x then taken(k x := v x) else taken) (k y) = None)"
proof (cases "P x")
  case True
  then obtain z where z: "v x = Some z" using assms by auto
  define ys where "ys = filter P xs"
  have "(\<forall>y \<in> set ys. (taken(k x := v x)) (k y) = None) \<longleftrightarrow>
      k x \<notin> k ` set ys \<and> (\<forall>y \<in> set ys. taken (k y) = None)"
  proof (induction ys)
    case (Cons y ys)
    then show ?case by (cases "k y = k x") (simp_all add: z conj_left_commute)
  qed simp
  moreover have "filter P (x # xs) = x # ys" using True by (simp add: ys_def)
  ultimately show ?thesis using True by (simp only: ys_def [symmetric] if_True list.map distinct.simps
        list.set ball_simps set_map) blast
next
  case False
  then show ?thesis by simp
qed

lemma compatible_step:
  fixes entry :: "advisory \<Rightarrow> advisory_entry"
  assumes "well_read entry a"
  shows "compatible entry (a # as) ids sups wds \<longleftrightarrow>
    ad_id a \<notin> ids \<and> (live_supersession entry a \<longrightarrow> sups (ae_subject (entry a)) = None) \<and>
    (states_withdrawal entry a \<longrightarrow> wds (ae_subject (entry a)) = None) \<and>
    compatible entry as (insert (ad_id a) ids)
      (if live_supersession entry a then sups(ae_subject (entry a) := ae_supersession (entry a)) else sups)
      (if states_withdrawal entry a then wds(ae_subject (entry a) := ae_withdrawal (entry a)) else wds)"
proof -
  have l: "live_supersession entry a \<Longrightarrow> ae_supersession (entry a) \<noteq> None"
    and w: "states_withdrawal entry a \<Longrightarrow> ae_withdrawal (entry a) \<noteq> None"
    using assms by (auto simp: live_supersession_def states_withdrawal_def well_read_def)
  have ids: "distinct (map ad_id (a # as)) \<and> set (map ad_id (a # as)) \<inter> ids = {} \<longleftrightarrow>
      ad_id a \<notin> ids \<and> distinct (map ad_id as) \<and> set (map ad_id as) \<inter> insert (ad_id a) ids = {}"
    by auto
  show ?thesis
    unfolding compatible_def
    using ids taken_step [where P = "live_supersession entry" and x = a
        and k = "\<lambda>a. ae_subject (entry a)" and v = "\<lambda>a. ae_supersession (entry a)" and taken = sups and xs = as, OF l]
      taken_step [where P = "states_withdrawal entry" and x = a
        and k = "\<lambda>a. ae_subject (entry a)" and v = "\<lambda>a. ae_withdrawal (entry a)" and taken = wds and xs = as, OF w]
    by argo
qed

lemma group_succeeds_iff:
  assumes "\<forall>a \<in> set as. well_read entry a"
  shows "(\<exists>m'. group_advisories entry as ids m = Inr m') \<longleftrightarrow>
    compatible entry as (set ids) (supersession_in m) (withdrawal_in m)"
  using assms
proof (induction as arbitrary: ids m)
  case Nil
  then show ?case by (simp add: compatible_def)
next
  case (Cons a as)
  have wr: "well_read entry a" "\<forall>a \<in> set as. well_read entry a" using Cons.prems by simp_all
  define c where "c = (case map_of m (ae_subject (entry a)) of Some l \<Rightarrow> l
           | None \<Rightarrow> empty_lifecycle (ae_subject (entry a)))"
  note upd = in_map_updates [where m = m and subj = "ae_subject (entry a)", folded c_def]
  note g = group_advisories.simps(2) [of entry a as ids m, unfolded Let_def, folded c_def]
  note step = compatible_step [OF wr(1), of as "set ids" "supersession_in m" "withdrawal_in m"]
  note IH = Cons.IH [OF wr(2), of "ad_id a # ids"]
  note defs = live_supersession_def states_withdrawal_def
  consider (seen) "ad_id a \<in> set ids"
    | (live) t where "ad_id a \<notin> set ids" "ae_supersession (entry a) = Some t" "ad_withdrawn a = ''''"
    | (retracted) t where "ad_id a \<notin> set ids" "ae_supersession (entry a) = Some t" "ad_withdrawn a \<noteq> ''''"
    | (wd) "ad_id a \<notin> set ids" "ae_supersession (entry a) = None"
    by (cases "ae_supersession (entry a)") auto
  then show ?case
  proof cases
    case seen
    then show ?thesis unfolding step g by simp
  next
    case live
    then show ?thesis
      unfolding step g by (cases "supersession_in m (ae_subject (entry a))") (simp_all add: IH upd defs fun_upd_def)
  next
    case retracted
    then show ?thesis unfolding step g by (simp add: IH upd defs fun_upd_def)
  next
    case wd
    then show ?thesis
      unfolding step g by (cases "withdrawal_in m (ae_subject (entry a))") (simp_all add: IH upd defs fun_upd_def)
  qed
qed

lemma group_step:
  fixes entry :: "advisory \<Rightarrow> advisory_entry" and m :: "(subject \<times> lifecycle) list"
  assumes "group_advisories entry (a # as) ids m =
    (Inr m' :: 'f grouped)"
  obtains l m1 where "group_advisories entry as (ad_id a # ids) m1 =
      (Inr m' :: 'f grouped)"
    and "m1 = AList.update (ae_subject (entry a)) l m"
    and "lc_subject l = lc_subject (case map_of m (ae_subject (entry a)) of Some l \<Rightarrow> l
           | None \<Rightarrow> empty_lifecycle (ae_subject (entry a)))"
    and "supersession_in m1 = (if live_supersession entry a
           then (supersession_in m)(ae_subject (entry a) := ae_supersession (entry a)) else supersession_in m)"
    and "withdrawal_in m1 = (if states_withdrawal entry a
           then (withdrawal_in m)(ae_subject (entry a) := ae_withdrawal (entry a)) else withdrawal_in m)"
    and "live_supersession entry a \<longrightarrow> supersession_in m (ae_subject (entry a)) = None"
    and "states_withdrawal entry a \<longrightarrow> withdrawal_in m (ae_subject (entry a)) = None"
proof -
  define c where "c = (case map_of m (ae_subject (entry a)) of Some l \<Rightarrow> l
           | None \<Rightarrow> empty_lifecycle (ae_subject (entry a)))"
  note upd = in_map_updates [where m = m and subj = "ae_subject (entry a)", folded c_def]
  have new: "ad_id a \<notin> set ids" using assms by (auto split: if_splits)
  note g = assms [unfolded group_advisories.simps Let_def, folded c_def]
  note defs = live_supersession_def states_withdrawal_def
  consider (live) t where "ae_supersession (entry a) = Some t" "ad_withdrawn a = ''''"
    | (retracted) t where "ae_supersession (entry a) = Some t" "ad_withdrawn a \<noteq> ''''"
    | (wd) "ae_supersession (entry a) = None"
    by (cases "ae_supersession (entry a)") auto
  then show thesis
  proof cases
    case live
    with g new show ?thesis
      by (intro that [of "AList.update (ae_subject (entry a)) (c\<lparr>lc_supersession := Some t\<rparr>) m" "c\<lparr>lc_supersession := Some t\<rparr>"])
        (simp_all add: c_def [symmetric] upd defs fun_upd_def split: option.splits)
  next
    case retracted
    with g new show ?thesis
      by (intro that [of "AList.update (ae_subject (entry a)) c m" c]) (simp_all add: c_def [symmetric] upd defs)
  next
    case wd
    with g new show ?thesis
      by (intro that [of "AList.update (ae_subject (entry a)) (c\<lparr>lc_withdrawal := ae_withdrawal (entry a)\<rparr>) m" "c\<lparr>lc_withdrawal := ae_withdrawal (entry a)\<rparr>"])
        (simp_all add: c_def [symmetric] upd defs fun_upd_def split: option.splits)
  qed
qed

definition states_successor where
  "states_successor entry a subj s \<longleftrightarrow>
     live_supersession entry a \<and> ae_subject (entry a) = subj \<and> ae_supersession (entry a) = Some s"

definition states_end where
  "states_end entry a subj w \<longleftrightarrow>
     states_withdrawal entry a \<and> ae_subject (entry a) = subj \<and> ae_withdrawal (entry a) = Some w"

lemma group_supersessions:
  assumes "group_advisories entry as ids m = (Inr m' :: 'f grouped)"
  shows "supersession_in m' subj = Some s \<longleftrightarrow>
    supersession_in m subj = Some s \<or> (\<exists>a \<in> set as. states_successor entry a subj s)"
  using assms
proof (induction as arbitrary: ids m)
  case (Cons a as)
  from Cons.prems obtain m1 where m1: "group_advisories entry as (ad_id a # ids) m1 = (Inr m' :: 'f grouped)"
    "supersession_in m1 = (if live_supersession entry a
       then (supersession_in m)(ae_subject (entry a) := ae_supersession (entry a)) else supersession_in m)"
    "live_supersession entry a \<longrightarrow> supersession_in m (ae_subject (entry a)) = None"
    by (rule group_step) blast
  from Cons.IH [OF m1(1)] m1(2,3) show ?case by (auto simp: states_successor_def)
qed simp

lemma group_withdrawals:
  assumes "group_advisories entry as ids m = (Inr m' :: 'f grouped)"
  shows "withdrawal_in m' subj = Some w \<longleftrightarrow>
    withdrawal_in m subj = Some w \<or> (\<exists>a \<in> set as. states_end entry a subj w)"
  using assms
proof (induction as arbitrary: ids m)
  case (Cons a as)
  from Cons.prems obtain m1 where m1: "group_advisories entry as (ad_id a # ids) m1 = (Inr m' :: 'f grouped)"
    "withdrawal_in m1 = (if states_withdrawal entry a
       then (withdrawal_in m)(ae_subject (entry a) := ae_withdrawal (entry a)) else withdrawal_in m)"
    "states_withdrawal entry a \<longrightarrow> withdrawal_in m (ae_subject (entry a)) = None"
    by (rule group_step) blast
  from Cons.IH [OF m1(1)] m1(2,3) show ?case by (auto simp: states_end_def)
qed simp

definition keyed :: "(subject \<times> lifecycle) list \<Rightarrow> bool" where
  "keyed m \<longleftrightarrow> distinct (map fst m) \<and> (\<forall>k l. map_of m k = Some l \<longrightarrow> lc_subject l = k)"

lemma group_keyed: "group_advisories entry as ids m = (Inr m' :: 'f grouped) \<Longrightarrow> keyed m \<Longrightarrow> keyed m'"
proof (induction as arbitrary: ids m)
  case (Cons a as)
  from Cons.prems(1) obtain l m1 where m1: "group_advisories entry as (ad_id a # ids) m1 = (Inr m' :: 'f grouped)"
    "m1 = AList.update (ae_subject (entry a)) l m"
    "lc_subject l = lc_subject (case map_of m (ae_subject (entry a)) of Some l \<Rightarrow> l
           | None \<Rightarrow> empty_lifecycle (ae_subject (entry a)))"
    by (rule group_step) blast
  have "keyed m1"
    using m1(2,3) Cons.prems(2)
    by (auto simp: keyed_def distinct_update empty_lifecycle_def split: option.splits if_splits)
  with m1(1) show ?case by (rule Cons.IH)
qed simp

subsection \<open>What a folder that reads without an error holds\<close>

definition good_file where
  "good_file decode read_time f name \<longleftrightarrow>
     df_regular f \<and> has_suffix name ''.json'' \<and>
     (\<exists>a. read_advisory decode read_time f = Inr a \<and> ad_id a @ ''.json'' = name)"

lemma read_files_Inr:
  "read_files decode read_time files names = Inr as \<longleftrightarrow>
     (\<forall>n \<in> set names. n \<noteq> ''README.md'' \<longrightarrow> good_file decode read_time (the (map_of files n)) n) \<and>
     as = map (\<lambda>n. projr (read_advisory decode read_time (the (map_of files n))))
            (filter (\<lambda>n. n \<noteq> ''README.md'') names)"
proof (induction names arbitrary: as)
  case Nil
  then show ?case by auto
next
  case (Cons n names)
  show ?case
  proof (cases "n = ''README.md''")
    case True
    with Cons show ?thesis by simp
  next
    case False
    then show ?thesis
      by (auto simp: Let_def Cons good_file_def go_errors split: sum.splits)
  qed
qed

lemma read_files_not_NoFolder: "read_files decode read_time files names \<noteq> Inl NoFolder"
  by (induction names) (auto simp: Let_def go_errors split: sum.splits)

lemma group_not_NoFolder: "group_advisories entry as ids m \<noteq> Inl NoFolder"
  by (induction as arbitrary: ids m) (auto simp: Let_def split: option.splits)

lemma store_all_NoFolder: "store_all decode read_time folder = Inl NoFolder \<longleftrightarrow> folder = Missing"
  by (auto simp: store_all_def read_store_def lifecycles_def go_errors read_files_not_NoFolder
      group_not_NoFolder split: folder.splits)

text \<open>The advisories of a folder; a folder that is not there holds none.\<close>

definition holds where
  "holds decode read_time folder as \<longleftrightarrow>
     (case folder of Missing \<Rightarrow> as = [] | _ \<Rightarrow> read_store decode read_time folder = Inr as)"

definition view :: "(advisory \<Rightarrow> advisory_entry) \<Rightarrow> advisory list \<Rightarrow> subject \<Rightarrow> lifecycle \<Rightarrow> bool" where
  "view entry as subj l \<longleftrightarrow> lc_subject l = subj \<and>
     (\<forall>s. lc_supersession l = Some s \<longleftrightarrow> (\<exists>a \<in> set as. states_successor entry a subj s)) \<and>
     (\<forall>w. lc_withdrawal l = Some w \<longleftrightarrow> (\<exists>a \<in> set as. states_end entry a subj w))"

lemma option_ext: "(\<And>v. x = Some v \<longleftrightarrow> y = Some v) \<Longrightarrow> x = y"
  by (cases x; cases y) auto

lemma view_unique: "view entry as subj l \<Longrightarrow> view entry as subj l' \<Longrightarrow> l = l'"
proof -
  assume v: "view entry as subj l" "view entry as subj l'"
  have "lc_supersession l = lc_supersession l'" by (rule option_ext) (use v in \<open>simp add: view_def\<close>)
  moreover have "lc_withdrawal l = lc_withdrawal l'" by (rule option_ext) (use v in \<open>simp add: view_def\<close>)
  ultimately show ?thesis using v by (simp add: view_def)
qed

lemma keyed_Cons:
  assumes "keyed ((k, l) # m)"
  shows "lc_subject l = k" and "keyed m"
proof -
  have d: "k \<notin> set (map fst m)" "distinct (map fst m)"
    and s: "\<And>x y. map_of ((k, l) # m) x = Some y \<Longrightarrow> lc_subject y = x"
    using assms unfolding keyed_def by simp_all
  show "lc_subject l = k" by (rule s) simp
  have "lc_subject y = x" if "map_of m x = Some y" for x y
  proof (rule s)
    have "x \<in> set (map fst m)" using that map_of_not_None_keys [of m x] by simp
    then have "x \<noteq> k" using d(1) by blast
    then show "map_of ((k, l) # m) x = Some y" using that by simp
  qed
  then show "keyed m" unfolding keyed_def using d(2) by blast
qed

lemma find_keyed: "keyed m \<Longrightarrow> find (\<lambda>l. lc_subject l = subj) (map snd m) = map_of m subj"
proof (induction m)
  case (Cons p m)
  obtain k l where p: "p = (k, l)" by (cases p)
  from keyed_Cons [OF Cons.prems [unfolded p]] Cons.IH show ?case by (simp add: p)
qed simp

definition looked_up :: "subject \<Rightarrow> lifecycle list \<Rightarrow> lifecycle" where
  "looked_up subj ls = (case find (\<lambda>l. lc_subject l = subj) ls of Some l \<Rightarrow> l | None \<Rightarrow> empty_lifecycle subj)"

lemma lifecycles_view:
  assumes "lifecycles read_time as = (Inr ls :: ('f store_error, lifecycle list) result)"
  shows "view (entry_of read_time) as subj (looked_up subj ls)"
proof -
  obtain m where m: "group_advisories (entry_of read_time) as [] [] = (Inr m :: 'f grouped)"
    and ls: "ls = map snd m"
    using assms by (auto simp: lifecycles_def go_errors)
  have k: "keyed m" using group_keyed [OF m] by (simp add: keyed_def)
  have l: "looked_up subj ls = (case map_of m subj of Some l \<Rightarrow> l | None \<Rightarrow> empty_lifecycle subj)"
    by (simp add: looked_up_def ls find_keyed [OF k])
  then have "lc_subject (looked_up subj ls) = subj"
    using k by (auto simp: keyed_def empty_lifecycle_def split: option.splits)
  moreover have "lc_supersession (looked_up subj ls) = supersession_in m subj"
    and "lc_withdrawal (looked_up subj ls) = withdrawal_in m subj"
    by (auto simp: l supersession_in_def withdrawal_in_def empty_lifecycle_def split: option.splits)
  ultimately show ?thesis
    using group_supersessions [OF m, of subj] group_withdrawals [OF m, of subj]
    by (simp add: view_def supersession_in_def withdrawal_in_def)
qed

text \<open>Reading a lifecycle succeeds exactly when the advisories are compatible, and gives what they
  state.\<close>

lemma store_get_Inr:
  "store_get decode read_time folder subj = Inr l \<longleftrightarrow>
     (\<exists>as ls. holds decode read_time folder as \<and>
        lifecycles read_time as = (Inr ls :: (record_fault store_error, lifecycle list) result) \<and>
        l = looked_up subj ls)"
proof (cases "folder = Missing")
  case True
  then show ?thesis
    by (auto simp: store_get_def store_all_def read_store_def holds_def lifecycles_def looked_up_def)
next
  case False
  then have h: "holds decode read_time folder as \<longleftrightarrow> read_store decode read_time folder = Inr as" for as
    by (cases folder) (simp_all add: holds_def)
  show ?thesis
  proof (cases "store_all decode read_time folder")
    case (Inl e)
    then have "e \<noteq> NoFolder" using False store_all_NoFolder by metis
    then have "store_get decode read_time folder subj = Inl e"
      using Inl by (cases e) (simp_all add: store_get_def)
    with Inl show ?thesis by (auto simp: h store_all_def go_errors)
  next
    case (Inr ls)
    then show ?thesis by (auto simp: store_get_def looked_up_def h store_all_def go_errors)
  qed
qed

lemma read_entry_well_read:
  assumes "read_entry read_time a = Inr e"
  shows "well_read (entry_of read_time) a"
proof -
  have "ae_supersession e = None \<longrightarrow> ae_withdrawal e \<noteq> None"
    using assms by (auto simp: read_entry_def supersession_entry_def withdrawal_entry_def Let_def go_errors
        split: if_splits option.splits list.splits)
  then show ?thesis using assms by (simp add: well_read_def entry_of_def)
qed

lemma read_advisory_entry:
  "read_advisory decode read_time f = Inr a \<Longrightarrow> \<exists>e. read_entry read_time a = Inr e"
  by (auto simp: read_advisory_def split: option.splits if_splits sum.splits)

lemma holds_well_read:
  assumes "holds decode read_time folder as"
  shows "\<forall>a \<in> set as. well_read (entry_of read_time) a"
proof
  fix a
  assume a: "a \<in> set as"
  then have "folder \<noteq> Missing" using assms by (auto simp: holds_def)
  with assms obtain files where "read_files decode read_time files (sorted_keys files) = Inr as"
    by (auto simp: holds_def read_store_def split: folder.splits)
  with a obtain n where "good_file decode read_time (the (map_of files n)) n"
    and "a = projr (read_advisory decode read_time (the (map_of files n)))"
    unfolding read_files_Inr by auto
  then have "read_advisory decode read_time (the (map_of files n)) = Inr a"
    by (auto simp: good_file_def)
  from read_advisory_entry [OF this] show "well_read (entry_of read_time) a"
    by (auto intro: read_entry_well_read)
qed

lemma lifecycles_iff:
  assumes "\<forall>a \<in> set as. well_read (entry_of read_time) a"
  shows "(\<exists>ls. lifecycles read_time as = (Inr ls :: ('f store_error, lifecycle list) result)) \<longleftrightarrow>
    compatible (entry_of read_time) as {} (\<lambda>_. None) (\<lambda>_. None)"
proof -
  have e: "supersession_in [] = (\<lambda>_. None)" "withdrawal_in [] = (\<lambda>_. None)"
    by (simp_all add: supersession_in_def withdrawal_in_def fun_eq_iff)
  have "(\<exists>ls. lifecycles read_time as = (Inr ls :: ('f store_error, lifecycle list) result)) \<longleftrightarrow>
    (\<exists>m. group_advisories (entry_of read_time) as [] [] = (Inr m :: 'f grouped))"
    by (auto simp: lifecycles_def go_errors)
  also have "\<dots> \<longleftrightarrow> compatible (entry_of read_time) as {} (\<lambda>_. None) (\<lambda>_. None)"
    using group_succeeds_iff [OF assms, of "[]" "[]"] by (simp add: e)
  finally show ?thesis .
qed

lemma compatible_perm:
  assumes "mset as = mset bs"
  shows "compatible entry as ids sups wds \<longleftrightarrow> compatible entry bs ids sups wds"
proof -
  have "set as = set bs" using assms by (rule mset_eq_setD)
  moreover have "distinct (map f (filter P as)) \<longleftrightarrow> distinct (map f (filter P bs))" for f :: "advisory \<Rightarrow> subject" and P
    using assms by (intro mset_eq_imp_distinct_iff) simp
  moreover have "distinct (map ad_id as) \<longleftrightarrow> distinct (map ad_id bs)"
    using assms by (intro mset_eq_imp_distinct_iff) simp
  ultimately show ?thesis unfolding compatible_def by simp
qed

text \<open>One file more, under a name the folder did not have.\<close>

lemma mset_insert_sorted:
  fixes xs ys :: "'k::linorder list"
  assumes "distinct xs" "distinct ys" "set ys = insert x (set xs)" "x \<notin> set xs"
  shows "mset ys = add_mset x (mset xs)"
proof -
  have "mset ys = mset (x # xs)" using assms by (subst set_eq_iff_mset_eq_distinct [symmetric]) auto
  then show ?thesis by simp
qed

lemma dom_sorted_keys: "set (sorted_keys m) = dom (map_of m)"
  by (rule sorted_keys_dom)

lemma holds_new_file:
  assumes old: "holds decode read_time folder as"
    and files': "map_of files' = (map_of (folder_files folder))(ad_id a @ ''.json'' \<mapsto> regular_file data)"
    and new: "map_of (folder_files folder) (ad_id a @ ''.json'') = None"
    and read: "read_advisory decode read_time (regular_file data) = Inr a"
  shows "\<exists>as'. holds decode read_time (Directory files') as' \<and> mset as' = add_mset a (mset as)"
proof -
  define name where "name = ad_id a @ ''.json''"
  define files where "files = folder_files folder"
  define adv where "adv fs n = projr (read_advisory decode read_time (the (map_of fs n)))"
    for fs :: "dir_file gomap" and n
  have no_readme: "name \<noteq> ''README.md''"
  proof
    assume "name = ''README.md''"
    then have "last name = CHR ''d''" by simp
    moreover have "last name = CHR ''n''" by (simp add: name_def)
    ultimately show False by simp
  qed
  have f': "map_of files' = (map_of files)(name \<mapsto> regular_file data)"
    using files' by (simp add: name_def files_def)
  have fresh: "name \<notin> set (sorted_keys files)"
    using new by (simp add: dom_sorted_keys name_def files_def domIff del: set_sorted_keys)
  have keys: "set (sorted_keys files') = insert name (set (sorted_keys files))"
    by (simp add: dom_sorted_keys f' del: set_sorted_keys)
  have mkeys: "mset (sorted_keys files') = add_mset name (mset (sorted_keys files))"
    using fresh keys by (intro mset_insert_sorted) simp_all
  have old': "read_files decode read_time files (sorted_keys files) = Inr as"
    using old by (cases folder) (auto simp: holds_def files_def folder_files_def read_store_def sorted_keys_def)
  have same: "map_of files' n = map_of files n" if "n \<in> set (sorted_keys files)" for n
    using that fresh by (auto simp: f')
  have good: "\<forall>n \<in> set (sorted_keys files'). n \<noteq> ''README.md'' \<longrightarrow>
      good_file decode read_time (the (map_of files' n)) n"
  proof (intro ballI impI)
    fix n
    assume n: "n \<in> set (sorted_keys files')" "n \<noteq> ''README.md''"
    show "good_file decode read_time (the (map_of files' n)) n"
    proof (cases "n = name")
      case True
      then show ?thesis using read 
        by (simp add: f' good_file_def regular_file_def name_def has_suffix_def suffix_def)
    next
      case False
      then have "n \<in> set (sorted_keys files)" using n(1) keys by simp
      then show ?thesis using old' n(2) same by (auto simp: read_files_Inr simp del: set_sorted_keys)
    qed
  qed
  define as' where "as' = map (adv files') (filter (\<lambda>n. n \<noteq> ''README.md'') (sorted_keys files'))"
  have "holds decode read_time (Directory files') as'"
    using good by (simp add: holds_def read_store_def read_files_Inr as'_def adv_def)
  moreover have "mset as' = add_mset a (mset as)"
  proof -
    have eq: "adv files' n = adv files n" if "n \<in> set (sorted_keys files)" for n
      using same [OF that] by (simp add: adv_def)
    have "mset as' = image_mset (adv files') (filter_mset (\<lambda>n. n \<noteq> ''README.md'') (mset (sorted_keys files')))"
      by (simp add: as'_def)
    also have "\<dots> = add_mset (adv files' name)
        (image_mset (adv files') (filter_mset (\<lambda>n. n \<noteq> ''README.md'') (mset (sorted_keys files))))"
      using no_readme by (simp add: mkeys)
    also have "image_mset (adv files') (filter_mset (\<lambda>n. n \<noteq> ''README.md'') (mset (sorted_keys files)))
        = image_mset (adv files) (filter_mset (\<lambda>n. n \<noteq> ''README.md'') (mset (sorted_keys files)))"
      using eq by (intro image_mset_cong) (auto simp del: set_sorted_keys)
    also have "\<dots> = mset as"
      using old' by (simp add: read_files_Inr adv_def [abs_def])
    also have "adv files' name = a" using read by (simp add: adv_def f')
    finally show ?thesis .
  qed
  ultimately show ?thesis by blast
qed

lemma holds_unique: "holds decode read_time folder as \<Longrightarrow> holds decode read_time folder bs \<Longrightarrow> as = bs"
  by (cases folder) (auto simp: holds_def)

lemma holds_ids_are_names:
  assumes "holds decode read_time folder as" and "map_of (folder_files folder) (i @ ''.json'') = None"
  shows "i \<notin> ad_id ` set as"
proof
  assume "i \<in> ad_id ` set as"
  then obtain a where a: "a \<in> set as" "ad_id a = i" by auto
  then have "folder \<noteq> Missing" using assms by (auto simp: holds_def)
  then obtain files where f: "folder = Directory files"
    and r: "read_files decode read_time files (sorted_keys files) = Inr as"
    using assms(1) by (auto simp: holds_def read_store_def split: folder.splits)
  from r a(1) obtain n where n: "n \<in> set (sorted_keys files)"
    "good_file decode read_time (the (map_of files n)) n"
    "a = projr (read_advisory decode read_time (the (map_of files n)))"
    unfolding read_files_Inr by auto
  then have "n = i @ ''.json''" using a(2) by (auto simp: good_file_def)
  then show False
    using n(1) assms(2) f by (auto simp: folder_files_def dom_sorted_keys simp del: set_sorted_keys)
qed

lemma store_add_ok:
  assumes "store_add encode fault temporary a folder = (None, folder')"
    and "map_of (folder_files folder) temporary = None" and "temporary \<noteq> ad_id a @ ''.json''"
  shows "map_of (folder_files folder) (ad_id a @ ''.json'') = None" and "folder' = Directory (folder_files folder')"
    and "map_of (folder_files folder') =
      (map_of (folder_files folder))(ad_id a @ ''.json'' \<mapsto> regular_file (encode a))"
  using assms
  by (auto simp: store_add_def Let_def add_states_def folder_files_def fun_eq_iff split: if_splits)

lemma supersede_facts:
  assumes "supersede l r i = Inr (l', ev)"
  shows "lc_subject l' = ds_subject ev" and "lc_supersession l' = Some (ds_supersession ev)"
    and "ds_subject ev = rq_superseded r" and "lc_supersession l = None"
    and "subject_check (rq_superseded r) = None"
    and "subject_check (sp_successor (ds_supersession ev)) = None"
    and "sj_kind (sp_successor (ds_supersession ev)) = sj_kind (rq_superseded r)"
    and "sp_recorded_on (ds_supersession ev) = rq_recorded_on r"
    and "trim_space (sp_summary (ds_supersession ev)) \<noteq> ''''"
    and "sp_advisory_id (ds_supersession ev) = i"
  using assms by (auto simp: supersede_Inr one_successor_None Let_def)

lemma store_supersede_ok:
  assumes "store_supersede c fault temporary folder r = (Inr ev, folder')"
  shows "\<exists>current l i. store_get (sc_decode c) (sc_read_time c) folder (rq_superseded r) = Inr current \<and>
    next_advisory_id (sc_decode c) (sc_read_time c) folder (rq_recorded_on r) = Inr i \<and>
    supersede current r i = Inr (l, ev) \<and>
    store_add (sc_encode c) fault temporary
      (supersession_advisory (sc_show_time c) (ds_subject ev) (ds_supersession ev)) folder = (None, folder')"
proof -
  obtain current where g: "store_get (sc_decode c) (sc_read_time c) folder (rq_superseded r) = Inr current"
    using assms by (auto simp: store_supersede_def split: sum.splits)
  obtain i where i: "next_advisory_id (sc_decode c) (sc_read_time c) folder (rq_recorded_on r) = Inr i"
    using assms g by (auto simp: store_supersede_def split: sum.splits)
  obtain l ev' where s: "supersede current r i = Inr (l, ev')"
    using assms g i by (auto simp: store_supersede_def split: sum.splits prod.splits)
  have "lc_subject l = ds_subject ev'" "the (lc_supersession l) = ds_supersession ev'"
    using supersede_facts [OF s] by simp_all
  then show ?thesis
    using assms g i s by (auto simp: store_supersede_def split: sum.splits prod.splits option.splits)
qed

text \<open>One compatible advisory more changes what the folder states about its own subject only.\<close>

lemma new_supersession_view:
  assumes h: "holds decode read_time folder as"
    and ls: "lifecycles read_time as = (Inr ls :: (record_fault store_error, lifecycle list) result)"
    and h': "holds decode read_time folder' as'" and ms: "mset as' = add_mset a (mset as)"
    and e: "entry_of read_time a =
      \<lparr>ae_subject = subj, ae_supersession = Some s, ae_withdrawal = None\<rparr>" and w: "ad_withdrawn a = ''''"
    and fresh: "ad_id a \<notin> ad_id ` set as" and none: "lc_supersession (looked_up subj ls) = None"
  shows "\<exists>ls'. lifecycles read_time as' = (Inr ls' :: (record_fault store_error, lifecycle list) result) \<and>
    looked_up subj ls' = (looked_up subj ls)\<lparr>lc_supersession := Some s\<rparr> \<and>
    (\<forall>other. other \<noteq> subj \<longrightarrow> looked_up other ls' = looked_up other ls)"
proof -
  let ?e = "entry_of read_time"
  have mem: "set as' = insert a (set as)" using ms by (metis set_mset_add_mset_insert set_mset_mset)
  have wr: "\<forall>x \<in> set as. well_read ?e x" "\<forall>x \<in> set as'. well_read ?e x"
    using h h' holds_well_read by blast+
  have new: "live_supersession ?e a" "\<not> states_withdrawal ?e a" "ae_subject (?e a) = subj"
    by (simp_all add: live_supersession_def states_withdrawal_def e w)
  note v = lifecycles_view [OF ls]
  have "\<not> states_successor ?e x subj t" if "x \<in> set as" for x t
    using v [of subj] none that by (auto simp: view_def)
  then have free: "live_supersession ?e x \<Longrightarrow> x \<in> set as \<Longrightarrow> ae_subject (?e x) \<noteq> subj" for x
    unfolding states_successor_def live_supersession_def by blast
  have "compatible ?e as {} (\<lambda>_. None) (\<lambda>_. None)" using lifecycles_iff [OF wr(1)] ls by blast
  then have "compatible ?e (a # as) {} (\<lambda>_. None) (\<lambda>_. None)"
    using new fresh free by (simp add: compatible_def) blast
  then have "compatible ?e as' {} (\<lambda>_. None) (\<lambda>_. None)"
    using compatible_perm [of as' "a # as"] ms by simp
  then obtain ls' where ls': "lifecycles read_time as' = (Inr ls' :: (record_fault store_error, lifecycle list) result)"
    using lifecycles_iff [OF wr(2)] by blast
  note v' = lifecycles_view [OF ls']
  have sup: "states_successor ?e a other t \<longleftrightarrow> other = subj \<and> t = s" for other t
    using new by (auto simp: states_successor_def e)
  have wd: "\<not> states_end ?e a other t" for other t
    using new by (auto simp: states_end_def)
  have "looked_up subj ls' = (looked_up subj ls)\<lparr>lc_supersession := Some s\<rparr>"
  proof (rule view_unique [OF v'])
    show "view ?e as' subj ((looked_up subj ls)\<lparr>lc_supersession := Some s\<rparr>)"
      using v [of subj] none by (auto simp: view_def mem sup wd)
  qed
  moreover have "looked_up other ls' = looked_up other ls" if "other \<noteq> subj" for other
  proof (rule view_unique [OF v'])
    show "view ?e as' other (looked_up other ls)"
      using v [of other] that by (auto simp: view_def mem sup wd)
  qed
  ultimately show ?thesis using ls' by blast
qed


subsection \<open>The next advisory id\<close>

lemma highest_number_ge: "highest \<le> highest_number year as highest"
proof (induction as arbitrary: highest)
  case (Cons a as)
  define h where "h = (case match_advisory_id (ad_id a) of None \<Rightarrow> highest
     | Some (y, n) \<Rightarrow> if y \<noteq> year then highest
          else (case atoi_digits n of Some number \<Rightarrow> if number > highest then number else highest
            | None \<Rightarrow> highest))"
  have "highest \<le> h" by (auto simp: h_def split: option.splits)
  also have "h \<le> highest_number year as h" by (rule Cons.IH)
  finally show ?case by (simp add: h_def)
qed simp

lemma highest_number_bound:
  assumes "a \<in> set as" "match_advisory_id (ad_id a) = Some (year, n)" "atoi_digits n = Some k"
  shows "k \<le> highest_number year as highest"
  using assms(1)
proof (induction as arbitrary: highest)
  case (Cons b as)
  show ?case
  proof (cases "b = a")
    case True
    have "k \<le> highest_number year as (if k > highest then k else highest)"
      using highest_number_ge [of "if k > highest then k else highest" year as] by (auto split: if_splits)
    then show ?thesis using assms(2,3) True by simp
  next
    case False
    with Cons show ?thesis by simp
  qed
qed simp

lemma highest_number_range:
  "0 \<le> highest \<Longrightarrow> highest \<le> max_int \<Longrightarrow>
    0 \<le> highest_number year as highest \<and> highest_number year as highest \<le> max_int"
  by (induction as arbitrary: highest) (auto simp: atoi_digits_def split: option.splits prod.splits)

lemma read_nat_less: "list_all is_digit s \<Longrightarrow> read_nat s < 10 ^ length s"
proof (induction s rule: rev_induct)
  case Nil
  then show ?case by (simp add: read_nat_def)
next
  case (snoc c s)
  then have "is_digit c" by simp
  then have "digit_value c \<le> 9" unfolding is_digit_def digit_value_def by linarith
  moreover have "read_nat s < 10 ^ length s" using snoc by simp
  ultimately show ?case by (simp add: read_nat_append)
qed

lemma show_nat_long: "1000 \<le> n \<Longrightarrow> 4 \<le> length (show_nat n)"
proof (rule ccontr)
  assume n: "1000 \<le> n" and "\<not> 4 \<le> length (show_nat n)"
  then have l: "length (show_nat n) \<le> 3" by simp
  have "read_nat (show_nat n) < 10 ^ length (show_nat n)"
    by (rule read_nat_less) (simp add: list_all_iff)
  also have "(10::nat) ^ length (show_nat n) \<le> 10 ^ 3" using l by (rule power_increasing) simp
  finally show False using n by simp
qed

lemma sprintf_itoa: "1000 \<le> n \<Longrightarrow> sprintf_04d n = itoa n"
  using show_nat_long [of "nat n"] by (simp add: sprintf_04d_def itoa_def pad_zero_def)

lemma match_next_id:
  assumes "0 \<le> y" "y \<le> 9999" "0 \<le> k"
  shows "match_advisory_id (''STEGO-'' @ sprintf_04d y @ ''-'' @ sprintf_04d k) = Some (sprintf_04d y, sprintf_04d k)"
proof -
  have y: "length (sprintf_04d y) = 4" "list_all is_digit (sprintf_04d y)"
    using assms by (auto simp: sprintf_04d_def list_all_iff intro: padded_length padded_digits)
  have k: "4 \<le> length (sprintf_04d k)" "list_all is_digit (sprintf_04d k)"
    using assms by (auto simp: sprintf_04d_def list_all_iff length_pad_zero intro: padded_digits)
  have "drop 6 (''STEGO-'' @ r) = r" for r :: string by simp
  then show ?thesis
    using y k by (simp add: match_advisory_id_def has_prefix_def Let_def)
qed

lemma wrap64_small: "0 \<le> x \<Longrightarrow> x \<le> max_int \<Longrightarrow> wrap64 x = x"
  by (simp add: wrap64_def max_int_def)

lemma read_sprintf: "0 \<le> k \<Longrightarrow> int (read_nat (sprintf_04d k)) = k"
  by (simp add: sprintf_04d_def)

text \<open>C25. In a year of four digits and below the largest 64 bit number, the id the store gives a new
  record is an advisory id that no record of the folder has, so its file name is free and the record
  cannot replace another.\<close>

theorem next_id_is_fresh:
  assumes ident: "next_advisory_id decode read_time folder t = Inr i"
    and h: "holds decode read_time folder as"
    and year: "1000 \<le> year_of (day_of t)" "year_of (day_of t) \<le> 9999"
    and room: "highest_number (itoa (year_of (day_of t))) as 0 < max_int"
  shows "match_advisory_id i \<noteq> None \<and> i \<notin> ad_id ` set as \<and>
    map_of (folder_files folder) (i @ ''.json'') = None"
proof -
  let ?y = "year_of (day_of t)"
  define top where "top = highest_number (itoa ?y) as 0"
  have "0 \<le> top \<and> top \<le> max_int"
    unfolding top_def by (rule highest_number_range) (simp_all add: max_int_def)
  then have top: "0 \<le> top + 1" "top + 1 \<le> max_int" using room by (simp_all add: top_def)
  have i: "i = ''STEGO-'' @ sprintf_04d ?y @ ''-'' @ sprintf_04d (top + 1)"
    using ident h top(1,2)
    by (cases folder) (auto simp: next_advisory_id_def holds_def top_def Let_def read_store_def wrap64_small)
  have m: "match_advisory_id i = Some (itoa ?y, sprintf_04d (top + 1))"
    using match_next_id [of ?y "top + 1"] top year by (simp add: i sprintf_itoa)
  have new: "i \<notin> ad_id ` set as"
  proof
    assume "i \<in> ad_id ` set as"
    then obtain a where a: "a \<in> set as" "ad_id a = i" by auto
    have at: "atoi_digits (sprintf_04d (top + 1)) = Some (top + 1)"
      using top by (simp add: atoi_digits_def read_sprintf)
    have "top + 1 \<le> highest_number (itoa ?y) as 0"
      by (rule highest_number_bound [OF a(1) _ at]) (simp add: a(2) m)
    then show False by (simp add: top_def)
  qed
  have "map_of (folder_files folder) (i @ ''.json'') = None"
  proof (rule ccontr)
    assume s: "map_of (folder_files folder) (i @ ''.json'') \<noteq> None"
    then obtain files where f: "folder = Directory files"
      by (auto simp: folder_files_def split: folder.splits)
    then have r: "read_files decode read_time files (sorted_keys files) = Inr as"
      using h by (simp add: holds_def read_store_def)
    have n: "i @ ''.json'' \<in> set (sorted_keys files)"
      using s f by (auto simp: folder_files_def dom_sorted_keys simp del: set_sorted_keys)
    have nr: "i @ ''.json'' \<noteq> ''README.md''"
    proof
      assume "i @ ''.json'' = ''README.md''"
      then have "last (i @ ''.json'') = CHR ''d''" by simp
      then show False by simp
    qed
    let ?a = "projr (read_advisory decode read_time (the (map_of files (i @ ''.json''))))"
    have "good_file decode read_time (the (map_of files (i @ ''.json''))) (i @ ''.json'')" and "?a \<in> set as"
      using r n nr unfolding read_files_Inr by auto
    then have "?a \<in> set as" "ad_id ?a = i" by (auto simp: good_file_def)
    then show False using new by (metis imageI)
  qed
  then show ?thesis using m new by simp
qed

subsection \<open>Stopping in the middle of an add\<close>

lemma read_files_bad:
  assumes "\<forall>n \<in> set pre. n \<noteq> ''README.md'' \<longrightarrow> good_file decode read_time (the (map_of files n)) n"
    and "\<not> has_suffix bad ''.json''" "bad \<noteq> ''README.md''"
  shows "read_files decode read_time files (pre @ bad # post) = Inl (NotAnAdvisoryFile bad)"
  using assms(1)
proof (induction pre)
  case Nil
  then show ?case using assms(2,3) by simp
next
  case (Cons n pre)
  then show ?case by (cases "n = ''README.md''") (auto simp: Let_def good_file_def)
qed

lemma sorted_split:
  fixes xs :: "'k::linorder list"
  assumes "sorted xs" "distinct xs" "x \<in> set xs"
  obtains pre post where "xs = pre @ x # post" "\<forall>n \<in> set pre. n < x"
proof -
  obtain pre post where xs: "xs = pre @ x # post" using assms(3) by (meson split_list)
  then have "\<forall>n \<in> set pre. n < x" using assms(1,2) by (auto simp: sorted_append less_le)
  with xs show thesis by (rule that)
qed

text \<open>C26. While a record is being added, and for good if the process is stopped between making the
  temporary file and removing it, the folder does not read: every pin of every service is
  unchecked, none is reported current.\<close>

theorem stopped_add_blocks_the_folder:
  assumes h: "holds (sc_decode c) (sc_read_time c) folder as"
    and tmp: "has_prefix temporary ''.advisory-''" "\<not> has_suffix temporary ''.json''"
      "map_of (folder_files folder) temporary = None"
    and idm: "match_advisory_id (ad_id a) \<noteq> None"
    and k: "state = add_states (sc_encode c) temporary a folder ! 1 \<or>
      state = add_states (sc_encode c) temporary a folder ! 2"
  shows "store_all (sc_decode c) (sc_read_time c) state = Inl (NotAnAdvisoryFile temporary) \<and>
    (\<forall>p \<in> set (read_standing c state pins day). ps_unchecked p \<and> \<not> pin_current p)"
proof -
  define files where "files = folder_files folder"
  define name where "name = ad_id a @ ''.json''"
  obtain new where state: "state = Directory new"
    and new: "map_of new = (map_of files)(temporary \<mapsto> regular_file (sc_encode c a)) \<or>
      map_of new = (map_of files)(temporary \<mapsto> regular_file (sc_encode c a), name \<mapsto> regular_file (sc_encode c a))"
    using k by (auto simp: add_states_def Let_def files_def name_def)
  have old: "read_files (sc_decode c) (sc_read_time c) files (sorted_keys files) = Inr as"
    using h by (cases folder) (auto simp: holds_def files_def folder_files_def read_store_def sorted_keys_def)
  have dot: "\<exists>r. temporary = CHR ''.'' # r" using tmp(1) by (auto simp: has_prefix_def prefix_def)
  then have readme: "temporary \<noteq> ''README.md''" by auto
  have "\<exists>r. name = CHR ''S'' # r"
    using idm by (auto simp: name_def match_advisory_id_def has_prefix_def prefix_def split: if_splits)
  then have late: "temporary < name" using dot by (auto simp: less_char_def)
  then have "map_of new temporary \<noteq> None" using new by auto
  then have "temporary \<in> set (sorted_keys new)"
    by (auto simp: dom_sorted_keys simp del: set_sorted_keys)
  then obtain pre post where sp: "sorted_keys new = pre @ temporary # post" "\<forall>n \<in> set pre. n < temporary"
    by (rule sorted_split [OF sorted_sorted_keys distinct_sorted_keys])
  have "good_file (sc_decode c) (sc_read_time c) (the (map_of new n)) n"
    if n: "n \<in> set pre" "n \<noteq> ''README.md''" for n
  proof -
    have "n < temporary" using n sp(2) by blast
    with late have ne: "n \<noteq> temporary" "n \<noteq> name" by auto
    then have eq: "map_of new n = map_of files n" using new by auto
    have "n \<in> set (sorted_keys new)" using n sp(1) by simp
    then have "n \<in> set (sorted_keys files)" using eq by (simp add: dom_sorted_keys domIff del: set_sorted_keys)
    with old n(2) show ?thesis unfolding eq by (auto simp: read_files_Inr simp del: set_sorted_keys)
  qed
  then have "read_files (sc_decode c) (sc_read_time c) new (sorted_keys new) = Inl (NotAnAdvisoryFile temporary)"
    unfolding sp(1) by (intro read_files_bad) (use tmp readme in auto)
  then have all: "store_all (sc_decode c) (sc_read_time c) state = Inl (NotAnAdvisoryFile temporary)"
    by (simp add: store_all_def read_store_def state)
  then show ?thesis
    by (auto simp: read_standing_def pin_standing_def project_standing_def pin_state_of_def pin_current_def Let_def)
qed

subsection \<open>The records and the folder\<close>

text \<open>A record that the store writes is the record it reads: the advisory of a supersession or of
  a withdrawal gives the same subject and the same facts, with the fail date as a day and the time
  of recording to the second.\<close>

lemma advisory_reads_back:
  assumes "storable_supersession subj s" and "storable_withdrawal subj' w"
  shows "read_entry read_utc (supersession_advisory utc_text subj s) =
      Inr \<lparr>ae_subject = subj, ae_supersession = Some (stored_supersession s), ae_withdrawal = None\<rparr> \<and>
    read_entry read_utc (withdrawal_advisory utc_text subj' w) =
      Inr \<lparr>ae_subject = subj', ae_supersession = None, ae_withdrawal = Some (stored_withdrawal w)\<rparr>"
  using utc.supersession_roundtrip [OF assms(1)] utc.withdrawal_roundtrip [OF assms(2)] by simp

text \<open>C24. The lifecycles of a folder can be read exactly when no two advisories have one id, no digest
  has two successors that are not retracted and no digest is withdrawn twice; then a digest is
  superseded or withdrawn exactly as some advisory states.\<close>

theorem folder_reads_iff_compatible:
  assumes "read_store decode read_time folder = Inr as"
  shows "((\<exists>ls. store_all decode read_time folder = Inr ls) \<longleftrightarrow>
      distinct (map ad_id as) \<and>
      distinct (map (\<lambda>a. ae_subject (entry_of read_time a)) (filter (live_supersession (entry_of read_time)) as)) \<and>
      distinct (map (\<lambda>a. ae_subject (entry_of read_time a)) (filter (states_withdrawal (entry_of read_time)) as))) \<and>
    (\<forall>subj l. store_get decode read_time folder subj = Inr l \<longrightarrow> view (entry_of read_time) as subj l)"
proof -
  have h: "holds decode read_time folder as"
    using assms by (cases folder) (auto simp: holds_def read_store_def)
  have "(\<exists>ls. store_all decode read_time folder = Inr ls) \<longleftrightarrow>
      (\<exists>ls. lifecycles read_time as = (Inr ls :: (record_fault store_error, lifecycle list) result))"
    using assms by (simp add: store_all_def)
  moreover have "view (entry_of read_time) as subj l" if "store_get decode read_time folder subj = Inr l" for subj l
    using that lifecycles_view holds_unique [OF h] by (auto simp: store_get_Inr)
  ultimately show ?thesis
    unfolding lifecycles_iff [OF holds_well_read [OF h]] compatible_def by simp
qed

subsection \<open>Examples\<close>

definition sample_event :: digest_superseded where
  "sample_event =
     snd (projr (supersede (empty_lifecycle (sample_subject CHR ''a'')) sample_supersede ''STEGO-2026-0001''))"

definition sample_advisory :: advisory where
  "sample_advisory = supersession_advisory utc_text (ds_subject sample_event) (ds_supersession sample_event)"

definition sample_codec :: store_codec where
  "sample_codec =
     \<lparr>sc_decode = (\<lambda>s. if s = ''{}'' then Some sample_advisory else None), sc_encode = (\<lambda>a. ''{}''),
      sc_read_time = read_utc, sc_show_time = utc_text\<rparr>"

lemma sample_event_ok:
  "\<exists>l. supersede (empty_lifecycle (sample_subject CHR ''a'')) sample_supersede ''STEGO-2026-0001'' = Inr (l, sample_event)"
  using sample_supersede_ok by (auto simp: sample_event_def)

lemma sample_storable: "storable_supersession (sample_subject CHR ''a'') (ds_supersession sample_event)"
  by code_simp

definition sample_withdrawal :: withdrawal where
  "sample_withdrawal = \<lparr>wd_fails_after = time_of_day (day_number 2026 10 1), wd_reason = ''leaks'',
     wd_recorded_on = time_of_day (day_number 2026 9 1), wd_advisory_id = ''STEGO-2026-0002'', wd_references = []\<rparr>"

theorem advisory_reads_back_witness:
  "\<exists>e. read_entry read_utc sample_advisory = Inr e \<and> ae_subject e = sample_subject CHR ''a''"
proof -
  have "storable_withdrawal (sample_subject CHR ''c'') sample_withdrawal" by code_simp
  note r = advisory_reads_back [OF sample_storable this]
  obtain l where "supersede (empty_lifecycle (sample_subject CHR ''a'')) sample_supersede ''STEGO-2026-0001''
      = Inr (l, sample_event)" using sample_event_ok by blast
  then have "ds_subject sample_event = sample_subject CHR ''a''"
    using supersede_facts(3) by (fastforce simp: sample_supersede_def)
  with r show ?thesis by (simp add: sample_advisory_def)
qed

theorem folder_reads_iff_compatible_witness:
  "\<exists>ls. store_all (\<lambda>_. None) read_utc (Directory []) = Inr ls"
proof -
  have "read_store (\<lambda>_. None) read_utc (Directory []) = Inr []"
    by (simp add: read_store_def sorted_keys_def)
  from folder_reads_iff_compatible [OF this] show ?thesis by simp
qed

lemma sample_run:
  "\<exists>folder'. store_supersede sample_codec None ''.advisory-1'' Missing sample_supersede = (Inr sample_event, folder')"
proof -
  have "next_advisory_id (sc_decode sample_codec) (sc_read_time sample_codec) Missing (rq_recorded_on sample_supersede)
      = Inr ''STEGO-2026-0001''"
    by code_simp
  moreover have "store_get (sc_decode sample_codec) (sc_read_time sample_codec) Missing (rq_superseded sample_supersede)
      = Inr (empty_lifecycle (sample_subject CHR ''a''))"
    by (simp add: store_get_def store_all_def read_store_def sample_supersede_def)
  ultimately show ?thesis
    using sample_event_ok by (auto simp: store_supersede_def store_add_def folder_files_def)
qed

lemma sample_codec_facts:
  "sc_show_time sample_codec = utc_text" "sc_read_time sample_codec = read_utc"
  "sc_decode sample_codec (sc_encode sample_codec sample_advisory) = Some sample_advisory"
  "length (sc_encode sample_codec sample_advisory) \<le> max_advisory_bytes"
  by (simp_all add: sample_codec_def max_advisory_bytes_def)

lemma sample_years:
  "four_digit_year (rq_recorded_on sample_supersede)"
  "four_digit_year (sp_fails_after (ds_supersession sample_event))"
  by code_simp+

lemma sample_advisory_id: "ad_id sample_advisory = ''STEGO-2026-0001''"
proof -
  obtain l where "supersede (empty_lifecycle (sample_subject CHR ''a'')) sample_supersede ''STEGO-2026-0001''
      = Inr (l, sample_event)" using sample_event_ok by blast
  then have "sp_advisory_id (ds_supersession sample_event) = ''STEGO-2026-0001''" by (rule supersede_facts(10))
  then show ?thesis by (simp add: sample_advisory_def advisory_simps)
qed

lemma sample_ids:
  "match_advisory_id (ad_id sample_advisory) \<noteq> None"
  "''.advisory-1'' \<noteq> ad_id sample_advisory @ ''.json''"
  unfolding sample_advisory_id by code_simp+

lemma sample_superseded: "rq_superseded sample_supersede = sample_subject CHR ''a''"
  by (simp add: sample_supersede_def)


theorem next_id_is_fresh_witness:
  "map_of (folder_files Missing) (''STEGO-2026-0001'' @ ''.json'') = None"
proof -
  have "next_advisory_id (\<lambda>_. None) read_utc Missing (rq_recorded_on sample_supersede) = Inr ''STEGO-2026-0001''"
    by code_simp
  moreover have "holds (\<lambda>_. None) read_utc Missing []" by (simp add: holds_def)
  moreover have "1000 \<le> year_of (day_of (rq_recorded_on sample_supersede))"
    "year_of (day_of (rq_recorded_on sample_supersede)) \<le> 9999"
    by code_simp+
  ultimately show ?thesis
    using next_id_is_fresh [of "\<lambda>_. None" read_utc Missing "rq_recorded_on sample_supersede" "''STEGO-2026-0001''" "[]"]
    by (simp add: max_int_def)
qed

theorem stopped_add_blocks_the_folder_witness:
  "store_all (sc_decode sample_codec) (sc_read_time sample_codec)
     (add_states (sc_encode sample_codec) ''.advisory-1'' sample_advisory Missing ! 2) = Inl (NotAnAdvisoryFile ''.advisory-1'')"
proof -
  have "holds (sc_decode sample_codec) (sc_read_time sample_codec) Missing []" by (simp add: holds_def)
  moreover have "has_prefix ''.advisory-1'' ''.advisory-''" "\<not> has_suffix ''.advisory-1'' ''.json''"
    "map_of (folder_files Missing) ''.advisory-1'' = None"
    by code_simp+
  moreover note sample_ids(1)
  ultimately show ?thesis
    using stopped_add_blocks_the_folder [of sample_codec Missing "[]" "''.advisory-1''" sample_advisory _ "[]" 0] by blast
qed

end
