(* ===== verification/Output_Paths.thy ===== *)
theory Output_Paths
  imports Go_Strings
begin

text \<open>
  Where generated files may go: \<open>internal/gen/gen.go\<close> (path and namespace checks),
  \<open>internal/compiler/filesystem.go\<close> (the output directory), \<open>internal/compiler/namespace.go\<close>
  (file layout) and the uniqueness check of \<open>internal/compiler/reconciler.go\<close>.

  \<open>strings.ToLower\<close> follows Unicode's tables, so the layout checks take the folding as an
  argument \<open>lower\<close>. The locale \<open>case_folding\<close> states the two facts of it that they rest on,
  and is interpreted on the folding of ASCII letters.
\<close>

subsection \<open>One canonical path\<close>

datatype path_error = BadPath string

definition reserved_part :: "string \<Rightarrow> bool" where
  "reserved_part part \<longleftrightarrow>
     has_suffix part ''.'' \<or> has_suffix part '' '' \<or>
     (let base = map ascii_upper (takeWhile (\<lambda>c. c \<noteq> CHR ''.'') part) in
        base = ''CON'' \<or> base = ''PRN'' \<or> base = ''AUX'' \<or> base = ''NUL'' \<or>
        (length base = 4 \<and> (has_prefix base ''COM'' \<or> has_prefix base ''LPT'') \<and>
         (let d = (of_char (base ! 3) :: nat) in 49 \<le> d \<and> d \<le> 57)))"

definition forbidden_char :: "char \<Rightarrow> bool" where
  "forbidden_char c \<longleftrightarrow>
     c \<in> {CHR 0x5C, CHR '':'', CHR ''<'', CHR ''>'', CHR 0x22, CHR ''|'', CHR ''?'', CHR ''*''}"

definition control_char :: "char \<Rightarrow> bool" where
  "control_char c \<longleftrightarrow> (of_char c :: nat) < 32 \<or> (of_char c :: nat) = 127"

definition validate_path :: "string \<Rightarrow> path_error option" where
  "validate_path name =
     (if name = ''.'' \<or> \<not> fs_valid_path name \<or> list_ex forbidden_char name
         \<or> \<not> path_is_local name \<or> list_ex control_char name
         \<or> list_ex reserved_part (split_on slash name)
      then Some (BadPath name) else None)"

abbreviation valid_path :: "string \<Rightarrow> bool" where
  "valid_path name \<equiv> validate_path name = None"

lemma valid_path_plain: "valid_path p \<Longrightarrow> list_all plain_part (split_on slash p)"
  by (auto simp: validate_path_def fs_valid_path_def plain_part_def list_all_iff split: if_splits)

lemma valid_path_clean [simp]: "valid_path p \<Longrightarrow> path_clean p = p"
  by (rule path_clean_plain [OF valid_path_plain])

lemma valid_path_nonempty: "valid_path p \<Longrightarrow> p \<noteq> '''' \<and> hd p \<noteq> slash"
  by (rule plain_parts_head [OF valid_path_plain])

lemma valid_path_join: "valid_path a \<Longrightarrow> valid_path b \<Longrightarrow> path_join [a, b] = a @ slash # b"
  by (intro path_join_plain valid_path_plain)

text \<open>No part of an accepted path is a parent step, so it cannot leave the directory it is
  joined to.\<close>

lemma valid_path_no_traversal: "valid_path p \<Longrightarrow> q \<in> set (split_on slash p) \<Longrightarrow> q \<noteq> ''..''"
  by (auto dest!: valid_path_plain simp: list_all_iff plain_part_def)

subsection \<open>Generated files and output namespaces\<close>

record gen_file =
  gf_path :: string
  gf_content :: string

definition gen_header :: string where
  "gen_header = ''// Code generated by stego. DO NOT EDIT.''"

definition file_bytes :: "gen_file \<Rightarrow> string" where
  "file_bytes f =
     (if path_ext (gf_path f) = ''.go''
      then gen_header @ [CHR 0x0A, CHR 0x0A] @ gf_content f
      else gf_content f)"

datatype namespace_error =
    InvalidNamespace path_error
  | OutsideNamespace string "string list"

definition outside_namespace :: "string \<Rightarrow> gen_file \<Rightarrow> bool" where
  "outside_namespace ns f \<longleftrightarrow>
     \<not> valid_path (gf_path f) \<or> (gf_path f \<noteq> ns \<and> \<not> has_prefix (gf_path f) (ns @ [slash]))"

definition validate_namespace :: "string \<Rightarrow> gen_file list \<Rightarrow> namespace_error option" where
  "validate_namespace ns files =
     (case validate_path ns of
        Some e \<Rightarrow> Some (InvalidNamespace e)
      | None \<Rightarrow>
        (let violations = map gf_path (filter (outside_namespace ns) files)
         in if violations \<noteq> [] then Some (OutsideNamespace ns violations) else None))"

datatype generator_error =
    NoNamespace string nat
  | BadNamespace string namespace_error

text \<open>A component without a declared namespace has the empty \<open>OutputNamespace\<close>.\<close>

definition validate_generator_namespace ::
    "string \<Rightarrow> string \<Rightarrow> gen_file list \<Rightarrow> generator_error option" where
  "validate_generator_namespace name ns files =
     (if files = [] then None
      else if ns = '''' then Some (NoNamespace name (length files))
      else map_option (BadNamespace name) (validate_namespace ns files))"

subsection \<open>The output directory\<close>

datatype out_dir_error = NotSubdirectory | ReservedDirectory string

definition output_relative ::
    "(string \<Rightarrow> string) \<Rightarrow> string \<Rightarrow> string \<Rightarrow> (out_dir_error, string) result" where
  "output_relative lower project_dir out_dir =
     (case path_rel project_dir out_dir of
        None \<Rightarrow> Inl NotSubdirectory
      | Some relative \<Rightarrow>
        if \<not> valid_path relative then Inl NotSubdirectory
        else let first = hd (split_on slash relative) in
          if lower first \<in> set [''fills'', ''.stego'', ''.git'', ''go.mod'', ''go.sum'', ''service.yaml'']
          then Inl (ReservedDirectory first)
          else Inr relative)"

definition is_project_root_file :: "string \<Rightarrow> bool" where
  "is_project_root_file p \<longleftrightarrow> p = ''go.mod'' \<or> p = ''go.sum''"

definition project_file_path :: "string \<Rightarrow> string \<Rightarrow> string" where
  "project_file_path out_dir name =
     (if is_project_root_file name then name else path_join [out_dir, name])"

end
