(* ===== verification/File_Layout.thy ===== *)
theory File_Layout
  imports Output_Paths
begin

text \<open>
  \<open>internal/compiler/namespace.go\<close>: namespaces of components do not overlap, and the set of
  output files has a layout that every supported file system can hold. Also the uniqueness
  check \<open>validateUniqueFilePaths\<close> of \<open>reconciler.go\<close>, which ends in the layout check.
\<close>

subsection \<open>Case folding\<close>

text \<open>What the checks rely on in \<open>strings.ToLower\<close>: it works on each part of a path by itself,
  and does not turn a part into an empty one or a dot part.\<close>

locale case_folding =
  fixes lower :: "string \<Rightarrow> string"
  assumes lower_split: "split_on slash (lower s) = map lower (split_on slash s)"
    and lower_plain: "plain_part p \<Longrightarrow> plain_part (lower p)"
begin

lemma lower_append_slash: "lower (a @ slash # b) = lower a @ slash # lower b"
proof -
  have "split_on slash (lower (a @ slash # b)) = split_on slash (lower a @ slash # lower b)"
    by (simp add: lower_split split_on_append_join)
  then show ?thesis by (metis join_split)
qed

lemma lower_prefix: "has_prefix p (q @ [slash]) \<Longrightarrow> has_prefix (lower p) (lower q @ [slash])"
  by (auto simp: lower_append_slash has_prefix_def prefix_def)

lemma lower_plain_parts:
  "list_all plain_part (split_on slash p) \<Longrightarrow> list_all plain_part (split_on slash (lower p))"
  by (auto simp: lower_split list_all_iff lower_plain)

end

lemma ascii_lower_fixes:
  assumes "(of_char d :: nat) < 65"
  shows "ascii_lower c = d \<longleftrightarrow> c = d"
proof (cases "65 \<le> (of_char c :: nat) \<and> (of_char c :: nat) \<le> 90")
  case True
  then have "of_char (ascii_lower c) = (of_char c :: nat) + 32"
    by (simp add: ascii_lower_def Let_def of_char_of take_bit_eq_mod)
  with True assms show ?thesis by auto
next
  case False
  then show ?thesis by (auto simp: ascii_lower_def Let_def)
qed

lemma ascii_lower_slash: "ascii_lower c = slash \<longleftrightarrow> c = slash"
  by (rule ascii_lower_fixes) (simp add: slash_def)

lemma ascii_lower_dot: "ascii_lower c = CHR ''.'' \<longleftrightarrow> c = CHR ''.''"
  by (rule ascii_lower_fixes) simp

lemma lower_ascii_split: "split_on slash (lower_ascii s) = map lower_ascii (split_on slash s)"
  by (induction s) (auto simp: lower_ascii_def ascii_lower_slash split: list.splits)

lemma lower_ascii_plain: "plain_part p \<Longrightarrow> plain_part (lower_ascii p)"
  by (auto simp: plain_part_def lower_ascii_def ascii_lower_dot map_eq_Cons_conv)

interpretation ascii: case_folding lower_ascii
  by unfold_locales (simp_all add: lower_ascii_split lower_ascii_plain)

subsection \<open>Namespaces of components\<close>

datatype namespace_fault =
    InvalidComponentNamespace string string path_error
  | CompilerOwnedNamespace string string
  | OverlappingNamespaces string string string string
  | InactiveComponent string
  | EmptyNamespace string
  | BadImportNamespace string string

definition overlaps :: "string \<Rightarrow> string \<Rightarrow> bool" where
  "overlaps a b \<longleftrightarrow> a = b \<or> has_prefix a (b @ [slash]) \<or> has_prefix b (a @ [slash])"

definition namespace_of :: "string gomap \<Rightarrow> string \<Rightarrow> string" where
  "namespace_of comps name = (case map_of comps name of None \<Rightarrow> '''' | Some ns \<Rightarrow> ns)"

definition component_namespace_faults ::
    "(string \<Rightarrow> string) \<Rightarrow> string gomap \<Rightarrow> string list \<Rightarrow> string \<Rightarrow> namespace_fault list" where
  "component_namespace_faults lower comps earlier name =
     (let ns = namespace_of comps name; l = lower ns in
      if ns = '''' then []
      else case validate_path ns of
        Some e \<Rightarrow> [InvalidComponentNamespace name ns e]
      | None \<Rightarrow>
        if l = ''contracts'' \<or> has_prefix l ''contracts/'' then [CompilerOwnedNamespace name ns]
        else List.map_filter (\<lambda>other.
               let previous = namespace_of comps other in
               if previous \<noteq> '''' \<and> overlaps (lower previous) l
               then Some (OverlappingNamespaces other name previous ns) else None) earlier)"

text \<open>The argument maps each component name to its \<open>OutputNamespace\<close>.\<close>

definition validate_component_namespaces ::
    "(string \<Rightarrow> string) \<Rightarrow> string gomap \<Rightarrow> namespace_fault list" where
  "validate_component_namespaces lower comps =
     (let names = sorted_keys comps in
      concat (map (\<lambda>i. component_namespace_faults lower comps (take i names) (names ! i))
                  [0..<length names]))"

text \<open>\<open>CheckImportPath\<close> of \<open>golang.org/x/mod/module\<close> is the parameter \<open>check_import\<close>.\<close>

definition validate_go_import_namespace :: "(string \<Rightarrow> bool) \<Rightarrow> string \<Rightarrow> bool" where
  "validate_go_import_namespace check_import ns \<longleftrightarrow> valid_path ns \<and> check_import ns"

fun apply_namespaces ::
    "(string \<Rightarrow> bool) \<Rightarrow> string gomap \<Rightarrow> string list \<Rightarrow> string gomap
      \<Rightarrow> string gomap \<times> namespace_fault list" where
  "apply_namespaces check_import namespaces [] comps = (comps, [])"
| "apply_namespaces check_import namespaces (name # names) comps =
     (let ns = namespace_of namespaces name in
      case map_of comps name of
        None \<Rightarrow>
          (let (c, fs) = apply_namespaces check_import namespaces names comps
           in (c, InactiveComponent name # fs))
      | Some _ \<Rightarrow>
        if ns = '''' then
          (let (c, fs) = apply_namespaces check_import namespaces names comps
           in (c, EmptyNamespace name # fs))
        else if \<not> validate_go_import_namespace check_import ns then
          (let (c, fs) = apply_namespaces check_import namespaces names comps
           in (c, BadImportNamespace name ns # fs))
        else apply_namespaces check_import namespaces names (AList.update name ns comps))"

definition apply_component_namespaces ::
    "(string \<Rightarrow> bool) \<Rightarrow> string gomap \<Rightarrow> string gomap \<Rightarrow> string gomap \<times> namespace_fault list" where
  "apply_component_namespaces check_import namespaces comps =
     apply_namespaces check_import namespaces (sorted_keys namespaces) comps"

subsection \<open>The layout of the output files\<close>

datatype layout_error =
    SamePortablePath string string
  | FileIsDirectory string string
  | LayoutDiverges \<comment> \<open>the source's loop over parents does not end: a rooted path\<close>

fun layout_paths ::
    "(string \<Rightarrow> string) \<Rightarrow> string gomap \<Rightarrow> string list \<Rightarrow> (layout_error, string gomap) result" where
  "layout_paths lower paths [] = Inr paths"
| "layout_paths lower paths (name # names) =
     (let key = lower name in
      case map_of paths key of
        Some previous \<Rightarrow> Inl (SamePortablePath previous name)
      | None \<Rightarrow> layout_paths lower (AList.update key name paths) names)"

function layout_parents :: "string gomap \<Rightarrow> string \<Rightarrow> string \<Rightarrow> layout_error option" where
  "layout_parents paths key parent =
     (if parent = ''.'' then None
      else case map_of paths parent of
        Some previous \<Rightarrow> Some (FileIsDirectory previous (the (map_of paths key)))
      | None \<Rightarrow>
        if path_dir parent = ''.'' then None
        else if length parent \<le> length (path_dir parent) then Some LayoutDiverges
        else layout_parents paths key (path_dir parent))"
  by pat_completeness auto
termination
  by (relation "measure (\<lambda>(paths, key, parent). length parent)") auto

declare layout_parents.simps [simp del]

definition validate_file_layout ::
    "(string \<Rightarrow> string) \<Rightarrow> string list \<Rightarrow> layout_error option" where
  "validate_file_layout lower names =
     (case layout_paths lower [] names of
        Inl e \<Rightarrow> Some e
      | Inr paths \<Rightarrow> first_error (\<lambda>key. layout_parents paths key (path_dir key)) (sorted_keys paths))"

datatype unique_error =
    UniqueBadPath path_error
  | DuplicatePaths "string list"
  | UniqueLayout layout_error

definition duplicate_paths :: "string list \<Rightarrow> string list" where
  "duplicate_paths ps =
     List.map_filter (\<lambda>i. if ps ! i \<in> set (take i ps) then Some (ps ! i) else None) [0..<length ps]"

definition validate_unique_file_paths ::
    "(string \<Rightarrow> string) \<Rightarrow> gen_file list \<Rightarrow> unique_error option" where
  "validate_unique_file_paths lower files =
     (let ps = map gf_path files in
      case first_error validate_path ps of
        Some e \<Rightarrow> Some (UniqueBadPath e)
      | None \<Rightarrow>
        (let duplicates = duplicate_paths ps in
         if duplicates \<noteq> [] then Some (DuplicatePaths (sort duplicates))
         else map_option UniqueLayout
           (validate_file_layout lower
             (map (\<lambda>p. if is_project_root_file p then p else ''out/'' @ p) ps))))"

subsection \<open>What an accepted layout looks like\<close>

lemma layout_paths_ok:
  "layout_paths lower paths names = Inr q \<Longrightarrow>
     distinct (map lower names) \<and>
     (\<forall>n \<in> set names. map_of paths (lower n) = None \<and> map_of q (lower n) = Some n) \<and>
     (\<forall>k. k \<notin> lower ` set names \<longrightarrow> map_of q k = map_of paths k)"
proof (induction names arbitrary: paths)
  case Nil
  then show ?case by simp
next
  case (Cons n ns)
  let ?paths = "AList.update (lower n) n paths"
  from Cons.prems have fresh: "map_of paths (lower n) = None"
    and rest: "layout_paths lower ?paths ns = Inr q"
    by (auto simp: Let_def split: option.splits)
  note ih = Cons.IH [OF rest]
  from ih have new: "lower n \<notin> lower ` set ns" by auto
  with ih have "map_of q (lower n) = Some n" by auto
  with ih fresh new show ?case by (auto simp: fun_upd_apply split: if_splits)
qed

lemma layout_paths_complete:
  "distinct (map lower names) \<Longrightarrow> \<forall>n \<in> set names. map_of paths (lower n) = None \<Longrightarrow>
     \<exists>q. layout_paths lower paths names = Inr q"
proof (induction names arbitrary: paths)
  case Nil
  then show ?case by simp
next
  case (Cons n ns)
  then have "\<forall>m \<in> set ns. map_of (AList.update (lower n) n paths) (lower m) = None"
    by (auto simp: image_iff)
  from Cons.IH [OF _ this] Cons.prems show ?case by (simp add: Let_def)
qed

lemma layout_paths_keys:
  assumes "layout_paths lower [] names = Inr q"
  shows "set (sorted_keys q) = lower ` set names"
    and "\<And>k. map_of q k = None \<longleftrightarrow> k \<notin> lower ` set names"
proof -
  have q: "map_of q k = None \<longleftrightarrow> k \<notin> lower ` set names" for k
    using layout_paths_ok [OF assms] by (cases "k \<in> lower ` set names") auto
  then show "\<And>k. map_of q k = None \<longleftrightarrow> k \<notin> lower ` set names" by blast
  show "set (sorted_keys q) = lower ` set names"
    unfolding sorted_keys_dom using q by (auto simp: dom_def)
qed

lemma path_dir_no_slash: "slash \<notin> set p \<Longrightarrow> path_dir p = ''.''"
proof -
  assume "slash \<notin> set p"
  then have "dropWhile (\<lambda>c. c \<noteq> slash) (rev p) = []" by (auto simp: dropWhile_eq_Nil_conv)
  then show ?thesis by (simp add: path_dir_def path_clean_def)
qed

lemma path_clean_trailing:
  assumes "list_all plain_part (split_on slash q)"
  shows "path_clean (q @ [slash]) = q"
  using plain_parts_head [OF assms] fold_clean_plain [OF assms, of False "[]"]
  by (simp add: path_clean_def clean_parts_def split_on_append_join)

lemma path_dir_last:
  assumes "slash \<notin> set x" and "list_all plain_part (split_on slash (q @ slash # x))"
  shows "path_dir (q @ slash # x) = q"
proof -
  have "dropWhile (\<lambda>c. c \<noteq> slash) (rev x @ slash # rev q) = slash # rev q"
    using assms(1) by (subst dropWhile_append2) auto
  then have "path_dir (q @ slash # x) = path_clean (q @ [slash])" by (simp add: path_dir_def)
  then show ?thesis using assms(2) by (simp add: path_clean_trailing split_on_append_join)
qed

lemma append_slash_cases:
  assumes "q @ slash # x = a @ slash # b" and "slash \<notin> set x"
  shows "a = q \<or> (\<exists>r. q = a @ slash # r)"
  using assms by (auto simp: append_eq_append_conv2 Cons_eq_append_conv append_eq_Cons_conv)

lemma layout_parents_None:
  "list_all plain_part (split_on slash p) \<Longrightarrow>
     layout_parents paths key p = None \<longleftrightarrow>
       map_of paths p = None \<and> (\<forall>a b. p = a @ slash # b \<longrightarrow> map_of paths a = None)"
proof (induction paths key p rule: layout_parents.induct)
  case (1 paths key p)
  have p: "p \<noteq> ''.''" "p \<noteq> ''''"
    using 1(2) by (auto simp: plain_part_def slash_def)
  show ?case
  proof (cases "slash \<in> set p")
    case False
    then show ?thesis
      using p path_dir_no_slash [OF False]
      by (auto simp: layout_parents.simps [of paths key p] split: option.splits)
  next
    case True
    then obtain q x where qx: "p = q @ slash # x" "slash \<notin> set x"
      by (metis split_list_last)
    with 1(2) have dir: "path_dir p = q" and q: "list_all plain_part (split_on slash q)"
      by (auto simp: path_dir_last split_on_append_join)
    have q_dot: "q \<noteq> ''.''" using q by (auto simp: plain_part_def slash_def)
    have parents: "(\<forall>a b. p = a @ slash # b \<longrightarrow> map_of paths a = None) \<longleftrightarrow>
        map_of paths q = None \<and> (\<forall>a b. q = a @ slash # b \<longrightarrow> map_of paths a = None)"
      using qx by (auto dest: append_slash_cases)
    show ?thesis
    proof (cases "map_of paths p")
      case None
      have len: "\<not> length p \<le> length (path_dir p)" using qx dir by simp
      have "layout_parents paths key p = layout_parents paths key q"
        using None p len dir q_dot by (simp add: layout_parents.simps [of paths key p])
      moreover have "layout_parents paths key q = None \<longleftrightarrow>
          map_of paths q = None \<and> (\<forall>a b. q = a @ slash # b \<longrightarrow> map_of paths a = None)"
        using 1(1) [OF p(1) None _ len] q dir q_dot by simp
      ultimately show ?thesis using None parents by simp
    next
      case (Some prev)
      then show ?thesis using p by (simp add: layout_parents.simps [of paths key p])
    qed
  qed
qed

lemma layout_parents_of_key:
  assumes "list_all plain_part (split_on slash key)"
  shows "layout_parents paths key (path_dir key) = None \<longleftrightarrow>
    (\<forall>a b. key = a @ slash # b \<longrightarrow> map_of paths a = None)"
proof (cases "slash \<in> set key")
  case False
  then show ?thesis by (auto simp: path_dir_no_slash layout_parents.simps)
next
  case True
  then obtain q x where qx: "key = q @ slash # x" "slash \<notin> set x"
    by (metis split_list_last)
  with assms have "path_dir key = q" "list_all plain_part (split_on slash q)"
    by (auto simp: path_dir_last split_on_append_join)
  with qx show ?thesis by (auto simp: layout_parents_None dest: append_slash_cases)
qed

text \<open>A file of the layout is above another one when its path is a parent directory of it.\<close>

definition above :: "(string \<Rightarrow> string) \<Rightarrow> string \<Rightarrow> string \<Rightarrow> bool" where
  "above lower a b \<longleftrightarrow> has_prefix (lower b) (lower a @ [slash])"

lemma above_iff: "above lower a b \<longleftrightarrow> (\<exists>r. lower b = lower a @ slash # r)"
  by (auto simp: above_def has_prefix_def prefix_def)

context case_folding
begin

lemma file_layout_iff:
  assumes plain: "\<forall>n \<in> set names. list_all plain_part (split_on slash n)"
  shows "validate_file_layout lower names = None \<longleftrightarrow>
    distinct (map lower names) \<and> (\<forall>a \<in> set names. \<forall>b \<in> set names. \<not> above lower a b)"
proof (cases "layout_paths lower [] names")
  case (Inl e)
  then have "\<not> distinct (map lower names)"
    using layout_paths_complete [of lower names "[]"] by auto
  with Inl show ?thesis by (simp add: validate_file_layout_def)
next
  case (Inr q)
  have dist: "distinct (map lower names)" using layout_paths_ok [OF Inr] by blast
  have "layout_parents q (lower n) (path_dir (lower n)) = None \<longleftrightarrow>
      (\<forall>m \<in> set names. \<not> above lower m n)" if "n \<in> set names" for n
  proof -
    have pl: "list_all plain_part (split_on slash (lower n))"
      by (rule lower_plain_parts) (use plain that in blast)
    show ?thesis
      using layout_paths_keys(2) [OF Inr]
      by (auto simp: layout_parents_of_key [OF pl] above_iff)
  qed
  moreover have "validate_file_layout lower names = None \<longleftrightarrow>
      (\<forall>n \<in> set names. layout_parents q (lower n) (path_dir (lower n)) = None)"
    using layout_paths_keys(1) [OF Inr]
    by (simp add: validate_file_layout_def Inr del: set_sorted_keys)
  ultimately show ?thesis using dist by blast
qed

end

text \<open>C21. The layout check accepts a list of canonical paths exactly when no two of them fold to
  the same path and none of them is a directory above another one. Its loop over the parents of
  each path always ends on such paths.\<close>

theorem file_layout_accepts_iff:
  assumes "case_folding lower" and "\<forall>n \<in> set names. valid_path n"
  shows "validate_file_layout lower names = None \<longleftrightarrow>
    distinct (map lower names) \<and> (\<forall>a \<in> set names. \<forall>b \<in> set names. \<not> above lower a b)"
  using assms valid_path_plain by (intro case_folding.file_layout_iff) auto

theorem file_layout_accepts_iff_witness:
  "validate_file_layout lower_ascii [''out/api'', ''out/main.go'', ''out/API/x.go''] \<noteq> None \<and>
   validate_file_layout lower_ascii [''out/api/y.go'', ''out/main.go''] = None"
proof -
  have v: "\<forall>n \<in> set [''out/api'', ''out/main.go'', ''out/API/x.go'', ''out/api/y.go'']. valid_path n"
    by code_simp
  have "above lower_ascii ''out/api'' ''out/API/x.go''" by code_simp
  moreover have "distinct (map lower_ascii [''out/api/y.go'', ''out/main.go''])" by code_simp
  moreover have "\<forall>a \<in> set [''out/api/y.go'', ''out/main.go''].
      \<forall>b \<in> set [''out/api/y.go'', ''out/main.go'']. \<not> above lower_ascii a b" by code_simp
  ultimately show ?thesis
    using v file_layout_accepts_iff [OF ascii.case_folding_axioms, of "[''out/api'', ''out/main.go'', ''out/API/x.go'']"]
      file_layout_accepts_iff [OF ascii.case_folding_axioms, of "[''out/api/y.go'', ''out/main.go'']"]
    by simp
qed

subsection \<open>Components do not share output\<close>

lemma component_faults_None:
  "component_namespace_faults lower comps earlier name = [] \<longleftrightarrow>
     namespace_of comps name = '''' \<or>
     (valid_path (namespace_of comps name) \<and>
      lower (namespace_of comps name) \<noteq> ''contracts'' \<and>
      \<not> has_prefix (lower (namespace_of comps name)) ''contracts/'' \<and>
      (\<forall>other \<in> set earlier. namespace_of comps other = '''' \<or>
         \<not> overlaps (lower (namespace_of comps other)) (lower (namespace_of comps name))))"
  by (auto simp: component_namespace_faults_def Let_def List.map_filter_def filter_empty_conv
      split: option.splits if_splits)

lemma overlaps_sym: "overlaps a b \<longleftrightarrow> overlaps b a"
  by (auto simp: overlaps_def)

lemma component_namespaces_disjoint:
  assumes ok: "validate_component_namespaces lower comps = []"
    and a: "a \<in> set (map fst comps)" and b: "b \<in> set (map fst comps)" and "a \<noteq> b"
    and ns: "namespace_of comps a \<noteq> ''''" "namespace_of comps b \<noteq> ''''"
  shows "valid_path (namespace_of comps a) \<and>
    \<not> overlaps (lower (namespace_of comps a)) (lower (namespace_of comps b))"
proof -
  let ?ks = "sorted_keys comps"
  from a obtain i where i: "i < length ?ks" "?ks ! i = a"
    using set_sorted_keys [of comps] by (metis in_set_conv_nth list.set_map)
  from b obtain j where j: "j < length ?ks" "?ks ! j = b"
    using set_sorted_keys [of comps] by (metis in_set_conv_nth list.set_map)
  have nil: "component_namespace_faults lower comps (take k ?ks) (?ks ! k) = []"
    if "k < length ?ks" for k
    using ok that by (auto simp: validate_component_namespaces_def Let_def)
  note ci = nil [OF i(1), unfolded component_faults_None i(2)]
  note cj = nil [OF j(1), unfolded component_faults_None j(2)]
  from i j \<open>a \<noteq> b\<close> have "i \<noteq> j" by auto
  then have "i < j \<or> j < i" by arith
  then show ?thesis
  proof
    assume "i < j"
    then have "a \<in> set (take j ?ks)" using i j by (auto simp: in_set_conv_nth)
    with ci cj ns show ?thesis by auto
  next
    assume "j < i"
    then have "b \<in> set (take i ?ks)" using i j by (auto simp: in_set_conv_nth)
    with ci ns show ?thesis by (auto simp: overlaps_sym)
  qed
qed

lemma validate_namespace_None:
  "validate_namespace ns files = None \<longleftrightarrow>
     valid_path ns \<and> (\<forall>f \<in> set files. \<not> outside_namespace ns f)"
  by (auto simp: validate_namespace_def Let_def filter_empty_conv split: option.splits)

lemma generator_namespace_None:
  "validate_generator_namespace name ns files = None \<longleftrightarrow>
     files = [] \<or> (ns \<noteq> '''' \<and> valid_path ns \<and> (\<forall>f \<in> set files. \<not> outside_namespace ns f))"
  by (auto simp: validate_generator_namespace_def validate_namespace_None)

lemma under_two_namespaces:
  assumes "p = a \<or> has_prefix p (a @ [slash])" and "p = b \<or> has_prefix p (b @ [slash])"
  shows "overlaps a b"
proof -
  have "prefix (a @ [slash]) (p @ [slash])" "prefix (b @ [slash]) (p @ [slash])"
    using assms by (auto simp: has_prefix_def)
  then have "prefix (a @ [slash]) (b @ [slash]) \<or> prefix (b @ [slash]) (a @ [slash])"
    by (rule prefix_same_cases)
  then show ?thesis by (auto simp: overlaps_def has_prefix_def prefix_snoc)
qed

context case_folding
begin

lemma overlaps_lower: "overlaps a b \<Longrightarrow> overlaps (lower a) (lower b)"
  using lower_prefix by (auto simp: overlaps_def)

end

text \<open>C19. Generators cannot overwrite each other: when the namespaces of the active components
  pass the namespace check and the files of two different components pass their namespace checks,
  no path is generated by both.\<close>

theorem generators_do_not_collide:
  assumes "case_folding lower" and "validate_component_namespaces lower comps = []"
    and "a \<in> set (map fst comps)" and "b \<in> set (map fst comps)" and "a \<noteq> b"
    and "validate_generator_namespace a (namespace_of comps a) fs = None"
    and "validate_generator_namespace b (namespace_of comps b) gs = None"
  shows "gf_path ` set fs \<inter> gf_path ` set gs = {}"
proof (rule ccontr)
  assume "gf_path ` set fs \<inter> gf_path ` set gs \<noteq> {}"
  then obtain f g where fg: "f \<in> set fs" "g \<in> set gs" "gf_path f = gf_path g" by auto
  with assms(6,7) have ns: "namespace_of comps a \<noteq> ''''" "namespace_of comps b \<noteq> ''''"
    and under: "\<not> outside_namespace (namespace_of comps a) f"
      "\<not> outside_namespace (namespace_of comps b) g"
    by (auto simp: generator_namespace_None)
  from under fg(3) have "overlaps (namespace_of comps a) (namespace_of comps b)"
    by (intro under_two_namespaces [of "gf_path f"]) (auto simp: outside_namespace_def)
  with case_folding.overlaps_lower [OF assms(1)]
    component_namespaces_disjoint [OF assms(2-5) ns] show False by blast
qed

theorem generators_do_not_collide_witness:
  "gf_path ` set [\<lparr>gf_path = ''internal/api/h.go'', gf_content = ''''\<rparr>] \<inter>
   gf_path ` set [\<lparr>gf_path = ''internal/storage/s.go'', gf_content = ''''\<rparr>] = {}"
  by (rule generators_do_not_collide [OF ascii.case_folding_axioms, of
        "[(''rest-api'', ''internal/api''), (''postgres'', ''internal/storage'')]" "''rest-api''" "''postgres''"])
     (code_simp | simp)+

end
