(* ===== verification/Input_Manifest.thy ===== *)
theory Input_Manifest
  imports Output_Paths Go_Time "HOL-Library.Word"
begin

text \<open>
  \<open>internal/compiler/input_manifest.go\<close>: the record of the project inputs of one generation, and
  the byte string that its digest covers. \<open>fileSnapshot\<close> of \<open>snapshot.go\<close> is here too, since a
  manifest is made from the snapshots of the inputs. The SHA-256 function is an argument, from a
  byte string to lower case hexadecimal text.
\<close>

unbundle bit_operations_syntax

subsection \<open>Snapshots and manifests\<close>

record file_snapshot =
  snap_exists :: bool
  snap_hash :: string
  snap_mode :: "32 word"

definition absent_file :: file_snapshot where
  "absent_file = \<lparr>snap_exists = False, snap_hash = '''', snap_mode = 0\<rparr>"

text \<open>\<open>FileMode.Perm\<close>\<close>

definition mode_perm :: "32 word \<Rightarrow> 32 word" where
  "mode_perm m = m AND 511"

record input_options =
  io_module_name :: string
  io_go_version :: string
  io_output_dir :: string
  io_registry_ref :: string

record input_file =
  if_exists :: bool
  if_sha256 :: string
  if_mode :: "32 word"

record input_manifest =
  im_version :: int
  im_options :: input_options
  im_files :: "input_file gomap"
  im_sha256 :: string

datatype manifest_error =
    UnsupportedManifestVersion
  | ManifestFileCount
  | ManifestOption
  | ManifestOutputDir
  | ManifestMissing string
  | ManifestNeedsService
  | ManifestPath string
  | AbsentInputHasContent
  | RequiredInputAbsent
  | ManifestHashOrMode
  | ManifestDigest

definition max_manifest_files :: nat where "max_manifest_files = 1024"

definition valid_manifest_text :: "string \<Rightarrow> bool" where
  "valid_manifest_text s \<longleftrightarrow> length s \<le> 1024 \<and> valid_string s \<and> CHR 0x00 \<notin> set s"

definition valid_digest :: "string \<Rightarrow> bool" where
  "valid_digest s \<longleftrightarrow> length s = 64 \<and> list_all hex_lower s"

definition option_values :: "input_options \<Rightarrow> string list" where
  "option_values o1 = [io_module_name o1, io_go_version o1, io_output_dir o1, io_registry_ref o1]"

definition required_inputs :: "string list" where
  "required_inputs = [''service.yaml'', ''go.mod'', ''go.sum'', ''.stego/config.yaml'']"

definition manifest_path_fault :: "string \<Rightarrow> string \<Rightarrow> bool" where
  "manifest_path_fault out name \<longleftrightarrow>
     \<not> valid_manifest_text name \<or> validate_path name \<noteq> None \<or> name = out \<or>
     has_prefix name (out @ ''/'') \<or> name = ''.stego'' \<or>
     (has_prefix name ''.stego/'' \<and> name \<noteq> ''.stego/config.yaml'')"

definition manifest_file_fault :: "string \<Rightarrow> string \<times> input_file \<Rightarrow> manifest_error option" where
  "manifest_file_fault out = (\<lambda>(name, file).
     if manifest_path_fault out name then Some (ManifestPath name)
     else if \<not> if_exists file then
       (if if_sha256 file \<noteq> '''' \<or> if_mode file \<noteq> 0 then Some AbsentInputHasContent
        else if name \<noteq> ''go.mod'' \<and> name \<noteq> ''go.sum'' \<and> name \<noteq> ''.stego/config.yaml''
        then Some RequiredInputAbsent else None)
     else if \<not> valid_digest (if_sha256 file) \<or> if_mode file > 511 then Some ManifestHashOrMode
     else None)"

text \<open>The source goes over a Go map here: which of several faults it reports is not determined, and
  the model takes the first in the order of the list.\<close>

definition validate_fields :: "input_manifest \<Rightarrow> manifest_error option" where
  "validate_fields m =
     (let out = io_output_dir (im_options m); count = length (sorted_keys (im_files m)) in
      if im_version m \<noteq> 1 then Some UnsupportedManifestVersion
      else if count < 4 \<or> count > max_manifest_files then Some ManifestFileCount
      else if list_ex (\<lambda>v. \<not> valid_manifest_text v) (option_values (im_options m)) then Some ManifestOption
      else if validate_path out \<noteq> None \<or> out = '''' then Some ManifestOutputDir
      else or_else
        (first_error (\<lambda>n. if map_of (im_files m) n = None then Some (ManifestMissing n) else None)
           required_inputs)
        (if \<not> if_exists (the (map_of (im_files m) ''service.yaml'')) then Some ManifestNeedsService
         else first_error (\<lambda>n. manifest_file_fault out (n, the (map_of (im_files m) n)))
                (remdups (map fst (im_files m)))))"

subsection \<open>The digest\<close>

text \<open>\<open>binary.BigEndian\<close>: the low \<open>k\<close> bytes of a number, the highest byte first.\<close>

fun be_bytes :: "nat \<Rightarrow> nat \<Rightarrow> string" where
  "be_bytes 0 n = []"
| "be_bytes (Suc k) n = be_bytes k (n div 256) @ [char_of (n mod 256)]"

definition digest_prefix :: string where
  "digest_prefix = ''stego-project-inputs-v1'' @ [CHR 0x00]"

definition digest_field :: "string \<Rightarrow> string" where
  "digest_field v = be_bytes 8 (length v) @ v"

definition digest_entry :: "string \<Rightarrow> input_file \<Rightarrow> string" where
  "digest_entry name file =
     digest_field name @ [if if_exists file then CHR 0x01 else CHR 0x00]
     @ be_bytes 4 (unat (if_mode file)) @ digest_field (if_sha256 file)"

definition manifest_bytes :: "input_manifest \<Rightarrow> string" where
  "manifest_bytes m =
     digest_prefix @ concat (map digest_field (option_values (im_options m)))
     @ be_bytes 8 (length (sorted_keys (im_files m)))
     @ concat (map (\<lambda>name. digest_entry name (the (map_of (im_files m) name))) (sorted_keys (im_files m)))"

definition manifest_digest :: "(string \<Rightarrow> string) \<Rightarrow> input_manifest \<Rightarrow> string" where
  "manifest_digest sha256 m = sha256 (manifest_bytes m)"

definition validate_manifest :: "(string \<Rightarrow> string) \<Rightarrow> input_manifest \<Rightarrow> manifest_error option" where
  "validate_manifest sha256 m =
     or_else (validate_fields m)
       (if \<not> valid_digest (im_sha256 m) \<or> im_sha256 m \<noteq> manifest_digest sha256 m
        then Some ManifestDigest else None)"

definition input_file_of :: "file_snapshot \<Rightarrow> input_file" where
  "input_file_of s =
     \<lparr>if_exists = snap_exists s, if_sha256 = snap_hash s, if_mode = mode_perm (snap_mode s)\<rparr>"

definition new_input_manifest ::
    "(string \<Rightarrow> string) \<Rightarrow> input_options \<Rightarrow> file_snapshot gomap \<Rightarrow> (manifest_error, input_manifest) result" where
  "new_input_manifest sha256 options snapshots =
     (let m = \<lparr>im_version = 1, im_options = options,
               im_files = map (\<lambda>(n, s). (n, input_file_of s))
                            (filter (\<lambda>(n, s). n \<noteq> ''.stego/state.yaml'') snapshots),
               im_sha256 = ''''\<rparr>
      in after (validate_fields m) (Inr (m\<lparr>im_sha256 := manifest_digest sha256 m\<rparr>)))"

subsection \<open>The bytes determine the manifest\<close>

lemma length_be_bytes [simp]: "length (be_bytes k n) = k"
  by (induction k arbitrary: n) simp_all

lemma be_bytes_inject:
  "m < 256 ^ k \<Longrightarrow> n < 256 ^ k \<Longrightarrow> be_bytes k m = be_bytes k n \<Longrightarrow> m = n"
proof (induction k arbitrary: m n)
  case 0
  then show ?case by simp
next
  case (Suc k)
  have "(of_char (char_of (x mod 256)) :: nat) = x mod 256" for x :: nat
    by (simp add: of_char_of take_bit_eq_mod)
  moreover have "char_of (m mod 256) = (char_of (n mod 256) :: char)"
    and b: "be_bytes k (m div 256) = be_bytes k (n div 256)"
    using Suc.prems(3) by simp_all
  ultimately have low: "m mod 256 = n mod 256" by metis
  have "m div 256 < 256 ^ k" "n div 256 < 256 ^ k"
    using Suc.prems(1,2) by (simp_all add: less_mult_imp_div_less mult.commute)
  from Suc.IH [OF this b] low show ?case by (metis div_mult_mod_eq)
qed

definition short :: "string \<Rightarrow> bool" where
  "short s \<longleftrightarrow> length s < 256 ^ 8"

lemma digest_field_inject:
  assumes "short a" "short b" "digest_field a @ x = digest_field b @ y"
  shows "a = b \<and> x = y"
proof -
  have "be_bytes 8 (length a) = be_bytes 8 (length b)" and r: "a @ x = b @ y"
    using assms(3) by (simp_all add: digest_field_def)
  then have "length a = length b"
    using assms(1,2) be_bytes_inject unfolding short_def by blast
  with r show ?thesis by simp
qed

lemma be_bytes_append:
  "be_bytes k m @ x = be_bytes k n @ y \<Longrightarrow> be_bytes k m = be_bytes k n \<and> x = y"
  by (rule append_eq_append_conv [THEN iffD1]) simp_all

lemma digest_entry_append:
  "digest_entry n f @ x = digest_field n @ ((if if_exists f then CHR 0x01 else CHR 0x00)
     # (be_bytes 4 (unat (if_mode f)) @ (digest_field (if_sha256 f) @ x)))"
  by (simp only: digest_entry_def append_assoc append_Cons append_Nil)

lemma digest_entry_inject:
  assumes "short n" "short n'" "short (if_sha256 f)" "short (if_sha256 f')"
    and "digest_entry n f @ x = digest_entry n' f' @ y"
  shows "n = n' \<and> f = f' \<and> x = y"
proof -
  note e = digest_field_inject [OF assms(1,2) assms(5) [unfolded digest_entry_append]]
  then have n: "n = n'" and e: "if_exists f = if_exists f'"
    by (auto split: if_splits)
  have r: "be_bytes 4 (unat (if_mode f)) @ (digest_field (if_sha256 f) @ x) =
      be_bytes 4 (unat (if_mode f')) @ (digest_field (if_sha256 f') @ y)"
    using digest_field_inject [OF assms(1,2) assms(5) [unfolded digest_entry_append]]
    by (simp only: list.inject)
  have w: "unat w < 256 ^ 4" for w :: "32 word" using unsigned_less [of w, where ?'a = nat] by simp
  have "if_mode f = if_mode f'"
    using be_bytes_inject [OF w w be_bytes_append [OF r, THEN conjunct1]] by (rule unsigned_word_eqI)
  moreover have "if_sha256 f = if_sha256 f' \<and> x = y"
    by (rule digest_field_inject [OF assms(3,4) be_bytes_append [OF r, THEN conjunct2]])
  ultimately show ?thesis using n e by simp
qed

lemma digest_fields_inject:
  "length as = length bs \<Longrightarrow> list_all short as \<Longrightarrow> list_all short bs \<Longrightarrow>
    concat (map digest_field as) @ x = concat (map digest_field bs) @ y \<Longrightarrow> as = bs \<and> x = y"
proof (induction as bs rule: list_induct2)
  case (Cons a as b bs)
  then show ?case using digest_field_inject [of a b] by simp
qed simp

definition short_file :: "(string \<Rightarrow> input_file) \<Rightarrow> string \<Rightarrow> bool" where
  "short_file f n \<longleftrightarrow> short n \<and> short (if_sha256 (f n))"

lemma digest_entries_inject:
  "length as = length bs \<Longrightarrow> list_all (short_file f) as \<Longrightarrow> list_all (short_file g) bs \<Longrightarrow>
    concat (map (\<lambda>n. digest_entry n (f n)) as) = concat (map (\<lambda>n. digest_entry n (g n)) bs) \<Longrightarrow>
    as = bs \<and> (\<forall>n \<in> set as. f n = g n)"
proof (induction as bs rule: list_induct2)
  case (Cons a as b bs)
  from Cons.prems(3) have "digest_entry a (f a) @ concat (map (\<lambda>n. digest_entry n (f n)) as) =
      digest_entry b (g b) @ concat (map (\<lambda>n. digest_entry n (g n)) bs)" by simp
  then have "a = b \<and> f a = g b \<and> concat (map (\<lambda>n. digest_entry n (f n)) as) = concat (map (\<lambda>n. digest_entry n (g n)) bs)"
    by (rule digest_entry_inject [rotated 4]) (use Cons.prems(1,2) in \<open>simp_all add: short_file_def\<close>)
  then have "a = b" "f a = g b" "as = bs \<and> (\<forall>n \<in> set as. f n = g n)"
    using Cons.IH Cons.prems(1,2) by auto
  then show ?case by auto
qed simp

definition same_inputs :: "input_manifest \<Rightarrow> input_manifest \<Rightarrow> bool" where
  "same_inputs m m' \<longleftrightarrow> im_options m = im_options m' \<and> map_of (im_files m) = map_of (im_files m')"

definition short_manifest :: "input_manifest \<Rightarrow> bool" where
  "short_manifest m \<longleftrightarrow> list_all short (option_values (im_options m)) \<and>
     length (sorted_keys (im_files m)) < 256 ^ 8 \<and>
     list_all (short_file (\<lambda>n. the (map_of (im_files m) n))) (sorted_keys (im_files m))"

lemma manifest_bytes_inject:
  assumes "short_manifest m" "short_manifest m'" "manifest_bytes m = manifest_bytes m'"
  shows "same_inputs m m'"
proof -
  let ?k = "sorted_keys (im_files m)" and ?k' = "sorted_keys (im_files m')"
  let ?f = "\<lambda>n. the (map_of (im_files m) n)" and ?f' = "\<lambda>n. the (map_of (im_files m') n)"
  have l: "length (option_values (im_options m)) = length (option_values (im_options m'))"
    by (simp add: option_values_def)
  have s: "list_all short (option_values (im_options m))" "list_all short (option_values (im_options m'))"
    using assms(1,2) by (simp_all add: short_manifest_def)
  have o: "option_values (im_options m) = option_values (im_options m')"
    and r: "be_bytes 8 (length ?k) @ concat (map (\<lambda>n. digest_entry n (?f n)) ?k) =
      be_bytes 8 (length ?k') @ concat (map (\<lambda>n. digest_entry n (?f' n)) ?k')"
    using digest_fields_inject [OF l s] assms(3) by (simp_all add: manifest_bytes_def)
  have "length ?k = length ?k'"
    using be_bytes_inject [OF _ _ be_bytes_append [OF r, THEN conjunct1]] assms(1,2)
    unfolding short_manifest_def by blast
  moreover have "list_all (short_file ?f) ?k" "list_all (short_file ?f') ?k'"
    using assms(1,2) by (simp_all add: short_manifest_def)
  moreover have "concat (map (\<lambda>n. digest_entry n (?f n)) ?k) = concat (map (\<lambda>n. digest_entry n (?f' n)) ?k')"
    by (rule be_bytes_append [OF r, THEN conjunct2])
  ultimately have k: "?k = ?k'" and f: "\<forall>n \<in> set ?k. ?f n = ?f' n"
    using digest_entries_inject by blast+
  have "dom (map_of (im_files m)) = dom (map_of (im_files m'))"
    using k by (simp add: sorted_keys_dom [symmetric])
  then have "map_of (im_files m) n = map_of (im_files m') n" for n
    using f by (cases "n \<in> dom (map_of (im_files m))")
      (auto simp: sorted_keys_dom simp del: set_sorted_keys, metis domD domIff option.collapse)+
  moreover have "im_options m = im_options m'" using o by (simp add: option_values_def)
  ultimately show ?thesis by (simp add: same_inputs_def fun_eq_iff)
qed


subsection \<open>What a recorded manifest promises\<close>

text \<open>The bounds of a valid manifest are far below those of the length fields.\<close>

lemma short_le: "length s \<le> 1024 \<Longrightarrow> short s"
  by (simp add: short_def)

lemma manifest_file_short:
  assumes "manifest_file_fault out (n, f) = None"
  shows "short n \<and> short (if_sha256 f)"
  using assms
  by (auto simp: manifest_file_fault_def manifest_path_fault_def valid_manifest_text_def valid_digest_def
      intro!: short_le split: if_splits)

lemma valid_fields_short:
  assumes "validate_fields m = None"
  shows "short_manifest m"
proof -
  have v: "list_all valid_manifest_text (option_values (im_options m))"
    and c: "length (sorted_keys (im_files m)) \<le> 1024"
    and f: "\<forall>n \<in> set (map fst (im_files m)).
      manifest_file_fault (io_output_dir (im_options m)) (n, the (map_of (im_files m) n)) = None"
    using assms by (auto simp: validate_fields_def Let_def max_manifest_files_def list_all_iff list_ex_iff
        split: if_splits)
  have "list_all short (option_values (im_options m))"
    using v by (auto simp: list_all_iff valid_manifest_text_def intro: short_le)
  moreover have "length (sorted_keys (im_files m)) < 256 ^ 8" using c by simp
  moreover have "list_all (short_file (\<lambda>n. the (map_of (im_files m) n))) (sorted_keys (im_files m))"
    using f manifest_file_short by (fastforce simp: list_all_iff short_file_def)
  ultimately show ?thesis by (simp add: short_manifest_def)
qed

text \<open>C31. Two manifests that the compiler accepts and that carry one digest record the same options
  and the same state of every input file, or else their bytes are a collision of the hash: no choice
  of names, options or contents can make one inventory pass for another.\<close>

theorem digest_determines_inputs:
  assumes "validate_manifest sha256 m = None" and "validate_manifest sha256 m' = None"
    and "im_sha256 m = im_sha256 m'"
  shows "same_inputs m m' \<or>
    (manifest_bytes m \<noteq> manifest_bytes m' \<and> sha256 (manifest_bytes m) = sha256 (manifest_bytes m'))"
proof -
  have "validate_fields m = None" "validate_fields m' = None"
    and d: "im_sha256 m = manifest_digest sha256 m" "im_sha256 m' = manifest_digest sha256 m'"
    using assms(1,2) by (simp_all add: validate_manifest_def split: if_splits)
  then have "short_manifest m" "short_manifest m'" using valid_fields_short by blast+
  from manifest_bytes_inject [OF this] d assms(3) show ?thesis
    by (auto simp: manifest_digest_def)
qed

lemma validate_fields_digest [simp]: "validate_fields (m\<lparr>im_sha256 := d\<rparr>) = validate_fields m"
  by (simp add: validate_fields_def Let_def)

lemma manifest_bytes_digest [simp]: "manifest_bytes (m\<lparr>im_sha256 := d\<rparr>) = manifest_bytes m"
  by (simp add: manifest_bytes_def)

lemma new_manifest_valid:
  assumes "new_input_manifest sha256 options snapshots = Inr m"
    and "\<And>bytes. valid_digest (sha256 bytes)"
  shows "validate_manifest sha256 m = None \<and> im_options m = options \<and>
    (\<forall>n. map_of (im_files m) n =
       (if n = ''.stego/state.yaml'' then None else map_option input_file_of (map_of snapshots n)))"
proof -
  have files: "map_of (map (\<lambda>(n, s). (n, input_file_of s)) (filter (\<lambda>(n, s). n \<noteq> x) snaps)) n =
      (if n = x then None else map_option input_file_of (map_of snaps n))" for n x and snaps :: "file_snapshot gomap"
    by (induction snaps) auto
  define m0 where "m0 = \<lparr>im_version = 1, im_options = options,
               im_files = map (\<lambda>(n, s). (n, input_file_of s))
                            (filter (\<lambda>(n, s). n \<noteq> ''.stego/state.yaml'') snapshots),
               im_sha256 = ''''\<rparr>"
  have v: "validate_fields m0 = None" and m: "m = m0\<lparr>im_sha256 := manifest_digest sha256 m0\<rparr>"
    using assms(1) unfolding new_input_manifest_def Let_def m0_def [symmetric] after_Inr by simp_all
  have "validate_manifest sha256 m = None"
    using assms(2) by (simp add: m validate_manifest_def v manifest_digest_def)
  moreover have "im_options m = options" by (simp add: m m0_def)
  moreover have "im_files m = map (\<lambda>(n, s). (n, input_file_of s))
      (filter (\<lambda>(n, s). n \<noteq> ''.stego/state.yaml'') snapshots)" by (simp add: m m0_def)
  ultimately show ?thesis by (simp add: files)
qed

text \<open>C32. The manifest that the compiler records is one that it accepts when it reads it back, as
  long as the hash gives lower case hexadecimal SHA-256 text; it names every snapshot but that of the
  state file, with its permission bits.\<close>

theorem recorded_manifest_is_valid:
  assumes "new_input_manifest sha256 options snapshots = Inr m"
    and "\<And>bytes. valid_digest (sha256 bytes)"
  shows "validate_manifest sha256 m = None \<and> im_options m = options \<and>
    (\<forall>n. map_of (im_files m) n =
       (if n = ''.stego/state.yaml'' then None else map_option input_file_of (map_of snapshots n)))"
  using assms by (rule new_manifest_valid)

subsection \<open>Examples\<close>

definition sample_hash :: "string \<Rightarrow> string" where
  "sample_hash bytes = replicate 64 (if length bytes mod 2 = 0 then CHR ''a'' else CHR ''b'')"

definition sample_options :: input_options where
  "sample_options = \<lparr>io_module_name = ''example.org/app'', io_go_version = ''1.26'', io_output_dir = ''out'',
     io_registry_ref = ''''\<rparr>"

definition sample_snapshots :: "file_snapshot gomap" where
  "sample_snapshots =
     [(''service.yaml'', \<lparr>snap_exists = True, snap_hash = replicate 64 CHR ''c'', snap_mode = 420\<rparr>),
      (''go.mod'', absent_file), (''go.sum'', absent_file), (''.stego/state.yaml'', absent_file),
      (''.stego/config.yaml'', absent_file)]"

definition sample_manifest :: input_manifest where
  "sample_manifest =
     (let m = \<lparr>im_version = 1, im_options = sample_options,
               im_files = map (\<lambda>(n, s). (n, input_file_of s))
                            (filter (\<lambda>(n, s). n \<noteq> ''.stego/state.yaml'') sample_snapshots),
               im_sha256 = ''''\<rparr>
      in m\<lparr>im_sha256 := manifest_digest sample_hash m\<rparr>)"

lemma sample_hash_valid: "valid_digest (sample_hash bytes)"
  by (simp add: valid_digest_def sample_hash_def hex_lower_def is_digit_def list_all_iff)

lemma sample_fields:
  "validate_fields \<lparr>im_version = 1, im_options = sample_options,
     im_files = map (\<lambda>(n, s). (n, input_file_of s))
       (filter (\<lambda>(n, s). n \<noteq> ''.stego/state.yaml'') sample_snapshots),
     im_sha256 = ''''\<rparr> = None"
  by code_simp

lemma sample_manifest_ok: "new_input_manifest sample_hash sample_options sample_snapshots = Inr sample_manifest"
  unfolding new_input_manifest_def sample_manifest_def Let_def sample_fields by simp

theorem recorded_manifest_is_valid_witness:
  "validate_manifest sample_hash sample_manifest = None"
  using recorded_manifest_is_valid [OF sample_manifest_ok sample_hash_valid] by blast

theorem digest_determines_inputs_witness:
  "same_inputs sample_manifest (sample_manifest\<lparr>im_version := 1\<rparr>)"
proof -
  have "sample_manifest\<lparr>im_version := 1\<rparr> = sample_manifest" by (simp add: sample_manifest_def Let_def)
  moreover have "validate_manifest sample_hash sample_manifest = None"
    using new_manifest_valid [OF sample_manifest_ok sample_hash_valid] by blast
  ultimately show ?thesis
    using digest_determines_inputs [of sample_hash sample_manifest "sample_manifest\<lparr>im_version := 1\<rparr>"] by auto
qed

end
