(* ===== verification/State_File.thy ===== *)
theory State_File
  imports Input_Manifest
begin

text \<open>
  \<open>internal/buildidentity/runtime.go\<close>, the record of the compiler build, and the state file
  \<open>.stego/state.yaml\<close> of \<open>internal/compiler/state.go\<close>. YAML coding is an argument: a strict decoder
  and an encoder.
\<close>

subsection \<open>The compiler build record\<close>

record build_record =
  br_go_version :: string
  br_goos :: string
  br_goarch :: string
  br_module_version :: string
  br_vcs :: string
  br_revision :: string
  br_source_state :: string

text \<open>What the code reads of \<open>runtime\<close> and \<open>runtime/debug.BuildInfo\<close>.\<close>

record build_info =
  bi_go_version :: string
  bi_main_version :: string
  bi_settings :: "(string \<times> string) list"

record go_runtime =
  rt_version :: string
  rt_goos :: string
  rt_goarch :: string

definition safe_text :: "string \<Rightarrow> bool" where
  "safe_text s \<longleftrightarrow> s \<noteq> '''' \<and> length s \<le> 256 \<and>
     list_all (\<lambda>c. 33 \<le> (of_char c :: nat) \<and> (of_char c :: nat) \<le> 126) s"

text \<open>The loop over the settings: the values of the three keys, and whether one came twice.\<close>

fun vcs_settings :: "(string \<times> string) list \<Rightarrow> string gomap \<Rightarrow> bool \<Rightarrow> string gomap \<times> bool" where
  "vcs_settings [] values dup = (values, dup)"
| "vcs_settings ((k, v) # rest) values dup =
     (if k \<in> set [''vcs'', ''vcs.revision'', ''vcs.modified'']
      then vcs_settings rest (AList.update k v values) (dup \<or> map_of values k \<noteq> None)
      else vcs_settings rest values dup)"

definition setting :: "string gomap \<Rightarrow> string \<Rightarrow> string" where
  "setting values k = (case map_of values k of Some v \<Rightarrow> v | None \<Rightarrow> '''')"

definition from_info :: "go_runtime \<Rightarrow> build_info option \<Rightarrow> build_record" where
  "from_info rt info =
     (let r = \<lparr>br_go_version = rt_version rt, br_goos = rt_goos rt, br_goarch = rt_goarch rt,
               br_module_version = ''unknown'', br_vcs = ''unknown'', br_revision = ''unknown'',
               br_source_state = ''unknown''\<rparr>
      in case info of
        None \<Rightarrow> r
      | Some i \<Rightarrow>
        (let r1 = (if safe_text (bi_go_version i) then r\<lparr>br_go_version := bi_go_version i\<rparr> else r);
             r2 = (if safe_text (bi_main_version i) then r1\<lparr>br_module_version := bi_main_version i\<rparr> else r1);
             (values, dup) = vcs_settings (bi_settings i) [] False
         in if \<not> dup \<and> safe_text (setting values ''vcs'') \<and> safe_text (setting values ''vcs.revision'') then
              (let r3 = r2\<lparr>br_vcs := setting values ''vcs'', br_revision := setting values ''vcs.revision''\<rparr>;
                   modified = setting values ''vcs.modified''
               in if modified = ''true'' then r3\<lparr>br_source_state := ''modified''\<rparr>
                  else if modified = ''false'' then r3\<lparr>br_source_state := ''clean''\<rparr> else r3)
            else r2))"

datatype build_fault = InvalidBuildRecord | InvalidSourceState | IncompleteSourceRecord

definition build_values :: "build_record \<Rightarrow> string list" where
  "build_values r = [br_go_version r, br_goos r, br_goarch r, br_module_version r, br_vcs r, br_revision r]"

definition validate_build :: "build_record \<Rightarrow> build_fault option" where
  "validate_build r =
     (if \<not> list_all safe_text (build_values r) then Some InvalidBuildRecord
      else if br_source_state r \<notin> set [''unknown'', ''clean'', ''modified''] then Some InvalidSourceState
      else if (br_vcs r = ''unknown'' \<or> br_revision r = ''unknown'') \<and>
              (br_vcs r \<noteq> ''unknown'' \<or> br_revision r \<noteq> ''unknown'' \<or> br_source_state r \<noteq> ''unknown'')
      then Some IncompleteSourceRecord else None)"

subsection \<open>The state file\<close>

record entity_field_state =
  ef_name :: string
  ef_type :: string
  ef_hash :: string

record component_state =
  cs_version :: string
  cs_sha :: string

record applied_state =
  la_inputs :: "input_manifest option"
  la_compiler_build :: "build_record option"
  la_service_name :: string
  la_service_hash :: string
  la_registry_sha :: string
  la_registry_content :: string
  la_components :: "component_state gomap"
  la_entities :: "entity_field_state list gomap option"
  la_files :: "string gomap"

record state =
  state_format :: int
  state_last :: "applied_state option"

definition state_format_version :: int where "state_format_version = 2"
definition oldest_named_format :: int where "oldest_named_format = 1"

datatype state_error =
    UnsupportedFormat int
  | StateManifest manifest_error
  | ManifestServiceMismatch string string
  | ManifestRegistryMismatch string string
  | StateBuild build_fault
  | BadRegistryHash
  | StatePath path_error
  | StateTooLarge
  | StateNotYaml

definition hex_any :: "char \<Rightarrow> bool" where
  "hex_any c \<longleftrightarrow> hex_lower c \<or> (65 \<le> (of_char c :: nat) \<and> (of_char c :: nat) \<le> 70)"

definition registry_hash_fault :: "string \<Rightarrow> bool" where
  "registry_hash_fault d \<longleftrightarrow>
     d \<noteq> '''' \<and> (length d \<noteq> 64 \<or> \<not> (list_all hex_any d \<and> lower_ascii d = d))"

definition manifest_fault :: "(string \<Rightarrow> string) \<Rightarrow> applied_state \<Rightarrow> state_error option" where
  "manifest_fault sha256 la =
     (case la_inputs la of
        None \<Rightarrow> None
      | Some m \<Rightarrow>
        (case validate_manifest sha256 m of
           Some e \<Rightarrow> Some (StateManifest e)
         | None \<Rightarrow>
           (let service = if_sha256 (the (map_of (im_files m) ''service.yaml'')) in
            if service \<noteq> la_service_hash la then Some (ManifestServiceMismatch (la_service_hash la) service)
            else if io_registry_ref (im_options m) \<noteq> la_registry_sha la
            then Some (ManifestRegistryMismatch (la_registry_sha la) (io_registry_ref (im_options m)))
            else None)))"

definition validate_state_paths :: "(string \<Rightarrow> string) \<Rightarrow> state \<Rightarrow> state_error option" where
  "validate_state_paths sha256 s =
     (if state_format s \<noteq> 0 \<and> (state_format s < oldest_named_format \<or> state_format s > state_format_version)
      then Some (UnsupportedFormat (state_format s))
      else case state_last s of
        None \<Rightarrow> None
      | Some la \<Rightarrow>
        or_else (manifest_fault sha256 la)
         (or_else (case la_compiler_build la of None \<Rightarrow> None
                   | Some b \<Rightarrow> map_option StateBuild (validate_build b))
          (or_else (if registry_hash_fault (la_registry_content la) then Some BadRegistryHash else None)
            (first_error (\<lambda>p. map_option StatePath (validate_path p)) (sorted_keys (la_files la))))))"

definition max_document_bytes :: nat where "max_document_bytes = 4194304"

definition decode_state ::
    "(string \<Rightarrow> string) \<Rightarrow> (string \<Rightarrow> state option) \<Rightarrow> string \<Rightarrow> (state_error, state) result" where
  "decode_state sha256 decode data =
     (case decode data of
        None \<Rightarrow> Inl StateNotYaml
      | Some s \<Rightarrow> after (validate_state_paths sha256 s) (Inr s))"

definition encode_state ::
    "(string \<Rightarrow> string) \<Rightarrow> (state \<Rightarrow> string) \<Rightarrow> state \<Rightarrow> (state_error, string) result" where
  "encode_state sha256 encode s =
     after (validate_state_paths sha256 s)
       (let data = encode (s\<lparr>state_format := state_format_version\<rparr>) in
        if length data > max_document_bytes then Inl StateTooLarge else Inr data)"


subsection \<open>What is recorded can be read\<close>

lemma vcs_settings_safe_or_unknown:
  "list_all safe_text (build_values (from_info rt info))"
  if "list_all safe_text [rt_version rt, rt_goos rt, rt_goarch rt]"
proof -
  have u: "safe_text ''unknown''" by code_simp
  show ?thesis
    using that u by (auto simp: from_info_def build_values_def Let_def split: option.splits prod.splits)
qed

text \<open>The build record that the compiler makes of its own executable is one that it accepts in a
  state file, as long as the run time names its version and target in printable text and no version
  control setting is the word unknown; it calls the source clean only when the build says so, once.\<close>

lemma own_build_record_is_valid:
  assumes "list_all safe_text [rt_version rt, rt_goos rt, rt_goarch rt]"
    and "\<And>i values dup k. info = Some i \<Longrightarrow> vcs_settings (bi_settings i) [] False = (values, dup) \<Longrightarrow>
      k \<in> {''vcs'', ''vcs.revision''} \<Longrightarrow> setting values k \<noteq> ''unknown''"
  shows "validate_build (from_info rt info) = None \<and>
    (br_source_state (from_info rt info) = ''clean'' \<longrightarrow>
      (\<exists>i values. info = Some i \<and> vcs_settings (bi_settings i) [] False = (values, False) \<and>
        setting values ''vcs.modified'' = ''false''))"
proof -
  have state: "br_source_state (from_info rt info) \<in> set [''unknown'', ''clean'', ''modified'']"
    by (auto simp: from_info_def Let_def split: option.splits prod.splits)
  have source: "(br_vcs (from_info rt info) = ''unknown'' \<and> br_revision (from_info rt info) = ''unknown'' \<and>
      br_source_state (from_info rt info) = ''unknown'') \<or>
    (br_vcs (from_info rt info) \<noteq> ''unknown'' \<and> br_revision (from_info rt info) \<noteq> ''unknown'')"
    using assms(2) by (auto simp: from_info_def Let_def split: option.splits prod.splits)
  have "validate_build (from_info rt info) = None"
    using vcs_settings_safe_or_unknown [OF assms(1), of info] state source
    by (auto simp: validate_build_def)
  moreover have "\<exists>i values. info = Some i \<and> vcs_settings (bi_settings i) [] False = (values, False) \<and>
      setting values ''vcs.modified'' = ''false''" if "br_source_state (from_info rt info) = ''clean''"
    using that by (auto simp: from_info_def Let_def split: option.splits prod.splits if_splits)
  ultimately show ?thesis by blast
qed

definition sample_runtime :: go_runtime where
  "sample_runtime = \<lparr>rt_version = ''go1.26'', rt_goos = ''linux'', rt_goarch = ''amd64''\<rparr>"

definition sample_info :: build_info where
  "sample_info = \<lparr>bi_go_version = ''go1.26'', bi_main_version = ''(devel)'',
     bi_settings = [(''vcs'', ''git''), (''-ldflags'', ''x y''), (''vcs.revision'', ''0123abcd''), (''vcs.modified'', ''false'')]\<rparr>"

theorem own_build_record_is_valid_witness:
  "validate_build (from_info sample_runtime (Some sample_info)) = None \<and>
   br_source_state (from_info sample_runtime (Some sample_info)) = ''clean''"
proof -
  have "list_all safe_text [rt_version sample_runtime, rt_goos sample_runtime, rt_goarch sample_runtime]"
    by code_simp
  moreover have "setting vs k \<noteq> ''unknown''"
    if "Some sample_info = Some i" "vcs_settings (bi_settings i) [] False = (vs, dup)"
      "k \<in> {''vcs'', ''vcs.revision''}" for i vs dup k
    using that by (auto simp: sample_info_def setting_def)
  ultimately have "validate_build (from_info sample_runtime (Some sample_info)) = None"
    using own_build_record_is_valid [of sample_runtime "Some sample_info"] by blast
  moreover have "br_source_state (from_info sample_runtime (Some sample_info)) = ''clean''" by code_simp
  ultimately show ?thesis by blast
qed

lemma state_format_update [simp]:
  "state_last (s\<lparr>state_format := v\<rparr>) = state_last s"
  by simp

text \<open>C33. A state file that the compiler writes is one that it reads, with the same content and the
  current format version, as long as the YAML decoder reads back what the encoder wrote.\<close>

theorem saved_state_reads_back:
  assumes "encode_state sha256 encode s = Inr data"
    and "decode (encode (s\<lparr>state_format := state_format_version\<rparr>)) = Some (s\<lparr>state_format := state_format_version\<rparr>)"
  shows "decode_state sha256 decode data = Inr (s\<lparr>state_format := state_format_version\<rparr>)"
proof -
  have v: "validate_state_paths sha256 s = None" and d: "data = encode (s\<lparr>state_format := state_format_version\<rparr>)"
    using assms(1) by (auto simp: encode_state_def go_errors Let_def split: if_splits)
  have "validate_state_paths sha256 (s\<lparr>state_format := state_format_version\<rparr>) = None"
    using v unfolding validate_state_paths_def
    by (auto simp: state_format_version_def oldest_named_format_def split: if_splits option.splits)
  then show ?thesis by (simp add: decode_state_def d assms(2))
qed

definition sample_state :: state where
  "sample_state = \<lparr>state_format = 1, state_last = Some
     \<lparr>la_inputs = None, la_compiler_build = None, la_service_name = ''app'', la_service_hash = ''h'',
      la_registry_sha = '''', la_registry_content = '''', la_components = [], la_entities = None,
      la_files = [(''internal/api/handler.go'', ''00'')]\<rparr>\<rparr>"

theorem saved_state_reads_back_witness:
  "decode_state sample_hash (\<lambda>d. if d = ''state'' then Some (sample_state\<lparr>state_format := state_format_version\<rparr>) else None)
     ''state'' = Inr (sample_state\<lparr>state_format := state_format_version\<rparr>)"
proof -
  have "validate_state_paths sample_hash sample_state = None" by code_simp
  then have "encode_state sample_hash (\<lambda>_. ''state'') sample_state = Inr ''state''"
    by (simp add: encode_state_def max_document_bytes_def)
  then show ?thesis by (rule saved_state_reads_back) simp
qed

end
