(* ===== verification/Project_Files.thy ===== *)
theory Project_Files
  imports State_File File_Layout
begin

text \<open>
  The files of a project as the compiler reads and writes them: \<open>internal/compiler/filesystem.go\<close>
  (path checks, replacing a file), \<open>snapshot.go\<close> (reading and verifying snapshots) and
  \<open>syncParents\<close> of \<open>transaction.go\<close>.

  A file system maps a slash separated path below the project to a node; it is what \<open>Lstat\<close> says
  of the path. An operation goes through primitive steps, and an oracle says which of them fail: a
  crash at step \<open>n\<close> is the oracle that lets every step from \<open>n\<close> on fail, so that nothing changes any
  more. A \<open>Root\<close> is its path below the project, empty for the project itself.
\<close>

datatype node =
    Dir
  | Link bool \<comment> \<open>a symbolic link, and whether it leads to a directory of the project\<close>
  | Special
  | Regular string "32 word"

record world =
  w_fs :: "node gomap"
  w_tick :: nat
  w_fails :: "nat \<Rightarrow> bool"
  w_nonce :: "nat \<Rightarrow> string"
  w_stop :: "string \<Rightarrow> bool"

datatype apply_error =
    BadName path_error
  | IoFails nat
  | SymbolicLink string
  | ParentNotDirectory string
  | NotFileOrDirectory string
  | TargetNotRegular string
  | FileTooLarge string nat
  | NotFound string
  | DirectoryNotEmpty string
  | FileExists string
  | IsDirectory string
  | CannotMakeDirectory string
  | ChangedAfterPlanning string
  | StoppedAt string
  | RecoveryRequired "apply_error option"
  | BadOutDir out_dir_error
  | OutsideOutput string
  | NoAppliedState
  | DuplicateGenerated string
  | ContentNotInState string
  | NoSnapshot string
  | DeletesGenerated string
  | NoContent string
  | ContentLimit
  | StateRefused state_error
  | TransactionVersion int
  | TransactionOutputDir
  | TransactionFileCount
  | BadExpectedSnapshot string
  | TransactionLayout layout_error
  | DuplicateTarget string
  | InconsistentSnapshot string
  | BadOperationSnapshot string
  | StateNotLast
  | DeletesModule
  | ContentHashMismatch string
  | DeletedHasContent
  | NoStateRecord
  | StateOwnsModule
  | StateOutputMismatch string
  | OutputNotTracked string
  | RecoveryConflict string
  | RecordTooLarge
  | RecordNotYaml
  | HandEdits "string list"
  | PlanMismatch string
  | IncompletePlan
  | PlanWithoutRecord
  | SavedPlanTooLarge
  | NoSavedPlan
  | SavedPlanNotYaml
  | SavedPlanVersion int
  | StalePlan "string list"

type_synonym 'a io = "world \<Rightarrow> (apply_error, 'a) result \<times> world"

definition io_return :: "'a \<Rightarrow> 'a io" where
  "io_return a w = (Inr a, w)"

definition io_error :: "apply_error \<Rightarrow> 'a io" where
  "io_error e w = (Inl e, w)"

definition io_bind :: "'a io \<Rightarrow> ('a \<Rightarrow> 'b io) \<Rightarrow> 'b io" where
  "io_bind m f w = (case m w of (Inl e, w') \<Rightarrow> (Inl e, w') | (Inr a, w') \<Rightarrow> f a w')"

definition io_check :: "apply_error option \<Rightarrow> unit io" where
  "io_check c = (case c of Some e \<Rightarrow> io_error e | None \<Rightarrow> io_return ())"

text \<open>A deferred call: it runs after \<open>m\<close> whatever \<open>m\<close> gave, and its own error counts only if \<open>m\<close>
  gave none (the source joins the two).\<close>

definition io_finally :: "'a io \<Rightarrow> unit io \<Rightarrow> 'a io" where
  "io_finally m cleanup w =
     (let (r, w1) = m w; (c, w2) = cleanup w1 in
      (case r of Inl e \<Rightarrow> Inl e | Inr a \<Rightarrow> (case c of Inl e \<Rightarrow> Inl e | Inr _ \<Rightarrow> Inr a), w2))"

subsection \<open>Primitive steps\<close>

definition attempt :: "unit io" where
  "attempt w =
     (if w_fails w (w_tick w) then Inl (IoFails (w_tick w)) else Inr (), w\<lparr>w_tick := Suc (w_tick w)\<rparr>)"

definition get_node :: "string \<Rightarrow> node option io" where
  "get_node p = io_bind attempt (\<lambda>_ w. (Inr (map_of (w_fs w) p), w))"

definition set_node :: "string \<Rightarrow> node \<Rightarrow> unit io" where
  "set_node p n = io_bind attempt (\<lambda>_ w. (Inr (), w\<lparr>w_fs := AList.update p n (w_fs w)\<rparr>))"

definition delete_node :: "string \<Rightarrow> unit io" where
  "delete_node p = io_bind attempt (\<lambda>_ w. (Inr (), w\<lparr>w_fs := AList.delete p (w_fs w)\<rparr>))"

definition root_path :: "string \<Rightarrow> string \<Rightarrow> string" where
  "root_path base p = (if base = '''' then p else base @ slash # p)"

text \<open>\<open>Root.Remove\<close> removes a file or an empty directory.\<close>

definition remove_node :: "string \<Rightarrow> unit io" where
  "remove_node p = io_bind (get_node p) (\<lambda>n w.
     (case n of
        None \<Rightarrow> io_error (NotFound p) w
      | Some Dir \<Rightarrow>
          if list_ex (\<lambda>q. has_prefix q (p @ [slash])) (map fst (w_fs w)) then io_error (DirectoryNotEmpty p) w
          else delete_node p w
      | Some _ \<Rightarrow> delete_node p w))"

definition ignore_not_found :: "unit io \<Rightarrow> unit io" where
  "ignore_not_found m w = (case m w of (Inl (NotFound p), w') \<Rightarrow> (Inr (), w') | r \<Rightarrow> r)"

subsection \<open>filesystem.go: path checks\<close>

text \<open>\<open>filepath.Join(parts[:i+1]...)\<close> for each \<open>i\<close>.\<close>

definition path_prefixes :: "string \<Rightarrow> string list" where
  "path_prefixes name =
     (let parts = split_on slash name in
      map (\<lambda>i. join_with [slash] (take (Suc i) parts)) [0..<length parts])"

fun check_parts :: "string \<Rightarrow> string list \<Rightarrow> unit io" where
  "check_parts base [] = io_return ()"
| "check_parts base (p # ps) = io_bind (get_node (root_path base p)) (\<lambda>n.
     case n of
       None \<Rightarrow> io_return ()
     | Some (Link _) \<Rightarrow> io_error (SymbolicLink p)
     | Some Dir \<Rightarrow> check_parts base ps
     | Some (Regular _ _) \<Rightarrow> if ps \<noteq> [] then io_error (ParentNotDirectory p) else io_return ()
     | Some Special \<Rightarrow>
         if ps \<noteq> [] then io_error (ParentNotDirectory p) else io_error (NotFileOrDirectory p))"

definition check_file_path :: "string \<Rightarrow> string \<Rightarrow> unit io" where
  "check_file_path base name =
     io_bind (io_check (map_option BadName (validate_path name)))
       (\<lambda>_. check_parts base (path_prefixes name))"

definition check_file_target :: "string \<Rightarrow> string \<Rightarrow> unit io" where
  "check_file_target base name =
     io_bind (check_file_path base name) (\<lambda>_.
     io_bind (get_node (root_path base name)) (\<lambda>n.
       case n of
         None \<Rightarrow> io_return ()
       | Some (Regular _ _) \<Rightarrow> io_return ()
       | Some _ \<Rightarrow> io_error (TargetNotRegular name)))"

subsection \<open>filesystem.go: replacing a file\<close>

fun mkdir_parts :: "string \<Rightarrow> string list \<Rightarrow> unit io" where
  "mkdir_parts base [] = io_return ()"
| "mkdir_parts base (p # ps) = io_bind (get_node (root_path base p)) (\<lambda>n.
     case n of
       None \<Rightarrow> io_bind (set_node (root_path base p) Dir) (\<lambda>_. mkdir_parts base ps)
     | Some Dir \<Rightarrow> mkdir_parts base ps
     | Some (Link True) \<Rightarrow> mkdir_parts base ps
     | Some _ \<Rightarrow> io_error (CannotMakeDirectory p))"

text \<open>\<open>Root.MkdirAll\<close>\<close>

definition mkdir_all :: "string \<Rightarrow> string \<Rightarrow> unit io" where
  "mkdir_all base dir = (if dir = ''.'' then io_return () else mkdir_parts base (path_prefixes dir))"

definition temp_part :: "string \<Rightarrow> string" where
  "temp_part nonce = ''.stego-write-'' @ nonce"

definition temp_path :: "string \<Rightarrow> string \<Rightarrow> string" where
  "temp_path dir nonce = (if dir = ''.'' then temp_part nonce else dir @ slash # temp_part nonce)"

text \<open>The bytes and the permissions go to the temporary file, which is then synced, closed and
  renamed, or linked when an existing file must stay.\<close>

definition fill_and_publish :: "string \<Rightarrow> string \<Rightarrow> string \<Rightarrow> 32 word \<Rightarrow> bool \<Rightarrow> unit io" where
  "fill_and_publish temp target data mode replace =
     io_bind (set_node temp (Regular data 384)) (\<lambda>_.
     io_bind (set_node temp (Regular data (mode_perm mode))) (\<lambda>_.
     io_bind attempt (\<lambda>_.
     io_bind attempt (\<lambda>_.
     io_bind (get_node target) (\<lambda>n.
       if replace then
         (if n = Some Dir then io_error (IsDirectory target)
          else io_bind attempt (\<lambda>_ w. (Inr (),
                 w\<lparr>w_fs := AList.delete temp (AList.update target (Regular data (mode_perm mode)) (w_fs w))\<rparr>)))
       else if n \<noteq> None then io_error (FileExists target)
       else set_node target (Regular data (mode_perm mode)))))))"

definition publish_root_file :: "string \<Rightarrow> string \<Rightarrow> string \<Rightarrow> 32 word \<Rightarrow> bool \<Rightarrow> unit io" where
  "publish_root_file base name data mode replace =
     io_bind (check_file_path base name) (\<lambda>_.
     io_bind (mkdir_all base (path_dir name)) (\<lambda>_.
     io_bind (\<lambda>w. (Inr (w_nonce w (w_tick w)), w)) (\<lambda>nonce.
     io_bind attempt (\<lambda>_.
       (let temp = root_path base (temp_path (path_dir name) nonce) in
        io_bind (get_node temp) (\<lambda>n.
          if n \<noteq> None then io_error (FileExists temp)
          else io_bind (set_node temp (Regular '''' 384)) (\<lambda>_.
            io_finally (fill_and_publish temp (root_path base name) data mode replace)
              (ignore_not_found (remove_node temp)))))))))"

definition write_root_file_mode :: "string \<Rightarrow> string \<Rightarrow> string \<Rightarrow> 32 word \<Rightarrow> unit io" where
  "write_root_file_mode base name data mode = publish_root_file base name data mode True"

text \<open>\<open>syncParents\<close>: every directory from the parent of \<open>name\<close> up to the root; one that is not there
  is skipped.\<close>

fun sync_dirs :: "string \<Rightarrow> string list \<Rightarrow> unit io" where
  "sync_dirs base [] = attempt"
| "sync_dirs base (d # ds) = io_bind (get_node (root_path base d)) (\<lambda>n.
     if n = None then sync_dirs base ds else io_bind attempt (\<lambda>_. sync_dirs base ds))"

definition sync_parents :: "string \<Rightarrow> string \<Rightarrow> unit io" where
  "sync_parents base name = sync_dirs base (rev (butlast (path_prefixes name)))"

subsection \<open>snapshot.go\<close>

definition max_tracked_bytes :: nat where "max_tracked_bytes = 67108864"

definition read_snapshot ::
    "(string \<Rightarrow> string) \<Rightarrow> string \<Rightarrow> string \<Rightarrow> nat \<Rightarrow> (string \<times> file_snapshot) io" where
  "read_snapshot sha256 base name limit =
     io_bind (check_file_target base name) (\<lambda>_.
     io_bind (get_node (root_path base name)) (\<lambda>n.
       case n of
         None \<Rightarrow> io_return ('''', absent_file)
       | Some (Regular data mode) \<Rightarrow>
           if length data > limit then io_error (FileTooLarge name limit)
           else io_return (data, \<lparr>snap_exists = True, snap_hash = sha256 data, snap_mode = mode\<rparr>)
       | Some _ \<Rightarrow> io_error (TargetNotRegular name)))"

fun verify_names ::
    "(string \<Rightarrow> string) \<Rightarrow> file_snapshot gomap \<Rightarrow> string list \<Rightarrow> unit io" where
  "verify_names sha256 snaps [] = io_return ()"
| "verify_names sha256 snaps (name # names) =
     io_bind (read_snapshot sha256 '''' name max_tracked_bytes) (\<lambda>(_, actual).
       if actual \<noteq> the (map_of snaps name) then io_error (ChangedAfterPlanning name)
       else verify_names sha256 snaps names)"

definition verify_snapshots :: "(string \<Rightarrow> string) \<Rightarrow> file_snapshot gomap \<Rightarrow> unit io" where
  "verify_snapshots sha256 snaps = verify_names sha256 snaps (sorted_keys snaps)"

subsection \<open>Reasoning about runs\<close>

text \<open>
  \<open>wp m Q E w\<close>: a run of \<open>m\<close> from \<open>w\<close> ends with a value and a world that satisfy \<open>Q\<close>, or with an
  error and a world that satisfy \<open>E\<close>. The rules compute it along the program.
\<close>

named_theorems io_wp "weakest preconditions of file operations"

definition wp :: "'a io \<Rightarrow> ('a \<Rightarrow> world \<Rightarrow> bool) \<Rightarrow> (apply_error \<Rightarrow> world \<Rightarrow> bool) \<Rightarrow> world \<Rightarrow> bool" where
  "wp m Q E w \<longleftrightarrow> (case m w of (Inl e, w') \<Rightarrow> E e w' | (Inr a, w') \<Rightarrow> Q a w')"

definition step_tick :: "world \<Rightarrow> world" where
  "step_tick w = w\<lparr>w_tick := Suc (w_tick w)\<rparr>"

definition failing :: "world \<Rightarrow> bool" where
  "failing w \<longleftrightarrow> w_fails w (w_tick w)"

text \<open>A world in which no step fails and no test hook stops the run.\<close>

definition calm :: "world \<Rightarrow> bool" where
  "calm w \<longleftrightarrow> (\<forall>k. \<not> w_fails w k) \<and> (\<forall>p. \<not> w_stop w p)"

lemma calm_not_failing [simp]: "calm w \<Longrightarrow> \<not> failing w"
  by (simp add: calm_def failing_def)

lemma step_tick_simps [simp]:
  "w_fs (step_tick w) = w_fs w" "w_tick (step_tick w) = Suc (w_tick w)" "w_fails (step_tick w) = w_fails w"
  "w_nonce (step_tick w) = w_nonce w" "w_stop (step_tick w) = w_stop w" "calm (step_tick w) = calm w"
  by (simp_all add: step_tick_def calm_def)

lemma calm_fs [simp]: "calm (w\<lparr>w_fs := x\<rparr>) = calm w"
  by (simp add: calm_def)

lemma wp_return [io_wp]: "wp (io_return a) Q E w = Q a w"
  by (simp add: wp_def io_return_def)

lemma wp_error [io_wp]: "wp (io_error e) Q E w = E e w"
  by (simp add: wp_def io_error_def)

lemma wp_bind [io_wp]: "wp (io_bind m f) Q E w = wp m (\<lambda>a. wp (f a) Q E) E w"
  by (auto simp: wp_def io_bind_def split: prod.splits sum.splits)

lemma wp_check [io_wp]: "wp (io_check c) Q E w = (case c of None \<Rightarrow> Q () w | Some e \<Rightarrow> E e w)"
  by (cases c) (simp_all add: io_check_def io_wp)

lemma wp_pure [io_wp]: "wp (\<lambda>w. (Inr (f w), g w)) Q E w = Q (f w) (g w)"
  by (simp add: wp_def)

lemma wp_finally [io_wp]:
  "wp (io_finally m c) Q E w =
     wp m (\<lambda>a. wp c (\<lambda>_. Q a) E) (\<lambda>e. wp c (\<lambda>_. E e) (\<lambda>_. E e)) w"
  by (auto simp: wp_def io_finally_def split: prod.splits sum.splits)

lemma wp_attempt [io_wp]:
  "wp attempt Q E w = (if failing w then E (IoFails (w_tick w)) (step_tick w) else Q () (step_tick w))"
  by (simp add: wp_def attempt_def failing_def step_tick_def)

lemma wp_get_node [io_wp]:
  "wp (get_node p) Q E w =
     (if failing w then E (IoFails (w_tick w)) (step_tick w) else Q (map_of (w_fs w) p) (step_tick w))"
  by (simp add: get_node_def io_wp)

lemma wp_set_node [io_wp]:
  "wp (set_node p n) Q E w =
     (if failing w then E (IoFails (w_tick w)) (step_tick w)
      else Q () ((step_tick w)\<lparr>w_fs := AList.update p n (w_fs w)\<rparr>))"
  by (simp add: set_node_def io_wp)

lemma wp_delete_node [io_wp]:
  "wp (delete_node p) Q E w =
     (if failing w then E (IoFails (w_tick w)) (step_tick w)
      else Q () ((step_tick w)\<lparr>w_fs := AList.delete p (w_fs w)\<rparr>))"
  by (simp add: delete_node_def io_wp)

lemma wp_ignore_not_found [io_wp]:
  "wp (ignore_not_found m) Q E w = wp m Q (\<lambda>e w'. if (\<exists>p. e = NotFound p) then Q () w' else E e w') w"
  by (auto simp: wp_def ignore_not_found_def split: prod.splits sum.splits apply_error.splits)

lemma wp_if [io_wp]: "wp (if b then m else n) Q E w = (if b then wp m Q E w else wp n Q E w)"
  by simp

lemma wp_mono:
  "wp m Q E w \<Longrightarrow> (\<And>a w'. Q a w' \<Longrightarrow> Q' a w') \<Longrightarrow> (\<And>e w'. E e w' \<Longrightarrow> E' e w') \<Longrightarrow> wp m Q' E' w"
  by (auto simp: wp_def split: prod.splits sum.splits)

lemma wp_conj: "wp m Q E w \<Longrightarrow> wp m Q' E' w \<Longrightarrow> wp m (\<lambda>a w. Q a w \<and> Q' a w) (\<lambda>e w. E e w \<and> E' e w) w"
  by (auto simp: wp_def split: prod.splits sum.splits)

lemma wp_run: "wp m Q E w \<Longrightarrow> m w = (r, w') \<Longrightarrow> (case r of Inl e \<Rightarrow> E e w' | Inr a \<Rightarrow> Q a w')"
  by (auto simp: wp_def split: sum.splits)

subsection \<open>What reading a snapshot gives\<close>

definition disk_snapshot :: "(string \<Rightarrow> string) \<Rightarrow> node gomap \<Rightarrow> string \<Rightarrow> file_snapshot" where
  "disk_snapshot sha256 fs p =
     (case map_of fs p of
        Some (Regular data mode) \<Rightarrow> \<lparr>snap_exists = True, snap_hash = sha256 data, snap_mode = mode\<rparr>
      | _ \<Rightarrow> absent_file)"

text \<open>Only the clock moves.\<close>

definition same_world :: "world \<Rightarrow> world \<Rightarrow> bool" where
  "same_world w w' \<longleftrightarrow> (\<exists>t \<ge> w_tick w. w' = w\<lparr>w_tick := t\<rparr>)"

lemma same_world_refl [simp]: "same_world w w"
  unfolding same_world_def by (rule exI [of _ "w_tick w"]) simp

lemma same_world_trans [trans]: "same_world a b \<Longrightarrow> same_world b c \<Longrightarrow> same_world a c"
  unfolding same_world_def by (auto simp: exI [of _ "w_tick c"])

lemma same_world_step [simp]: "same_world w (step_tick w)"
  unfolding same_world_def by (rule exI [of _ "Suc (w_tick w)"]) (simp add: step_tick_def)

lemma same_world_simps:
  assumes "same_world w w'"
  shows "w_fs w' = w_fs w" "calm w' = calm w" "w_nonce w' = w_nonce w" "w_tick w \<le> w_tick w'"
    "w_fails w' = w_fails w" "w_stop w' = w_stop w"
  using assms by (auto simp: same_world_def calm_def)

lemma check_parts_reads:
  "wp (check_parts base ps) (\<lambda>_ w'. same_world w w') (\<lambda>_ w'. same_world w w') w"
proof (induction ps arbitrary: w)
  case Nil
  then show ?case by (simp add: io_wp)
next
  case (Cons p ps)
  have "wp (check_parts base ps) (\<lambda>_ w'. same_world w w') (\<lambda>_ w'. same_world w w') (step_tick w)"
    by (rule wp_mono [OF Cons.IH]) (auto intro: same_world_trans [OF same_world_step])
  then show ?case
    by (auto simp: io_wp split: option.splits node.splits)
qed

lemma check_file_path_reads:
  "wp (check_file_path base name) (\<lambda>_ w'. same_world w w') (\<lambda>_ w'. same_world w w') w"
  unfolding check_file_path_def io_wp using check_parts_reads by (auto split: option.splits)

lemma read_snapshot_spec:
  "wp (read_snapshot sha256 base name limit)
     (\<lambda>(d, s) w'. same_world w w' \<and> s = disk_snapshot sha256 (w_fs w) (root_path base name) \<and>
        (case map_of (w_fs w) (root_path base name) of
           None \<Rightarrow> d = '''' | Some (Regular data mode) \<Rightarrow> d = data \<and> length data \<le> limit | _ \<Rightarrow> False))
     (\<lambda>_ w'. same_world w w') w"
proof -
  have t: "same_world w w' \<Longrightarrow> same_world w (step_tick w')" for w'
    by (rule same_world_trans [OF _ same_world_step])
  show ?thesis
    unfolding read_snapshot_def check_file_target_def io_wp
    by (rule wp_mono [OF check_file_path_reads [of base name w]])
      (auto simp: io_wp disk_snapshot_def same_world_simps intro!: t split: option.splits node.splits)
qed

subsection \<open>transaction.go: a pending apply\<close>

definition transaction_path :: string where "transaction_path = ''.stego/transaction.yaml''"

definition pending_transaction :: "unit io" where
  "pending_transaction =
     io_bind (check_file_target '''' transaction_path) (\<lambda>_.
     io_bind (get_node transaction_path) (\<lambda>n.
       if n = None then io_return () else io_error (RecoveryRequired None)))"

lemma check_file_target_spec:
  "wp (check_file_target base name)
     (\<lambda>_ w'. same_world w w' \<and>
        (map_of (w_fs w) (root_path base name) = None \<or>
         (\<exists>d m. map_of (w_fs w) (root_path base name) = Some (Regular d m))))
     (\<lambda>_ w'. same_world w w') w"
proof -
  have t: "same_world w w' \<Longrightarrow> same_world w (step_tick w')" for w'
    by (rule same_world_trans [OF _ same_world_step])
  show ?thesis
    unfolding check_file_target_def io_wp
    by (rule wp_mono [OF check_file_path_reads [of base name w]])
      (auto simp: io_wp same_world_simps intro!: t split: option.splits node.splits)
qed

lemma pending_transaction_spec:
  "wp pending_transaction
     (\<lambda>_ w'. same_world w w' \<and> map_of (w_fs w) transaction_path = None) (\<lambda>_ w'. same_world w w') w"
proof -
  have t: "same_world w w' \<Longrightarrow> same_world w (step_tick w')" for w'
    by (rule same_world_trans [OF _ same_world_step])
  show ?thesis
    unfolding pending_transaction_def wp_bind
    by (rule wp_mono [OF check_file_target_spec]) (auto simp: io_wp same_world_simps intro!: t)
qed

lemma root_path_empty [simp]: "root_path '''' p = p"
  by (simp add: root_path_def)

subsection \<open>Reading that succeeds\<close>

text \<open>The parents of a name are directories or absent, and its file is absent or a regular file within
  the limit: then reading it succeeds in a calm world.\<close>

definition clear_path :: "node gomap \<Rightarrow> string \<Rightarrow> string \<Rightarrow> bool" where
  "clear_path fs base name \<longleftrightarrow> validate_path name = None \<and>
     (\<forall>p \<in> set (butlast (path_prefixes name)).
        map_of fs (root_path base p) = None \<or> map_of fs (root_path base p) = Some Dir)"

definition file_within :: "node gomap \<Rightarrow> string \<Rightarrow> nat \<Rightarrow> bool" where
  "file_within fs p limit \<longleftrightarrow>
     (case map_of fs p of None \<Rightarrow> True | Some (Regular data _) \<Rightarrow> length data \<le> limit | Some _ \<Rightarrow> False)"

lemma path_prefixes_last: "path_prefixes name \<noteq> [] \<and> last (path_prefixes name) = name"
proof -
  have "split_on slash name \<noteq> []" by simp
  then show ?thesis by (simp add: path_prefixes_def Let_def last_map)
qed

lemma check_parts_ok:
  assumes "calm w"
    and "\<forall>p \<in> set (butlast ps). map_of (w_fs w) (root_path base p) = None \<or> map_of (w_fs w) (root_path base p) = Some Dir"
    and "ps \<noteq> [] \<Longrightarrow> file_within (w_fs w) (root_path base (last ps)) limit"
  shows "wp (check_parts base ps) (\<lambda>_ w'. same_world w w') (\<lambda>_ _. False) w"
  using assms
proof (induction ps arbitrary: w)
  case Nil
  then show ?case by (simp add: io_wp)
next
  case (Cons p ps)
  show ?case
  proof (cases "ps = []")
    case True
    then show ?thesis using Cons.prems
      by (auto simp: io_wp file_within_def split: option.splits node.splits)
  next
    case False
    have "wp (check_parts base ps) (\<lambda>_ w'. same_world w w') (\<lambda>_ _. False) (step_tick w)"
      by (rule wp_mono [OF Cons.IH])
        (use Cons.prems False in \<open>auto intro: same_world_trans [OF same_world_step]\<close>)
    then show ?thesis using Cons.prems False by (auto simp: io_wp)
  qed
qed

lemma check_file_path_ok:
  assumes "calm w" "clear_path (w_fs w) base name" "file_within (w_fs w) (root_path base name) limit"
  shows "wp (check_file_path base name) (\<lambda>_ w'. same_world w w') (\<lambda>_ _. False) w"
  using assms path_prefixes_last [of name] check_parts_ok [OF assms(1), of "path_prefixes name" base limit]
  by (simp add: check_file_path_def io_wp clear_path_def)

lemma read_snapshot_ok:
  assumes "calm w" "clear_path (w_fs w) base name" "file_within (w_fs w) (root_path base name) limit"
  shows "wp (read_snapshot sha256 base name limit) (\<lambda>_ _. True) (\<lambda>_ _. False) w"
  unfolding read_snapshot_def check_file_target_def wp_bind
proof (rule wp_mono [OF check_file_path_ok [OF assms]], goal_cases)
  case (1 u w1)
  then have "w_fs w1 = w_fs w" "calm w1" using assms(1) by (simp_all add: same_world_simps)
  then show ?case
    using assms(3) by (cases "map_of (w_fs w) (root_path base name)")
      (auto simp: io_wp file_within_def split: node.splits)
qed simp

lemma read_snapshot_calm:
  assumes "calm w" "clear_path (w_fs w) base name" "file_within (w_fs w) (root_path base name) limit"
  shows "wp (read_snapshot sha256 base name limit)
     (\<lambda>(d, s) w'. same_world w w' \<and> s = disk_snapshot sha256 (w_fs w) (root_path base name) \<and>
        (case map_of (w_fs w) (root_path base name) of
           None \<Rightarrow> d = '''' | Some (Regular data mode) \<Rightarrow> d = data \<and> length data \<le> limit | _ \<Rightarrow> False))
     (\<lambda>_ _. False) w"
  by (rule wp_mono [OF wp_conj [OF read_snapshot_ok [OF assms] read_snapshot_spec]]) auto

end
