(* ===== verification/Service_Types.thy ===== *)
theory Service_Types
  imports Go_Time Registry_Model
begin

text \<open>
  \<open>internal/types\<close>: the records of a service declaration and its small value types, the stage of a
  component (\<open>stage.go\<close>) and the reference to a slot (\<open>slot_reference.go\<close>). A pointer that can be nil
  is an \<open>option\<close>.
\<close>

record field =
  fd_name :: string
  fd_type :: string
  fd_min_length :: "int option"
  fd_max_length :: "int option"
  fd_pattern :: string
  fd_min :: "string option"
  fd_max :: "string option"
  fd_unique :: bool
  fd_unique_composite :: "string list"
  fd_unique_when_live :: bool
  fd_optional :: bool
  fd_default :: any_value
  fd_values :: "string list"
  fd_computed :: bool
  fd_filled_by :: string
  fd_to :: string
  fd_unobserved :: "string option"
  fd_deleting :: "string option"

record entity =
  en_name :: string
  en_fields :: "field list"
  en_versioned :: bool
  en_generation_fields :: "string list"
  en_observations :: "string list gomap"
  en_conditions :: "string list gomap"
  en_cleanup_targets :: "string gomap"
  en_cleanup_owners :: "string list"

record collection =
  cl_name :: string
  cl_entity :: string
  cl_operations :: "string list"
  cl_scope :: "string gomap"
  cl_implicit :: "string gomap"
  cl_path_prefix :: string
  cl_upsert_key :: "string list"
  cl_concurrency :: string
  cl_patchable :: "string list"

record slot_declaration =
  sd_slot :: string
  sd_collection :: string
  sd_gate :: "string list"
  sd_chain :: "string list"
  sd_fan_out :: "string list"
  sd_short_circuit :: bool

record fill_module =
  fm_module :: string
  fm_reason :: string

record service_declaration =
  sv_component_namespaces :: "string gomap"
  sv_kind :: string
  sv_name :: string
  sv_archetype :: string
  sv_language :: string
  sv_base_path :: string
  sv_error_type_base :: string
  sv_entities :: "entity list"
  sv_collections :: "collection list"
  sv_slots :: "slot_declaration list"
  sv_mixins :: "string list"
  sv_overrides :: "any_value gomap"
  sv_fill_modules :: "fill_module list"

definition valid_field_types :: "string list" where
  "valid_field_types = [''string'', ''int32'', ''int64'', ''float'', ''double'', ''bool'', ''bytes'',
     ''timestamp'', ''enum'', ''ref'', ''jsonb'']"

definition valid_operations :: "string list" where
  "valid_operations = [''create'', ''read'', ''update'', ''delete'', ''list'', ''upsert'', ''patch'']"

definition valid_concurrency_modes :: "string list" where
  "valid_concurrency_modes = [''optimistic'']"

text \<open>A collection has one scope entry; of several, Go's map order decides, and the model takes the
  first of the list.\<close>

definition scope_field :: "collection \<Rightarrow> string" where
  "scope_field c = (case cl_scope c of [] \<Rightarrow> '''' | (k, _) # _ \<Rightarrow> k)"

definition parent_entity :: "collection \<Rightarrow> string" where
  "parent_entity c = (case cl_scope c of [] \<Rightarrow> '''' | (_, v) # _ \<Rightarrow> v)"

subsection \<open>stage.go and slot\_reference.go\<close>

definition parse_stage :: "string \<Rightarrow> string option" where
  "parse_stage s = (if s = ''alpha'' \<or> s = ''beta'' \<or> s = ''ga'' then Some s else None)"

record slot_ref =
  sr_component :: string
  sr_slot :: string

text \<open>\<open>strings.Cut\<close> at the first occurrence of a character.\<close>

fun cut_at :: "char \<Rightarrow> string \<Rightarrow> (string \<times> string) option" where
  "cut_at c [] = None"
| "cut_at c (x # xs) = (if x = c then Some ([], xs) else map_option (\<lambda>(a, b). (x # a, b)) (cut_at c xs))"

definition parse_slot_ref :: "string \<Rightarrow> slot_ref option" where
  "parse_slot_ref text =
     (case cut_at CHR ''.'' text of
        None \<Rightarrow> None
      | Some (component, slot) \<Rightarrow>
        if component = '''' \<or> slot = '''' \<or> CHR ''.'' \<in> set slot then None
        else Some \<lparr>sr_component = component, sr_slot = slot\<rparr>)"

definition show_slot_ref :: "slot_ref \<Rightarrow> string" where
  "show_slot_ref r = sr_component r @ ''.'' @ sr_slot r"

lemma cut_at_Some: "cut_at c s = Some (a, b) \<longleftrightarrow> s = a @ c # b \<and> c \<notin> set a"
proof (induction s arbitrary: a)
  case (Cons x xs)
  show ?case
  proof (cases a)
    case Nil
    then show ?thesis by auto
  next
    case (Cons y ys)
    then show ?thesis using Cons.IH [of ys] by (auto split: prod.splits)
  qed
qed simp

text \<open>C35. A slot reference and its text determine each other: a text parses exactly when it is two
  nonempty parts around one dot, and then it is the text of what was parsed.\<close>

theorem slot_ref_roundtrip:
  "parse_slot_ref text = Some r \<longleftrightarrow>
     text = show_slot_ref r \<and> sr_component r \<noteq> '''' \<and> sr_slot r \<noteq> '''' \<and>
     CHR ''.'' \<notin> set (sr_component r) \<and> CHR ''.'' \<notin> set (sr_slot r)"
proof
  assume "parse_slot_ref text = Some r"
  then show "text = show_slot_ref r \<and> sr_component r \<noteq> '''' \<and> sr_slot r \<noteq> '''' \<and>
     CHR ''.'' \<notin> set (sr_component r) \<and> CHR ''.'' \<notin> set (sr_slot r)"
    by (auto simp: parse_slot_ref_def show_slot_ref_def cut_at_Some split: option.splits if_splits)
next
  assume a: "text = show_slot_ref r \<and> sr_component r \<noteq> '''' \<and> sr_slot r \<noteq> '''' \<and>
     CHR ''.'' \<notin> set (sr_component r) \<and> CHR ''.'' \<notin> set (sr_slot r)"
  then have "cut_at CHR ''.'' text = Some (sr_component r, sr_slot r)"
    by (simp add: cut_at_Some show_slot_ref_def)
  with a show "parse_slot_ref text = Some r" by (simp add: parse_slot_ref_def)
qed

end
