(* ===== verification/Plan.thy ===== *)
theory Plan
  imports Project_Files Service_Types
begin

text \<open>
  \<open>computePlan\<close>, \<open>computeEntityChanges\<close> and the plan's queries of \<open>internal/compiler/reconciler.go\<close>,
  drift detection (\<open>drift.go\<close>) and the saved plan (\<open>saved_plan.go\<close>). The YAML text of a field and of
  a state is an argument.
\<close>

datatype file_action = ActionGenerate | ActionUpdate | ActionUnchanged | ActionDelete

record planned_file =
  pf_path :: string
  pf_action :: file_action

record entity_change =
  ec_entity :: string
  ec_added :: "string list"
  ec_removed :: "string list"
  ec_modified :: "string list"

record saved_plan_file =
  sf_path :: string
  sf_action :: file_action
  sf_file_sha256 :: string

record saved_plan =
  sl_version :: int
  sl_base_record :: string
  sl_service_hash :: string
  sl_registry_content :: string
  sl_compiler_build :: build_record
  sl_output_dir :: string
  sl_record :: string
  sl_files :: "saved_plan_file list"

record plan =
  pl_files :: "planned_file list"
  pl_entity_changes :: "entity_change list"
  pl_generated :: "gen_file list"
  pl_new_state :: state
  pl_state_changed :: bool
  pl_hand_edited :: "string list"
  pl_replace_hand_edits :: bool
  pl_saved :: "saved_plan option"
  pl_manifest_sha :: string
  pl_registry :: "string option" \<comment> \<open>the content hash of the registry that was read\<close>
  pl_requirements :: "string gomap"
  pl_snapshots :: "file_snapshot gomap"
  pl_project_dir :: string
  pl_out_dir :: string

definition has_output_changes :: "plan \<Rightarrow> bool" where
  "has_output_changes p \<longleftrightarrow>
     pl_entity_changes p \<noteq> [] \<or> list_ex (\<lambda>f. pf_action f \<noteq> ActionUnchanged) (pl_files p)"

definition has_changes :: "plan \<Rightarrow> bool" where
  "has_changes p \<longleftrightarrow> pl_state_changed p \<or> has_output_changes p"

definition refuse_hand_edits :: "plan \<Rightarrow> apply_error option" where
  "refuse_hand_edits p =
     (if pl_hand_edited p = [] \<or> pl_replace_hand_edits p then None else Some (HandEdits (pl_hand_edited p)))"

subsection \<open>Entity changes\<close>

definition field_descriptor :: "string \<Rightarrow> string \<Rightarrow> string" where
  "field_descriptor name typ = name @ '' ('' @ typ @ '')''"

text \<open>The arrow between two types, in UTF-8.\<close>

definition type_arrow :: string where
  "type_arrow = '' '' @ map char_of [226 :: nat, 134, 146] @ '' ''"

text \<open>The last entry of a name wins, as when the code fills its map.\<close>

definition old_field :: "entity_field_state list \<Rightarrow> string \<Rightarrow> entity_field_state option" where
  "old_field old name = find (\<lambda>f. ef_name f = name) (rev old)"

definition added_fields :: "entity_field_state list \<Rightarrow> field list \<Rightarrow> string list" where
  "added_fields old new =
     map (\<lambda>f. field_descriptor (fd_name f) (fd_type f))
       (filter (\<lambda>f. old_field old (fd_name f) = None) new)"

definition modified_field :: "(field \<Rightarrow> string) \<Rightarrow> entity_field_state list \<Rightarrow> field \<Rightarrow> string option" where
  "modified_field field_hash old f =
     (case old_field old (fd_name f) of
        None \<Rightarrow> None
      | Some o1 \<Rightarrow>
        if field_hash f = ef_hash o1 then None
        else if fd_type f \<noteq> ef_type o1
        then Some (field_descriptor (fd_name f) (ef_type o1 @ type_arrow @ fd_type f))
        else Some (field_descriptor (fd_name f) (fd_type f)))"

definition removed_fields :: "entity_field_state list \<Rightarrow> string list \<Rightarrow> string list" where
  "removed_fields old names =
     map (\<lambda>f. field_descriptor (ef_name f) (ef_type f)) (filter (\<lambda>f. ef_name f \<notin> set names) old)"

definition entity_change_of ::
    "(field \<Rightarrow> string) \<Rightarrow> entity_field_state list gomap \<Rightarrow> entity \<Rightarrow> entity_change option" where
  "entity_change_of field_hash old e =
     (case map_of old (en_name e) of
        None \<Rightarrow>
          (let added = map (\<lambda>f. field_descriptor (fd_name f) (fd_type f)) (en_fields e) in
           if added = [] then None
           else Some \<lparr>ec_entity = en_name e, ec_added = added, ec_removed = [], ec_modified = []\<rparr>)
      | Some recorded \<Rightarrow>
          (let added = added_fields recorded (en_fields e);
               modified = List.map_filter (modified_field field_hash recorded) (en_fields e);
               removed = removed_fields recorded (map fd_name (en_fields e))
           in if added = [] \<and> removed = [] \<and> modified = [] then None
              else Some \<lparr>ec_entity = en_name e, ec_added = added, ec_removed = removed,
                         ec_modified = modified\<rparr>))"

definition deleted_entities :: "entity_field_state list gomap \<Rightarrow> entity list \<Rightarrow> string list" where
  "deleted_entities old entities = filter (\<lambda>n. n \<notin> set (map en_name entities)) (sorted_keys old)"

definition compute_entity_changes ::
    "(field \<Rightarrow> string) \<Rightarrow> entity list \<Rightarrow> state \<Rightarrow> entity_change list" where
  "compute_entity_changes field_hash entities existing =
     (case Option.bind (state_last existing) la_entities of
        None \<Rightarrow> []
      | Some old \<Rightarrow>
          List.map_filter (entity_change_of field_hash old) entities @
          map (\<lambda>n. \<lparr>ec_entity = n, ec_added = [],
                     ec_removed = map (\<lambda>f. field_descriptor (ef_name f) (ef_type f)) (the (map_of old n)),
                     ec_modified = []\<rparr>)
            (deleted_entities old entities))"


subsection \<open>computePlan\<close>

text \<open>What the code takes from outside: the hash, \<open>strings.ToLower\<close>, the YAML text of a field and of
  a state, the build record of the running compiler and \<open>filepath.Abs\<close>.\<close>

record plan_env =
  pe_sha256 :: "string \<Rightarrow> string"
  pe_lower :: "string \<Rightarrow> string"
  pe_field_yaml :: "field \<Rightarrow> string"
  pe_state_yaml :: "state \<Rightarrow> string"
  pe_build :: build_record
  pe_abs :: "string \<Rightarrow> string"

definition field_hash :: "plan_env \<Rightarrow> field \<Rightarrow> string" where
  "field_hash env f = pe_sha256 env (pe_field_yaml env f)"

text \<open>0644; the code takes 0666 on Windows.\<close>

definition default_output_mode :: "32 word" where "default_output_mode = 420"

record planning =
  pn_planned :: "planned_file list"
  pn_hashes :: "string gomap"
  pn_snapshots :: "file_snapshot gomap"
  pn_manifest :: "input_manifest option"

definition file_action_for :: "file_snapshot \<Rightarrow> string \<Rightarrow> file_action" where
  "file_action_for snap hash =
     (if \<not> snap_exists snap then ActionGenerate
      else if snap_hash snap = hash then ActionUnchanged else ActionUpdate)"

text \<open>The module file that the run writes is an input that the record names as the run leaves it.\<close>

definition record_module ::
    "(string \<Rightarrow> string) \<Rightarrow> string \<Rightarrow> string \<Rightarrow> file_snapshot \<Rightarrow> string \<Rightarrow> file_action
      \<Rightarrow> input_manifest option \<Rightarrow> input_manifest option" where
  "record_module sha256 path name snap hash action manifest =
     (case manifest of
        None \<Rightarrow> None
      | Some m \<Rightarrow>
        if is_project_root_file path \<and> action \<noteq> ActionUnchanged then
          (let mode = (if snap_exists snap then mode_perm (snap_mode snap) else default_output_mode);
               m1 = m\<lparr>im_files := AList.update name
                       \<lparr>if_exists = True, if_sha256 = hash, if_mode = mode\<rparr> (im_files m)\<rparr>
           in Some (m1\<lparr>im_sha256 := manifest_digest sha256 m1\<rparr>))
        else Some m)"

fun plan_generated :: "plan_env \<Rightarrow> string \<Rightarrow> gen_file list \<Rightarrow> planning \<Rightarrow> planning io" where
  "plan_generated env relative [] acc = io_return acc"
| "plan_generated env relative (f # fs) acc =
     (let content = file_bytes f; hash = pe_sha256 env content; path = gf_path f;
          name = project_file_path relative path
      in if length content > max_tracked_bytes then io_error (FileTooLarge path max_tracked_bytes)
      else io_bind (read_snapshot (pe_sha256 env) '''' name max_tracked_bytes) (\<lambda>(_, snap).
        (let action = file_action_for snap hash in
         plan_generated env relative fs
           \<lparr>pn_planned = pn_planned acc @ [\<lparr>pf_path = path, pf_action = action\<rparr>],
            pn_hashes = (if is_project_root_file path then pn_hashes acc
                         else AList.update path hash (pn_hashes acc)),
            pn_snapshots = AList.update name snap (pn_snapshots acc),
            pn_manifest = record_module (pe_sha256 env) path name snap hash action (pn_manifest acc)\<rparr>)))"

text \<open>Files that the record lists and that are no longer generated.\<close>

fun plan_orphans :: "plan_env \<Rightarrow> string \<Rightarrow> string list \<Rightarrow> planning \<Rightarrow> planning io" where
  "plan_orphans env relative [] acc = io_return acc"
| "plan_orphans env relative (path # paths) acc =
     (if is_project_root_file path \<or> map_of (pn_hashes acc) path \<noteq> None
      then plan_orphans env relative paths acc
      else let name = project_file_path relative path in
        io_bind (read_snapshot (pe_sha256 env) '''' name max_tracked_bytes) (\<lambda>(_, snap).
          plan_orphans env relative paths
            (acc\<lparr>pn_planned := pn_planned acc @ [\<lparr>pf_path = path, pf_action = ActionDelete\<rparr>],
                 pn_snapshots := AList.update name snap (pn_snapshots acc)\<rparr>)))"

fun find_hand_edits ::
    "plan_env \<Rightarrow> string \<Rightarrow> string gomap \<Rightarrow> file_snapshot gomap \<Rightarrow> string list \<Rightarrow> string list io" where
  "find_hand_edits env relative recorded snaps [] = io_return []"
| "find_hand_edits env relative recorded snaps (path # paths) =
     (if is_project_root_file path then find_hand_edits env relative recorded snaps paths
      else let name = project_file_path relative path in
        io_bind (case map_of snaps name of
                   Some snap \<Rightarrow> io_return snap
                 | None \<Rightarrow> io_bind (read_snapshot (pe_sha256 env) '''' name max_tracked_bytes)
                             (\<lambda>(_, snap). io_return snap)) (\<lambda>snap.
        io_bind (find_hand_edits env relative recorded snaps paths) (\<lambda>rest.
          io_return (if \<not> snap_exists snap \<or> snap_hash snap \<noteq> the (map_of recorded path)
                     then path # rest else rest))))"

definition entity_snapshot :: "plan_env \<Rightarrow> entity list \<Rightarrow> entity_field_state list gomap" where
  "entity_snapshot env entities =
     fold (\<lambda>e m. AList.update (en_name e)
             (map (\<lambda>f. \<lparr>ef_name = fd_name f, ef_type = fd_type f, ef_hash = field_hash env f\<rparr>) (en_fields e)) m)
       entities []"

record plan_input =
  pi_generated :: "gen_file list"
  pi_existing :: state
  pi_service_data :: string
  pi_service_name :: string
  pi_entities :: "entity list"
  pi_pins :: "component_state gomap"
  pi_out_dir :: string
  pi_project_dir :: string
  pi_registry_sha :: string
  pi_registry_content :: string
  pi_manifest :: "input_manifest option"

definition recorded_files :: "state \<Rightarrow> string gomap" where
  "recorded_files s = (case state_last s of None \<Rightarrow> [] | Some la \<Rightarrow> la_files la)"

definition new_state :: "plan_env \<Rightarrow> plan_input \<Rightarrow> planning \<Rightarrow> state" where
  "new_state env inp acc =
     \<lparr>state_format = state_format_version,
      state_last = Some
        \<lparr>la_inputs = pn_manifest acc, la_compiler_build = Some (pe_build env),
         la_service_name = pi_service_name inp,
         la_service_hash = pe_sha256 env (pi_service_data inp),
         la_registry_sha = pi_registry_sha inp, la_registry_content = pi_registry_content inp,
         la_components = pi_pins inp, la_entities = Some (entity_snapshot env (pi_entities inp)),
         la_files = pn_hashes acc\<rparr>\<rparr>"

definition compute_plan :: "plan_env \<Rightarrow> plan_input \<Rightarrow> plan io" where
  "compute_plan env inp =
     (case output_relative (pe_lower env) (pi_project_dir inp) (pi_out_dir inp) of
        Inl e \<Rightarrow> io_error (BadOutDir e)
      | Inr relative \<Rightarrow>
        (let recorded = recorded_files (pi_existing inp); paths = remdups (map fst recorded) in
         io_bind (plan_generated env relative (pi_generated inp)
                    \<lparr>pn_planned = [], pn_hashes = [], pn_snapshots = [], pn_manifest = pi_manifest inp\<rparr>) (\<lambda>acc1.
         io_bind (plan_orphans env relative paths acc1) (\<lambda>acc.
         io_bind (find_hand_edits env relative recorded (pn_snapshots acc) paths) (\<lambda>edits.
         io_bind (io_check (map_option TransactionLayout
                    (validate_file_layout (pe_lower env) (sorted_keys (pn_snapshots acc))))) (\<lambda>_.
         io_return
           \<lparr>pl_files = sort_key pf_path (pn_planned acc),
            pl_entity_changes = compute_entity_changes (field_hash env) (pi_entities inp) (pi_existing inp),
            pl_generated = pi_generated inp,
            pl_new_state = new_state env inp acc,
            pl_state_changed = (pe_state_yaml env (pi_existing inp) \<noteq> pe_state_yaml env (new_state env inp acc)),
            pl_hand_edited = sort edits,
            pl_replace_hand_edits = False,
            pl_saved = None, pl_manifest_sha = '''', pl_registry = None, pl_requirements = [],
            pl_snapshots = pn_snapshots acc,
            pl_project_dir = pe_abs env (pi_project_dir inp),
            pl_out_dir = pe_abs env (pi_out_dir inp)\<rparr>))))))"

subsection \<open>What a plan says\<close>

definition disk_file :: "plan_env \<Rightarrow> string \<Rightarrow> node gomap \<Rightarrow> string \<Rightarrow> file_snapshot" where
  "disk_file env relative fs path = disk_snapshot (pe_sha256 env) fs (project_file_path relative path)"

definition planned_of :: "plan_env \<Rightarrow> string \<Rightarrow> node gomap \<Rightarrow> gen_file \<Rightarrow> planned_file" where
  "planned_of env relative fs f =
     \<lparr>pf_path = gf_path f,
      pf_action = file_action_for (disk_file env relative fs (gf_path f)) (pe_sha256 env (file_bytes f))\<rparr>"

definition generated_hashes :: "plan_env \<Rightarrow> gen_file list \<Rightarrow> string gomap \<Rightarrow> string gomap" where
  "generated_hashes env =
     fold (\<lambda>f m. if is_project_root_file (gf_path f) then m
                 else AList.update (gf_path f) (pe_sha256 env (file_bytes f)) m)"

definition true_snapshots :: "plan_env \<Rightarrow> node gomap \<Rightarrow> file_snapshot gomap \<Rightarrow> bool" where
  "true_snapshots env fs snaps \<longleftrightarrow>
     (\<forall>n s. map_of snaps n = Some s \<longrightarrow> s = disk_snapshot (pe_sha256 env) fs n)"

lemma true_snapshots_update:
  "true_snapshots env fs snaps \<Longrightarrow> s = disk_snapshot (pe_sha256 env) fs n \<Longrightarrow>
    true_snapshots env fs (AList.update n s snaps)"
  by (simp add: true_snapshots_def)

lemma plan_generated_spec:
  assumes "true_snapshots env (w_fs w) (pn_snapshots acc)"
  shows "wp (plan_generated env relative fs acc)
    (\<lambda>acc' w'. same_world w w' \<and>
       pn_planned acc' = pn_planned acc @ map (planned_of env relative (w_fs w)) fs \<and>
       pn_hashes acc' = generated_hashes env fs (pn_hashes acc) \<and>
       true_snapshots env (w_fs w) (pn_snapshots acc') \<and>
       dom (map_of (pn_snapshots acc')) =
         dom (map_of (pn_snapshots acc)) \<union> (\<lambda>f. project_file_path relative (gf_path f)) ` set fs)
    (\<lambda>_ w'. same_world w w') w"
  using assms
proof (induction fs arbitrary: acc w)
  case Nil
  then show ?case by (simp add: io_wp generated_hashes_def)
next
  case (Cons f fs)
  let ?name = "project_file_path relative (gf_path f)"
  let ?hash = "pe_sha256 env (file_bytes f)"
  define acc1 where "acc1 snap = \<lparr>pn_planned = pn_planned acc @
        [\<lparr>pf_path = gf_path f, pf_action = file_action_for snap ?hash\<rparr>],
      pn_hashes = (if is_project_root_file (gf_path f) then pn_hashes acc
                   else AList.update (gf_path f) ?hash (pn_hashes acc)),
      pn_snapshots = AList.update ?name snap (pn_snapshots acc),
      pn_manifest = record_module (pe_sha256 env) (gf_path f) ?name snap ?hash
        (file_action_for snap ?hash) (pn_manifest acc)\<rparr>" for snap
  show ?case
  proof (cases "length (file_bytes f) > max_tracked_bytes")
    case True
    then show ?thesis by (simp add: io_wp Let_def)
  next
    case False
    have "wp (plan_generated env relative fs (acc1 snap))
        (\<lambda>acc' w'. same_world w w' \<and>
           pn_planned acc' = pn_planned acc @ map (planned_of env relative (w_fs w)) (f # fs) \<and>
           pn_hashes acc' = generated_hashes env (f # fs) (pn_hashes acc) \<and>
           true_snapshots env (w_fs w) (pn_snapshots acc') \<and>
           dom (map_of (pn_snapshots acc')) =
             dom (map_of (pn_snapshots acc)) \<union> (\<lambda>f. project_file_path relative (gf_path f)) ` set (f # fs))
        (\<lambda>_ w'. same_world w w') w1"
      if w1: "same_world w w1" and snap: "snap = disk_snapshot (pe_sha256 env) (w_fs w) ?name" for snap w1
    proof -
      have "true_snapshots env (w_fs w1) (pn_snapshots (acc1 snap))"
        using Cons.prems snap by (simp add: acc1_def same_world_simps [OF w1] true_snapshots_update)
      from Cons.IH [OF this] show ?thesis
        by (rule wp_mono)
          (auto simp: acc1_def same_world_simps [OF w1] planned_of_def disk_file_def snap generated_hashes_def
            intro: same_world_trans [OF w1])
    qed
    then show ?thesis
      using False unfolding plan_generated.simps Let_def if_not_P [OF False] acc1_def [symmetric] wp_bind
      by (intro wp_mono [OF read_snapshot_spec]) (auto split: prod.splits)
  qed
qed

definition orphans :: "string gomap \<Rightarrow> string list \<Rightarrow> string list" where
  "orphans hashes paths = filter (\<lambda>p. \<not> is_project_root_file p \<and> map_of hashes p = None) paths"

lemma plan_orphans_spec:
  assumes "true_snapshots env (w_fs w) (pn_snapshots acc)"
  shows "wp (plan_orphans env relative paths acc)
    (\<lambda>acc' w'. same_world w w' \<and>
       pn_planned acc' = pn_planned acc @
         map (\<lambda>p. \<lparr>pf_path = p, pf_action = ActionDelete\<rparr>) (orphans (pn_hashes acc) paths) \<and>
       pn_hashes acc' = pn_hashes acc \<and> true_snapshots env (w_fs w) (pn_snapshots acc') \<and>
       dom (map_of (pn_snapshots acc')) = dom (map_of (pn_snapshots acc)) \<union>
         project_file_path relative ` set (orphans (pn_hashes acc) paths) \<and>
       pn_manifest acc' = pn_manifest acc)
    (\<lambda>_ w'. same_world w w') w"
  using assms
proof (induction paths arbitrary: acc w)
  case Nil
  then show ?case by (simp add: io_wp orphans_def)
next
  case (Cons p paths)
  show ?case
  proof (cases "is_project_root_file p \<or> map_of (pn_hashes acc) p \<noteq> None")
    case True
    with Cons show ?thesis by (auto simp: orphans_def)
  next
    case False
    define acc1 where "acc1 snap = acc\<lparr>pn_planned := pn_planned acc @ [\<lparr>pf_path = p, pf_action = ActionDelete\<rparr>],
        pn_snapshots := AList.update (project_file_path relative p) snap (pn_snapshots acc)\<rparr>" for snap
    have "wp (plan_orphans env relative paths (acc1 snap))
      (\<lambda>acc' w'. same_world w w' \<and>
         pn_planned acc' = pn_planned acc @
           map (\<lambda>p. \<lparr>pf_path = p, pf_action = ActionDelete\<rparr>) (orphans (pn_hashes acc) (p # paths)) \<and>
         pn_hashes acc' = pn_hashes acc \<and> true_snapshots env (w_fs w) (pn_snapshots acc') \<and>
         dom (map_of (pn_snapshots acc')) = dom (map_of (pn_snapshots acc)) \<union>
           project_file_path relative ` set (orphans (pn_hashes acc) (p # paths)) \<and>
         pn_manifest acc' = pn_manifest acc)
      (\<lambda>_ w'. same_world w w') w1"
      if w1: "same_world w w1" and snap: "snap = disk_snapshot (pe_sha256 env) (w_fs w) (project_file_path relative p)"
      for snap w1
    proof -
      have "true_snapshots env (w_fs w1) (pn_snapshots (acc1 snap))"
        using Cons.prems snap by (simp add: acc1_def same_world_simps [OF w1] true_snapshots_update)
      from Cons.IH [OF this] show ?thesis
        by (rule wp_mono)
          (use False in \<open>auto simp: acc1_def same_world_simps [OF w1] orphans_def
            intro: same_world_trans [OF w1]\<close>)
    qed
    then show ?thesis
      unfolding plan_orphans.simps Let_def if_not_P [OF False] acc1_def [symmetric] wp_bind
      by (intro wp_mono [OF read_snapshot_spec]) (auto split: prod.splits)
  qed
qed

definition edited :: "plan_env \<Rightarrow> string \<Rightarrow> node gomap \<Rightarrow> string gomap \<Rightarrow> string \<Rightarrow> bool" where
  "edited env relative fs recorded p \<longleftrightarrow>
     \<not> is_project_root_file p \<and>
     (let s = disk_file env relative fs p in \<not> snap_exists s \<or> snap_hash s \<noteq> the (map_of recorded p))"

lemma find_hand_edits_spec:
  assumes "true_snapshots env (w_fs w) snaps"
  shows "wp (find_hand_edits env relative recorded snaps paths)
    (\<lambda>edits w'. same_world w w' \<and> edits = filter (edited env relative (w_fs w) recorded) paths)
    (\<lambda>_ w'. same_world w w') w"
  using assms
proof (induction paths arbitrary: w)
  case Nil
  then show ?case by (simp add: io_wp)
next
  case (Cons p paths)
  show ?case
  proof (cases "is_project_root_file p")
    case True
    with Cons show ?thesis by (simp add: edited_def)
  next
    case False
    let ?name = "project_file_path relative p"
    have rest: "wp (io_bind (find_hand_edits env relative recorded snaps paths) (\<lambda>rest.
          io_return (if \<not> snap_exists snap \<or> snap_hash snap \<noteq> the (map_of recorded p) then p # rest else rest)))
        (\<lambda>edits w'. same_world w w' \<and> edits = filter (edited env relative (w_fs w) recorded) (p # paths))
        (\<lambda>_ w'. same_world w w') w1"
      if w1: "same_world w w1" and snap: "snap = disk_snapshot (pe_sha256 env) (w_fs w) ?name" for snap w1
    proof -
      have e: "edited env relative (w_fs w) recorded p \<longleftrightarrow>
          \<not> snap_exists snap \<or> snap_hash snap \<noteq> the (map_of recorded p)"
        using False by (simp add: edited_def disk_file_def snap Let_def)
      have "true_snapshots env (w_fs w1) snaps" using Cons.prems by (simp add: same_world_simps [OF w1])
      from Cons.IH [OF this] show ?thesis
        unfolding wp_bind wp_return
        by (rule wp_mono)
          (auto simp: same_world_simps [OF w1] e intro: same_world_trans [OF w1])
    qed
    show ?thesis
    proof (cases "map_of snaps ?name")
      case None
      then show ?thesis
        unfolding find_hand_edits.simps Let_def if_not_P [OF False] wp_bind None option.case
        by (intro wp_mono [OF read_snapshot_spec])
          (use rest in \<open>auto simp: io_wp split: prod.splits\<close>)
    next
      case (Some s)
      then have "s = disk_snapshot (pe_sha256 env) (w_fs w) ?name"
        using Cons.prems by (simp add: true_snapshots_def)
      with rest [OF same_world_refl this] Some False show ?thesis by (simp add: io_wp Let_def)
    qed
  qed
qed


lemma generated_hashes_get:
  "map_of (generated_hashes env fs m) p =
     (if is_project_root_file p then map_of m p
      else case find (\<lambda>f. gf_path f = p) (rev fs) of
        Some f \<Rightarrow> Some (pe_sha256 env (file_bytes f)) | None \<Rightarrow> map_of m p)"
proof (induction fs arbitrary: m)
  case Nil
  then show ?case by (simp add: generated_hashes_def)
next
  case (Cons f fs)
  have "generated_hashes env (f # fs) m = generated_hashes env fs
      (if is_project_root_file (gf_path f) then m else AList.update (gf_path f) (pe_sha256 env (file_bytes f)) m)"
    by (simp add: generated_hashes_def)
  moreover have "find P (xs @ [y]) = (case find P xs of Some x \<Rightarrow> Some x | None \<Rightarrow> if P y then Some y else None)"
    for P xs and y :: gen_file
    by (induction xs) auto
  ultimately show ?case by (auto simp: Cons.IH split: option.splits)
qed

lemma generated_hashes_dom:
  "p \<in> dom (map_of (generated_hashes env fs [])) \<longleftrightarrow> \<not> is_project_root_file p \<and> p \<in> gf_path ` set fs"
proof -
  have "(find (\<lambda>f. gf_path f = p) (rev fs) \<noteq> None) \<longleftrightarrow> p \<in> gf_path ` set fs"
    by (auto simp: find_None_iff)
  then show ?thesis by (auto simp: generated_hashes_get domIff split: option.splits)
qed

lemma orphans_generated:
  "set (orphans (generated_hashes env fs []) paths) =
    {p \<in> set paths. \<not> is_project_root_file p \<and> p \<notin> gf_path ` set fs}"
proof -
  have "map_of (generated_hashes env fs []) p = None \<longleftrightarrow> is_project_root_file p \<or> p \<notin> gf_path ` set fs" for p
    using generated_hashes_dom [of p env fs] unfolding domIff by blast
  then show ?thesis unfolding orphans_def set_filter by blast
qed

lemma compute_plan_spec:
  "wp (compute_plan env inp)
    (\<lambda>p w'. same_world w w' \<and>
      (\<exists>relative acc. output_relative (pe_lower env) (pi_project_dir inp) (pi_out_dir inp) = Inr relative \<and>
         pl_files p = sort_key pf_path
           (map (planned_of env relative (w_fs w)) (pi_generated inp) @
            map (\<lambda>p. \<lparr>pf_path = p, pf_action = ActionDelete\<rparr>)
              (orphans (generated_hashes env (pi_generated inp) [])
                (remdups (map fst (recorded_files (pi_existing inp)))))) \<and>
         pl_hand_edited p = sort (filter (edited env relative (w_fs w) (recorded_files (pi_existing inp)))
           (remdups (map fst (recorded_files (pi_existing inp))))) \<and>
         pl_generated p = pi_generated inp \<and>
         pl_new_state p = new_state env inp acc \<and>
         pn_hashes acc = generated_hashes env (pi_generated inp) [] \<and>
         pl_snapshots p = pn_snapshots acc \<and> true_snapshots env (w_fs w) (pn_snapshots acc) \<and>
         validate_file_layout (pe_lower env) (sorted_keys (pl_snapshots p)) = None))
    (\<lambda>_ w'. same_world w w') w"
proof (cases "output_relative (pe_lower env) (pi_project_dir inp) (pi_out_dir inp)")
  case (Inl e)
  then show ?thesis by (simp add: compute_plan_def io_wp)
next
  case (Inr relative)
  have t0: "true_snapshots env (w_fs w) (pn_snapshots \<lparr>pn_planned = [], pn_hashes = [], pn_snapshots = [],
      pn_manifest = pi_manifest inp\<rparr>)" by (simp add: true_snapshots_def)
  show ?thesis
    unfolding compute_plan_def Inr sum.case Let_def wp_bind
  proof (rule wp_mono [OF plan_generated_spec [OF t0]], goal_cases)
    case g: (1 acc1 w1)
    then have w1: "same_world w w1" by blast
    have t1: "true_snapshots env (w_fs w1) (pn_snapshots acc1)" using g by (simp add: same_world_simps [OF w1])
    show ?case
    proof (rule wp_mono [OF plan_orphans_spec [OF t1]], goal_cases)
      case o: (1 acc w2)
      then have w2: "same_world w w2" using same_world_trans [OF w1] by blast
      have t2: "true_snapshots env (w_fs w2) (pn_snapshots acc)"
        using o by (simp add: same_world_simps [OF w1] same_world_simps [OF w2])
      show ?case
      proof (rule wp_mono [OF find_hand_edits_spec [OF t2]], goal_cases)
        case h: (1 edits w3)
        then have w3: "same_world w w3" using same_world_trans [OF w2] by blast
        show ?case
          unfolding wp_check wp_return
          using g o h w3 by (auto simp: Inr same_world_simps [OF w1] same_world_simps [OF w2] split: option.splits)
      next
        case (2 e w3)
        then show ?case using same_world_trans [OF w2] by blast
      qed
    next
      case (2 e w2)
      then show ?case using same_world_trans [OF w1] by blast
    qed
  qed
qed


subsection \<open>A plan is made\<close>

definition readable :: "string \<Rightarrow> node gomap \<Rightarrow> string \<Rightarrow> bool" where
  "readable relative fs p \<longleftrightarrow> clear_path fs '''' (project_file_path relative p) \<and>
     file_within fs (project_file_path relative p) max_tracked_bytes"

lemma read_readable:
  assumes "calm w" "readable relative (w_fs w) p"
  shows "wp (read_snapshot sha256 '''' (project_file_path relative p) max_tracked_bytes)
    (\<lambda>_ w'. calm w' \<and> w_fs w' = w_fs w) (\<lambda>_ _. False) w"
  by (rule wp_mono [OF read_snapshot_calm]) (use assms in \<open>auto simp: readable_def same_world_simps\<close>)

lemma plan_generated_ok:
  assumes "calm w"
    and "\<forall>f \<in> set fs. readable relative (w_fs w) (gf_path f) \<and> length (file_bytes f) \<le> max_tracked_bytes"
  shows "wp (plan_generated env relative fs acc) (\<lambda>_ w'. calm w' \<and> w_fs w' = w_fs w) (\<lambda>_ _. False) w"
  using assms
proof (induction fs arbitrary: acc w)
  case Nil
  then show ?case by (simp add: io_wp)
next
  case (Cons f fs)
  then have r: "readable relative (w_fs w) (gf_path f)" and l: "\<not> length (file_bytes f) > max_tracked_bytes"
    by auto
  show ?case
    unfolding plan_generated.simps Let_def if_not_P [OF l] wp_bind
    by (rule wp_mono [OF read_readable [OF Cons.prems(1) r]])
      (use Cons in \<open>auto split: prod.splits intro!: wp_mono [OF Cons.IH]\<close>)
qed

lemma plan_orphans_ok:
  assumes "calm w" and "\<forall>p \<in> set paths. \<not> is_project_root_file p \<longrightarrow> readable relative (w_fs w) p"
  shows "wp (plan_orphans env relative paths acc) (\<lambda>_ w'. calm w' \<and> w_fs w' = w_fs w) (\<lambda>_ _. False) w"
  using assms
proof (induction paths arbitrary: acc w)
  case Nil
  then show ?case by (simp add: io_wp)
next
  case (Cons p paths)
  show ?case
  proof (cases "is_project_root_file p \<or> map_of (pn_hashes acc) p \<noteq> None")
    case True
    with Cons show ?thesis by auto
  next
    case False
    with Cons.prems have r: "readable relative (w_fs w) p" by auto
    show ?thesis
      unfolding plan_orphans.simps Let_def if_not_P [OF False] wp_bind
      by (rule wp_mono [OF read_readable [OF Cons.prems(1) r]])
        (use Cons in \<open>auto split: prod.splits intro!: wp_mono [OF Cons.IH]\<close>)
  qed
qed

lemma find_hand_edits_ok:
  assumes "calm w" and "\<forall>p \<in> set paths. \<not> is_project_root_file p \<longrightarrow> readable relative (w_fs w) p"
  shows "wp (find_hand_edits env relative recorded snaps paths)
    (\<lambda>_ w'. calm w' \<and> w_fs w' = w_fs w) (\<lambda>_ _. False) w"
  using assms
proof (induction paths arbitrary: w)
  case Nil
  then show ?case by (simp add: io_wp)
next
  case (Cons p paths)
  show ?case
  proof (cases "is_project_root_file p")
    case True
    with Cons show ?thesis by auto
  next
    case False
    with Cons.prems have r: "readable relative (w_fs w) p" by auto
    have rest: "wp (find_hand_edits env relative recorded snaps paths)
        (\<lambda>_ w'. calm w' \<and> w_fs w' = w_fs w) (\<lambda>_ _. False) w1"
      if "calm w1" "w_fs w1 = w_fs w" for w1
      using Cons.IH [of w1] Cons.prems that by auto
    show ?thesis
      unfolding find_hand_edits.simps Let_def if_not_P [OF False]
      by (cases "map_of snaps (project_file_path relative p)")
        (auto simp: io_wp split: prod.splits intro!: wp_mono [OF read_readable [OF Cons.prems(1) r]]
          wp_mono [OF rest] Cons.prems(1))
  qed
qed

lemma sorted_keys_list: "sorted_keys m = sorted_list_of_set (dom (map_of m))"
  by (simp add: sorted_keys_def sorted_list_of_set_sort_remdups [symmetric] dom_map_of_conv_image_fst)

definition planned_paths :: "plan_input \<Rightarrow> string set" where
  "planned_paths inp = gf_path ` set (pi_generated inp) \<union>
     {p \<in> keys_of (recorded_files (pi_existing inp)). \<not> is_project_root_file p}"

lemma compute_plan_ok:
  assumes "calm w" "output_relative (pe_lower env) (pi_project_dir inp) (pi_out_dir inp) = Inr relative"
    and "\<forall>p \<in> planned_paths inp. readable relative (w_fs w) p"
    and "\<forall>f \<in> set (pi_generated inp). length (file_bytes f) \<le> max_tracked_bytes"
    and "validate_file_layout (pe_lower env)
      (sorted_list_of_set (project_file_path relative ` planned_paths inp)) = None"
  shows "wp (compute_plan env inp) (\<lambda>_ w'. w_fs w' = w_fs w) (\<lambda>_ _. False) w"
proof -
  let ?acc0 = "\<lparr>pn_planned = [], pn_hashes = [], pn_snapshots = [], pn_manifest = pi_manifest inp\<rparr>"
  let ?paths = "remdups (map fst (recorded_files (pi_existing inp)))"
  have t0: "true_snapshots env (w_fs w) (pn_snapshots ?acc0)" by (simp add: true_snapshots_def)
  have g: "\<forall>f \<in> set (pi_generated inp). readable relative (w_fs w) (gf_path f) \<and>
      length (file_bytes f) \<le> max_tracked_bytes"
    and o: "\<forall>p \<in> set ?paths. \<not> is_project_root_file p \<longrightarrow> readable relative (w_fs w) p"
    using assms(3,4) by (auto simp: planned_paths_def keys_of_def)
  show ?thesis
    unfolding compute_plan_def assms(2) sum.case Let_def wp_bind
  proof (rule wp_mono [OF wp_conj [OF plan_generated_ok [OF assms(1) g] plan_generated_spec [OF t0]]], goal_cases)
    case g: (1 acc1 w1)
    then have w1: "calm w1" "w_fs w1 = w_fs w" by auto
    then have t1: "true_snapshots env (w_fs w1) (pn_snapshots acc1)" using g by simp
    show ?case
    proof (rule wp_mono [OF wp_conj [OF plan_orphans_ok [OF w1(1)] plan_orphans_spec [OF t1]]], goal_cases)
      case 1
      with o show ?case by (simp add: w1(2))
    next
      case r: (2 acc w2)
      then have w2: "calm w2" "w_fs w2 = w_fs w" using w1 by auto
      have "dom (map_of (pn_snapshots acc)) = project_file_path relative ` planned_paths inp"
      proof -
        have "dom (map_of (pn_snapshots acc)) = project_file_path relative `
            (gf_path ` set (pi_generated inp) \<union>
              {p \<in> set ?paths. \<not> is_project_root_file p \<and> p \<notin> gf_path ` set (pi_generated inp)})"
          using g r by (simp add: orphans_generated image_image image_Un)
        also have "\<dots> = project_file_path relative ` planned_paths inp"
          by (rule arg_cong [where f = "(`) (project_file_path relative)"])
            (auto simp: planned_paths_def keys_of_def)
        finally show ?thesis .
      qed
      then have l: "validate_file_layout (pe_lower env) (sorted_keys (pn_snapshots acc)) = None"
        using assms(5) by (simp add: sorted_keys_list)
      show ?case
      proof (rule wp_mono [OF find_hand_edits_ok [OF w2(1)]], goal_cases)
        case 1
        with o show ?case by (simp add: w2(2))
      qed (auto simp: wp_check wp_return l w2)
    qed auto
  qed auto
qed


text \<open>C28. When no step fails, every file that the plan names can be read (its parents are directories
  or absent, and it is absent or a regular file within the limit), the generated files are within the
  limit and their names form a layout without collisions, a plan is made.\<close>

theorem plan_is_made:
  assumes "calm w" "output_relative (pe_lower env) (pi_project_dir inp) (pi_out_dir inp) = Inr relative"
    and "\<forall>p \<in> planned_paths inp. readable relative (w_fs w) p"
    and "\<forall>f \<in> set (pi_generated inp). length (file_bytes f) \<le> max_tracked_bytes"
    and "validate_file_layout (pe_lower env)
      (sorted_list_of_set (project_file_path relative ` planned_paths inp)) = None"
  shows "\<exists>p w'. compute_plan env inp w = (Inr p, w')"
  using compute_plan_ok [OF assms] by (auto simp: wp_def split: prod.splits sum.splits)

definition quiet_world :: "node gomap \<Rightarrow> world" where
  "quiet_world fs = \<lparr>w_fs = fs, w_tick = 0, w_fails = \<lambda>_. False, w_nonce = \<lambda>_. ''n'', w_stop = \<lambda>_. False\<rparr>"

lemma quiet_world_simps [simp]: "calm (quiet_world fs)" "w_fs (quiet_world fs) = fs"
  by (simp_all add: quiet_world_def calm_def)

definition sample_env :: plan_env where
  "sample_env = \<lparr>pe_sha256 = sample_hash, pe_lower = lower_ascii, pe_field_yaml = fd_name,
     pe_state_yaml = \<lambda>s. replicate (length (recorded_files s)) CHR ''x'',
     pe_build = from_info sample_runtime (Some sample_info), pe_abs = \<lambda>p. p\<rparr>"

definition sample_generated :: gen_file where
  "sample_generated = \<lparr>gf_path = ''schema.sql'', gf_content = ''create table t ();''\<rparr>"

definition sample_plan_input :: plan_input where
  "sample_plan_input =
     \<lparr>pi_generated = [sample_generated], pi_existing = sample_state, pi_service_data = ''s'',
      pi_service_name = ''app'', pi_entities = [], pi_pins = [], pi_out_dir = ''/p/out'', pi_project_dir = ''/p'',
      pi_registry_sha = '''', pi_registry_content = '''', pi_manifest = None\<rparr>"

definition sample_files :: "node gomap" where
  "sample_files = [(''out'', Dir), (''out/internal'', Dir), (''out/internal/api'', Dir),
     (''out/internal/api/handler.go'', Regular ''package api'' 420)]"

lemma sample_planned: "planned_paths sample_plan_input = {''schema.sql'', ''internal/api/handler.go''}"
  by (auto simp: planned_paths_def sample_plan_input_def sample_generated_def recorded_files_def sample_state_def
      keys_of_def is_project_root_file_def)

lemma sample_relative:
  "output_relative (pe_lower sample_env) (pi_project_dir sample_plan_input) (pi_out_dir sample_plan_input) = Inr ''out''"
  by code_simp

lemma sample_readable: "\<forall>p \<in> planned_paths sample_plan_input. readable ''out'' sample_files p"
proof -
  have "list_all (\<lambda>p. clear_path sample_files '''' (project_file_path ''out'' p))
      [''schema.sql'', ''internal/api/handler.go'']" by code_simp
  moreover have "map_of sample_files (project_file_path ''out'' ''schema.sql'') = None"
    "map_of sample_files (project_file_path ''out'' ''internal/api/handler.go'') = Some (Regular ''package api'' 420)"
    by code_simp+
  ultimately show ?thesis
    unfolding sample_planned by (auto simp: readable_def file_within_def max_tracked_bytes_def)
qed

lemma sample_small: "\<forall>f \<in> set (pi_generated sample_plan_input). length (file_bytes f) \<le> max_tracked_bytes"
  by (auto simp: sample_plan_input_def sample_generated_def file_bytes_def max_tracked_bytes_def gen_header_def)

lemma sample_layout:
  "validate_file_layout (pe_lower sample_env)
     (sorted_list_of_set (project_file_path ''out'' ` planned_paths sample_plan_input)) = None"
proof -
  have "validate_file_layout lower_ascii (sorted_list_of_set
      (set (map (project_file_path ''out'') [''schema.sql'', ''internal/api/handler.go'']))) = None" by code_simp
  then show ?thesis by (simp add: sample_planned sample_env_def)
qed

theorem plan_is_made_witness:
  "\<exists>p w'. compute_plan sample_env sample_plan_input (quiet_world sample_files) = (Inr p, w')"
  using plan_is_made [of "quiet_world sample_files" sample_env sample_plan_input "''out''"]
    sample_relative sample_readable sample_small sample_layout by simp

lemma sample_plan_is_made:
  "\<exists>p w'. compute_plan sample_env sample_plan_input (quiet_world sample_files) = (Inr p, w')"
  using compute_plan_ok [of "quiet_world sample_files" sample_env sample_plan_input "''out''"]
    sample_relative sample_readable sample_small sample_layout
  by (auto simp: wp_def split: prod.splits sum.splits)


end
