(* ===== verification/Drift.thy ===== *)
theory Drift
  imports Plan
begin

text \<open>
  Drift detection (\<open>internal/compiler/drift.go\<close>): which generated files and recorded inputs differ on
  disk from the last apply. The saved plan (\<open>saved_plan.go\<close>) and when it still applies.
\<close>

subsection \<open>drift.go\<close>

record drift_result =
  dr_modified :: "string list"
  dr_deleted :: "string list"
  dr_inputs :: "string list"

definition has_drift :: "drift_result \<Rightarrow> bool" where
  "has_drift r \<longleftrightarrow> dr_modified r \<noteq> [] \<or> dr_deleted r \<noteq> [] \<or> dr_inputs r \<noteq> []"

fun drift_files ::
    "(string \<Rightarrow> string) \<Rightarrow> string \<Rightarrow> string gomap \<Rightarrow> string list \<Rightarrow> drift_result \<Rightarrow> drift_result io" where
  "drift_files sha256 relative recorded [] r = io_return r"
| "drift_files sha256 relative recorded (path # paths) r =
     io_bind (read_snapshot sha256 '''' (project_file_path relative path) max_tracked_bytes) (\<lambda>(_, snap).
       drift_files sha256 relative recorded paths
         (if \<not> snap_exists snap then r\<lparr>dr_deleted := dr_deleted r @ [path]\<rparr>
          else if snap_hash snap \<noteq> the (map_of recorded path) then r\<lparr>dr_modified := dr_modified r @ [path]\<rparr>
          else r))"

definition input_changed :: "file_snapshot \<Rightarrow> input_file \<Rightarrow> bool" where
  "input_changed snap recorded \<longleftrightarrow>
     snap_exists snap \<noteq> if_exists recorded \<or> snap_hash snap \<noteq> if_sha256 recorded \<or>
     mode_perm (snap_mode snap) \<noteq> if_mode recorded"

fun drift_inputs ::
    "(string \<Rightarrow> string) \<Rightarrow> input_file gomap \<Rightarrow> string list \<Rightarrow> drift_result \<Rightarrow> drift_result io" where
  "drift_inputs sha256 recorded [] r = io_return r"
| "drift_inputs sha256 recorded (name # names) r =
     (if is_project_root_file name then drift_inputs sha256 recorded names r
      else io_bind (read_snapshot sha256 '''' name max_tracked_bytes) (\<lambda>(_, snap).
        drift_inputs sha256 recorded names
          (if input_changed snap (the (map_of recorded name)) then r\<lparr>dr_inputs := dr_inputs r @ [name]\<rparr> else r)))"

definition state_path :: string where "state_path = ''.stego/state.yaml''"

definition detect_drift ::
    "plan_env \<Rightarrow> (string \<Rightarrow> state option) \<Rightarrow> string \<Rightarrow> string \<Rightarrow> drift_result io" where
  "detect_drift env decode project_dir out_dir =
     io_bind pending_transaction (\<lambda>_.
       (case output_relative (pe_lower env) project_dir
               (if out_dir = '''' then path_join [project_dir, ''out''] else out_dir) of
          Inl e \<Rightarrow> io_error (BadOutDir e)
        | Inr relative \<Rightarrow>
          io_bind (read_snapshot (pe_sha256 env) '''' state_path max_document_bytes) (\<lambda>(data, snap).
            if \<not> snap_exists snap then io_error NoStateRecord
            else (case decode_state (pe_sha256 env) decode data of
                Inl e \<Rightarrow> io_error (StateRefused e)
              | Inr s \<Rightarrow>
                (case state_last s of
                   None \<Rightarrow> io_error NoAppliedState
                 | Some la \<Rightarrow>
                   io_bind (drift_files (pe_sha256 env) relative (la_files la)
                              (filter (\<lambda>p. \<not> is_project_root_file p) (sorted_keys (la_files la)))
                              \<lparr>dr_modified = [], dr_deleted = [], dr_inputs = []\<rparr>) (\<lambda>r.
                     (case la_inputs la of
                        None \<Rightarrow> io_return r
                      | Some m \<Rightarrow>
                        drift_inputs (pe_sha256 env) (im_files m) (sorted_keys (im_files m)) r)))))))"

lemma drift_files_spec:
  "wp (drift_files sha256 relative recorded paths r)
     (\<lambda>r' w'. same_world w w' \<and> dr_inputs r' = dr_inputs r \<and>
        dr_deleted r' = dr_deleted r @
          filter (\<lambda>p. \<not> snap_exists (disk_snapshot sha256 (w_fs w) (project_file_path relative p))) paths \<and>
        dr_modified r' = dr_modified r @
          filter (\<lambda>p. let s = disk_snapshot sha256 (w_fs w) (project_file_path relative p) in
            snap_exists s \<and> snap_hash s \<noteq> the (map_of recorded p)) paths)
     (\<lambda>_ w'. same_world w w') w"
proof (induction paths arbitrary: r w)
  case Nil
  then show ?case by (simp add: io_wp)
next
  case (Cons p paths)
  let ?name = "project_file_path relative p"
  have "wp (drift_files sha256 relative recorded paths
        (if \<not> snap_exists snap then r\<lparr>dr_deleted := dr_deleted r @ [p]\<rparr>
         else if snap_hash snap \<noteq> the (map_of recorded p) then r\<lparr>dr_modified := dr_modified r @ [p]\<rparr> else r))
     (\<lambda>r' w'. same_world w w' \<and> dr_inputs r' = dr_inputs r \<and>
        dr_deleted r' = dr_deleted r @
          filter (\<lambda>p. \<not> snap_exists (disk_snapshot sha256 (w_fs w) (project_file_path relative p))) (p # paths) \<and>
        dr_modified r' = dr_modified r @
          filter (\<lambda>p. let s = disk_snapshot sha256 (w_fs w) (project_file_path relative p) in
            snap_exists s \<and> snap_hash s \<noteq> the (map_of recorded p)) (p # paths))
     (\<lambda>_ w'. same_world w w') w1"
    if w1: "same_world w w1" and snap: "snap = disk_snapshot sha256 (w_fs w) ?name" for snap w1
    by (rule wp_mono [OF Cons.IH])
      (auto simp: same_world_simps [OF w1] snap [symmetric] Let_def intro: same_world_trans [OF w1])
  then show ?case
    unfolding drift_files.simps wp_bind
    by (intro wp_mono [OF read_snapshot_spec]) (auto split: prod.splits)
qed

lemma drift_inputs_spec:
  "wp (drift_inputs sha256 recorded names r)
     (\<lambda>r' w'. same_world w w' \<and> dr_deleted r' = dr_deleted r \<and> dr_modified r' = dr_modified r \<and>
        dr_inputs r' = dr_inputs r @
          filter (\<lambda>n. \<not> is_project_root_file n \<and>
            input_changed (disk_snapshot sha256 (w_fs w) n) (the (map_of recorded n))) names)
     (\<lambda>_ w'. same_world w w') w"
proof (induction names arbitrary: r w)
  case Nil
  then show ?case by (simp add: io_wp)
next
  case (Cons n names)
  show ?case
  proof (cases "is_project_root_file n")
    case True
    with Cons show ?thesis by simp
  next
    case False
    have "wp (drift_inputs sha256 recorded names
          (if input_changed snap (the (map_of recorded n)) then r\<lparr>dr_inputs := dr_inputs r @ [n]\<rparr> else r))
       (\<lambda>r' w'. same_world w w' \<and> dr_deleted r' = dr_deleted r \<and> dr_modified r' = dr_modified r \<and>
          dr_inputs r' = dr_inputs r @
            filter (\<lambda>n. \<not> is_project_root_file n \<and>
              input_changed (disk_snapshot sha256 (w_fs w) n) (the (map_of recorded n))) (n # names))
       (\<lambda>_ w'. same_world w w') w1"
      if w1: "same_world w w1" and snap: "snap = disk_snapshot sha256 (w_fs w) n" for snap w1
      by (rule wp_mono [OF Cons.IH])
        (use False in \<open>auto simp: same_world_simps [OF w1] snap [symmetric] intro: same_world_trans [OF w1]\<close>)
    then show ?thesis
      using False unfolding drift_inputs.simps if_not_P [OF False] wp_bind
      by (intro wp_mono [OF read_snapshot_spec]) (auto split: prod.splits)
  qed
qed

definition drift_of :: "plan_env \<Rightarrow> string \<Rightarrow> node gomap \<Rightarrow> applied_state \<Rightarrow> drift_result" where
  "drift_of env relative fs la =
     (let files = filter (\<lambda>p. \<not> is_project_root_file p) (sorted_keys (la_files la)) in
      \<lparr>dr_modified = filter (\<lambda>p. let s = disk_file env relative fs p in
          snap_exists s \<and> snap_hash s \<noteq> the (map_of (la_files la) p)) files,
       dr_deleted = filter (\<lambda>p. \<not> snap_exists (disk_file env relative fs p)) files,
       dr_inputs = (case la_inputs la of None \<Rightarrow> [] | Some m \<Rightarrow>
         filter (\<lambda>n. \<not> is_project_root_file n \<and>
           input_changed (disk_snapshot (pe_sha256 env) fs n) (the (map_of (im_files m) n)))
           (sorted_keys (im_files m)))\<rparr>)"

lemma drift_tail:
  assumes "same_world w0 w" and "output_relative (pe_lower env) pd od = Inr relative"
  shows "wp (io_bind (drift_files (pe_sha256 env) relative (la_files la)
              (filter (\<lambda>p. \<not> is_project_root_file p) (sorted_keys (la_files la)))
              \<lparr>dr_modified = [], dr_deleted = [], dr_inputs = []\<rparr>) (\<lambda>r.
            (case la_inputs la of
               None \<Rightarrow> io_return r
             | Some m \<Rightarrow> drift_inputs (pe_sha256 env) (im_files m) (sorted_keys (im_files m)) r)))
     (\<lambda>r w'. same_world w0 w' \<and> r = drift_of env relative (w_fs w0) la) (\<lambda>_ w'. same_world w0 w') w"
  unfolding wp_bind
proof (rule wp_mono [OF drift_files_spec], goal_cases)
  case f: (1 r w1)
  then have w1: "same_world w0 w1" using same_world_trans [OF assms(1)] by blast
  show ?case
  proof (cases "la_inputs la")
    case None
    then show ?thesis
      using f w1 by (auto simp: io_wp drift_of_def disk_file_def same_world_simps [OF assms(1)] Let_def)
  next
    case (Some m)
    show ?thesis
      unfolding Some option.case
      by (rule wp_mono [OF drift_inputs_spec])
        (use f w1 Some in \<open>auto simp: drift_of_def disk_file_def same_world_simps [OF assms(1)]
          same_world_simps [OF w1] Let_def intro: same_world_trans [OF w1]\<close>)
  qed
next
  case (2 e w1)
  then show ?case using same_world_trans [OF assms(1)] by blast
qed

lemma detect_drift_spec:
  "wp (detect_drift env decode pd od)
     (\<lambda>r w'. same_world w w' \<and> map_of (w_fs w) transaction_path = None \<and>
        (\<exists>relative data mode s la.
           output_relative (pe_lower env) pd (if od = '''' then path_join [pd, ''out''] else od) = Inr relative \<and>
           map_of (w_fs w) state_path = Some (Regular data mode) \<and>
           decode_state (pe_sha256 env) decode data = Inr s \<and> state_last s = Some la \<and>
           r = drift_of env relative (w_fs w) la))
     (\<lambda>_ w'. same_world w w') w"
proof (cases "output_relative (pe_lower env) pd (if od = '''' then path_join [pd, ''out''] else od)")
  case (Inl e)
  show ?thesis
    unfolding detect_drift_def wp_bind Inl sum.case wp_error
    by (rule wp_mono [OF pending_transaction_spec]) auto
next
  case (Inr relative)
  show ?thesis
    unfolding detect_drift_def wp_bind Inr sum.case
  proof (rule wp_mono [OF pending_transaction_spec], goal_cases)
    case p: (1 u w1)
    then have w1: "same_world w w1" by blast
    show ?case
    proof (rule wp_mono [OF read_snapshot_spec], goal_cases)
      case r: (1 ds w2)
      obtain data snap where ds: "ds = (data, snap)" by (cases ds)
      have w2: "same_world w w2" using r w1 by (auto intro: same_world_trans)
      show ?case
      proof (cases "snap_exists snap")
        case False
        then show ?thesis using w2 by (simp add: ds io_wp)
      next
        case True
        then obtain mode where n: "map_of (w_fs w) state_path = Some (Regular data mode)"
          using r by (auto simp: ds disk_snapshot_def absent_file_def same_world_simps [OF w1]
              split: option.splits node.splits)
        show ?thesis
        proof (cases "decode_state (pe_sha256 env) decode data")
          case (Inl e)
          then show ?thesis using w2 True by (simp add: ds io_wp)
        next
          case s: (Inr s)
          show ?thesis
          proof (cases "state_last s")
            case None
            then show ?thesis using w2 True s by (simp add: ds io_wp)
          next
            case (Some la)
            show ?thesis
              using True unfolding ds prod.case s sum.case Some option.case
              by (simp only: if_not_P not_not if_False) (rule wp_mono [OF drift_tail [OF w2 Inr, of la]];
                  use p n s Some Inr in auto)
          qed
        qed
      qed
    next
      case (2 e w2)
      then show ?case using same_world_trans [OF w1] by blast
    qed
  qed auto
qed


text \<open>C30. The files that a plan names as edited by hand are exactly the generated files in which drift
  detection finds a difference, when both read the same disk and the plan is made against the state
  on it: what apply refuses to overwrite is what drift reports.\<close>

theorem hand_edits_are_drift:
  assumes "compute_plan env inp w = (Inr p, w1)"
    and "detect_drift env decode (pi_project_dir inp) (pi_out_dir inp) w = (Inr r, w2)"
    and "pi_out_dir inp \<noteq> ''''"
    and "\<And>data mode s. map_of (w_fs w) state_path = Some (Regular data mode) \<Longrightarrow>
      decode_state (pe_sha256 env) decode data = Inr s \<Longrightarrow> pi_existing inp = s"
  shows "set (pl_hand_edited p) = set (dr_modified r) \<union> set (dr_deleted r)"
proof -
  from wp_run [OF compute_plan_spec assms(1)] obtain relative where
    rel: "output_relative (pe_lower env) (pi_project_dir inp) (pi_out_dir inp) = Inr relative"
    and h: "pl_hand_edited p = sort (filter (edited env relative (w_fs w) (recorded_files (pi_existing inp)))
           (remdups (map fst (recorded_files (pi_existing inp)))))" by auto
  from wp_run [OF detect_drift_spec assms(2)] assms(3) rel obtain data mode s la where
    st: "map_of (w_fs w) state_path = Some (Regular data mode)"
      "decode_state (pe_sha256 env) decode data = Inr s" "state_last s = Some la"
    and r: "r = drift_of env relative (w_fs w) la" by auto
  have "recorded_files (pi_existing inp) = la_files la"
    using assms(4) [OF st(1,2)] st(3) by (simp add: recorded_files_def)
  then show ?thesis by (auto simp: h r drift_of_def edited_def Let_def)
qed

subsection \<open>Drift detection gives an answer\<close>

lemma drift_files_ok:
  assumes "calm w" and "\<forall>p \<in> set paths. readable relative (w_fs w) p"
  shows "wp (drift_files sha256 relative recorded paths r) (\<lambda>_ w'. calm w' \<and> w_fs w' = w_fs w) (\<lambda>_ _. False) w"
  using assms
proof (induction paths arbitrary: r w)
  case Nil
  then show ?case by (simp add: io_wp)
next
  case (Cons p paths)
  then have p: "readable relative (w_fs w) p" by simp
  show ?case
    unfolding drift_files.simps wp_bind
    by (rule wp_mono [OF read_readable [OF Cons.prems(1) p]])
      (use Cons in \<open>auto split: prod.splits intro!: wp_mono [OF Cons.IH]\<close>)
qed

lemma drift_inputs_ok:
  assumes "calm w" and "\<forall>n \<in> set names. \<not> is_project_root_file n \<longrightarrow>
      clear_path (w_fs w) '''' n \<and> file_within (w_fs w) n max_tracked_bytes"
  shows "wp (drift_inputs sha256 recorded names r) (\<lambda>_ w'. calm w' \<and> w_fs w' = w_fs w) (\<lambda>_ _. False) w"
  using assms
proof (induction names arbitrary: r w)
  case Nil
  then show ?case by (simp add: io_wp)
next
  case (Cons n names)
  show ?case
  proof (cases "is_project_root_file n")
    case True
    with Cons show ?thesis by simp
  next
    case False
    with Cons.prems have n: "clear_path (w_fs w) '''' n" "file_within (w_fs w) (root_path '''' n) max_tracked_bytes"
      by auto
    show ?thesis
      unfolding drift_inputs.simps if_not_P [OF False] wp_bind
      by (rule wp_mono [OF read_snapshot_calm [OF Cons.prems(1) n]])
        (use Cons in \<open>auto simp: same_world_simps split: prod.splits intro!: wp_mono [OF Cons.IH]\<close>)
  qed
qed

text \<open>What drift detection needs of the disk: no apply is pending, the output folder is a folder of the
  project, the state file holds the record \<open>la\<close> of an apply, and its files and inputs can be read.\<close>

definition drift_ready ::
    "plan_env \<Rightarrow> (string \<Rightarrow> state option) \<Rightarrow> string \<Rightarrow> string \<Rightarrow> node gomap \<Rightarrow> applied_state \<Rightarrow> bool" where
  "drift_ready env decode pd od fs la \<longleftrightarrow>
     clear_path fs '''' transaction_path \<and> map_of fs transaction_path = None \<and> clear_path fs '''' state_path \<and>
     (\<exists>relative data mode s.
        output_relative (pe_lower env) pd (if od = '''' then path_join [pd, ''out''] else od) = Inr relative \<and>
        map_of fs state_path = Some (Regular data mode) \<and> length data \<le> max_document_bytes \<and>
        decode_state (pe_sha256 env) decode data = Inr s \<and> state_last s = Some la \<and>
        (\<forall>p \<in> keys_of (la_files la). \<not> is_project_root_file p \<longrightarrow> readable relative fs p)) \<and>
     (\<forall>m. la_inputs la = Some m \<longrightarrow> (\<forall>n \<in> keys_of (im_files m). \<not> is_project_root_file n \<longrightarrow>
        clear_path fs '''' n \<and> file_within fs n max_tracked_bytes))"

lemma detect_drift_ok:
  assumes "calm w" and "drift_ready env decode pd od (w_fs w) la"
  shows "\<exists>r w'. detect_drift env decode pd od w = (Inr r, w')"
proof -
  from assms(2) obtain relative data mode s where
    t: "clear_path (w_fs w) '''' transaction_path" "map_of (w_fs w) transaction_path = None"
    and out: "output_relative (pe_lower env) pd (if od = '''' then path_join [pd, ''out''] else od) = Inr relative"
    and sp: "clear_path (w_fs w) '''' state_path"
    and st: "map_of (w_fs w) state_path = Some (Regular data mode)" "length data \<le> max_document_bytes"
    and dec: "decode_state (pe_sha256 env) decode data = Inr s" "state_last s = Some la"
    and fi: "\<forall>p \<in> keys_of (la_files la). \<not> is_project_root_file p \<longrightarrow> readable relative (w_fs w) p"
    and inp: "\<forall>m. la_inputs la = Some m \<longrightarrow> (\<forall>n \<in> keys_of (im_files m). \<not> is_project_root_file n \<longrightarrow>
      clear_path (w_fs w) '''' n \<and> file_within (w_fs w) n max_tracked_bytes)"
    unfolding drift_ready_def by blast
  have state: "file_within (w_fs w) (root_path '''' state_path) max_document_bytes"
    using st by (simp add: file_within_def)
  have files: "\<forall>p \<in> set (filter (\<lambda>p. \<not> is_project_root_file p) (sorted_keys (la_files la))). readable relative (w_fs w) p"
    using fi by (auto simp: keys_of_def)
  have tail: "wp (case la_inputs la of None \<Rightarrow> io_return r
       | Some m \<Rightarrow> drift_inputs (pe_sha256 env) (im_files m) (sorted_keys (im_files m)) r)
       (\<lambda>_ _. True) (\<lambda>_ _. False) w1" if "calm w1" "w_fs w1 = w_fs w" for r w1
  proof (cases "la_inputs la")
    case None
    then show ?thesis by (simp add: io_wp)
  next
    case (Some m)
    show ?thesis
      unfolding Some option.case
      by (rule wp_mono [OF drift_inputs_ok]) (use that inp Some in \<open>auto simp: keys_of_def\<close>)
  qed
  have pending: "wp pending_transaction (\<lambda>_ w'. calm w' \<and> w_fs w' = w_fs w) (\<lambda>_ _. False) w"
    unfolding pending_transaction_def check_file_target_def wp_bind
    by (rule wp_mono [OF check_file_path_ok [where limit = 0]])
      (use assms(1) t in \<open>auto simp: io_wp same_world_simps file_within_def\<close>)
  have "wp (detect_drift env decode pd od) (\<lambda>_ _. True) (\<lambda>_ _. False) w"
    unfolding detect_drift_def out sum.case wp_bind
  proof (rule wp_mono [OF pending], goal_cases)
    case (1 u w1)
    then have w1: "calm w1" "w_fs w1 = w_fs w" by auto
    show ?case
    proof (rule wp_mono [OF read_snapshot_calm [OF w1(1), of "''''" state_path]], goal_cases)
      case (3 ds w2)
      then have w2: "calm w2" "w_fs w2 = w_fs w" using w1 by (auto simp: same_world_simps split: prod.splits)
      obtain d snap where ds: "ds = (d, snap)" by (cases ds)
      have d: "d = data" "snap_exists snap" using 3 st(1) by (auto simp: ds w1(2) disk_snapshot_def)
      show ?case
        unfolding ds prod.case d(1) dec sum.case option.case
        by (simp add: d(2), unfold wp_bind, rule wp_mono [OF drift_files_ok])
          (use w2 files tail in auto)
    qed (use sp state w1 in auto)
  qed auto
  then show ?thesis by (auto simp: wp_def split: prod.splits sum.splits)
qed


text \<open>When no step fails and the disk holds the readable record of an apply and the files it names,
  drift detection gives an answer.\<close>

lemma drift_is_answered:
  assumes "calm w" and "drift_ready env decode pd od (w_fs w) la"
  shows "\<exists>r w'. detect_drift env decode pd od w = (Inr r, w')"
  by (rule detect_drift_ok [OF assms])

definition sample_project :: "node gomap" where
  "sample_project = (''.stego'', Dir) # (state_path, Regular ''state'' 420) # sample_files"

definition sample_decode :: "string \<Rightarrow> state option" where
  "sample_decode data = (if data = ''state'' then Some sample_state else None)"

lemma sample_drift_hyps:
  "clear_path sample_project '''' transaction_path" "map_of sample_project transaction_path = None"
  "output_relative (pe_lower sample_env) ''/p'' (if ''/p/out'' = '''' then path_join [''/p'', ''out''] else ''/p/out'') = Inr ''out''"
  "clear_path sample_project '''' state_path" "map_of sample_project state_path = Some (Regular ''state'' 420)"
  "decode_state (pe_sha256 sample_env) sample_decode ''state'' = Inr sample_state"
  "clear_path sample_project '''' (project_file_path ''out'' ''internal/api/handler.go'')"
  "map_of sample_project (project_file_path ''out'' ''internal/api/handler.go'') = Some (Regular ''package api'' 420)"
  by code_simp+

definition sample_applied :: applied_state where
  "sample_applied = the (state_last sample_state)"

lemma sample_applied_simps: "state_last sample_state = Some sample_applied" "la_inputs sample_applied = None"
  "la_files sample_applied = [(''internal/api/handler.go'', ''00'')]"
  by (simp_all add: sample_applied_def sample_state_def)

lemma sample_applied_readable:
  "\<forall>p \<in> keys_of (la_files sample_applied). \<not> is_project_root_file p \<longrightarrow> readable ''out'' sample_project p"
  using sample_drift_hyps(7,8)
  by (simp add: sample_applied_simps keys_of_def readable_def file_within_def max_tracked_bytes_def)

lemma sample_ready: "drift_ready sample_env sample_decode ''/p'' ''/p/out'' sample_project sample_applied"
  unfolding drift_ready_def
  by (intro conjI exI [of _ "''out''"] exI [of _ "''state''"] exI [of _ 420] exI [of _ sample_state])
    (use sample_drift_hyps sample_applied_simps sample_applied_readable in \<open>simp_all add: max_document_bytes_def\<close>)

theorem drift_is_answered_witness:
  "\<exists>r w'. detect_drift sample_env sample_decode ''/p'' ''/p/out'' (quiet_world sample_project) = (Inr r, w')"
  by (rule drift_is_answered [where la = sample_applied]) (simp_all add: sample_ready)

lemma sample_drift_run:
  "\<exists>r w'. detect_drift sample_env sample_decode ''/p'' ''/p/out'' (quiet_world sample_project) = (Inr r, w')"
  by (rule detect_drift_ok [where la = sample_applied]) (simp_all add: sample_ready)

lemma sample_edit:
  "disk_file sample_env ''out'' sample_project ''internal/api/handler.go'' =
     \<lparr>snap_exists = True, snap_hash = sample_hash ''package api'', snap_mode = 420\<rparr>"
  "sample_hash ''package api'' \<noteq> ''00''" "\<not> is_project_root_file ''internal/api/handler.go''"
  by code_simp+


text \<open>The plan is made in the project of the recorded apply, that generates another file now.\<close>

lemma sample_project_readable: "\<forall>p \<in> planned_paths sample_plan_input. readable ''out'' sample_project p"
proof -
  have "clear_path sample_project '''' (project_file_path ''out'' ''schema.sql'')"
    "map_of sample_project (project_file_path ''out'' ''schema.sql'') = None"
    by code_simp+
  then show ?thesis
    using sample_drift_hyps(7,8) unfolding sample_planned
    by (simp add: readable_def file_within_def max_tracked_bytes_def)
qed

theorem hand_edits_are_drift_witness:
  "\<exists>p r w1 w2. compute_plan sample_env sample_plan_input (quiet_world sample_project) = (Inr p, w1) \<and>
     detect_drift sample_env sample_decode ''/p'' ''/p/out'' (quiet_world sample_project) = (Inr r, w2) \<and>
     set (pl_hand_edited p) = set (dr_modified r) \<union> set (dr_deleted r)"
proof -
  have "wp (compute_plan sample_env sample_plan_input) (\<lambda>_ _. True) (\<lambda>_ _. False) (quiet_world sample_project)"
    using compute_plan_ok [of "quiet_world sample_project" sample_env sample_plan_input "''out''"]
      sample_relative sample_project_readable sample_small sample_layout
    by (auto intro: wp_mono)
  then obtain p w1 where p: "compute_plan sample_env sample_plan_input (quiet_world sample_project) = (Inr p, w1)"
    by (auto simp: wp_def split: prod.splits sum.splits)
  obtain r w2 where "detect_drift sample_env sample_decode ''/p'' ''/p/out'' (quiet_world sample_project) = (Inr r, w2)"
    using sample_drift_run by blast
  then have d: "detect_drift sample_env sample_decode (pi_project_dir sample_plan_input) (pi_out_dir sample_plan_input)
      (quiet_world sample_project) = (Inr r, w2)"
    by (simp add: sample_plan_input_def)
  have "set (pl_hand_edited p) = set (dr_modified r) \<union> set (dr_deleted r)"
    by (rule hand_edits_are_drift [OF p d])
      (use sample_drift_hyps in \<open>auto simp: sample_plan_input_def\<close>)
  with p d show ?thesis by (auto simp: sample_plan_input_def)
qed

end
