(* ===== verification/Saved_Plan.thy ===== *)
theory Saved_Plan
  imports Drift
begin

text \<open>
  The saved plan of \<open>internal/compiler/saved_plan.go\<close>: its form, saving and reading it, and when it
  still applies. YAML coding of a saved plan is an argument.
\<close>

definition saved_plan_path :: string where "saved_plan_path = ''.stego/plan.yaml''"
definition saved_plan_version :: int where "saved_plan_version = 1"

text \<open>The hash of the content that the plan generates at a path: the last file of the path wins.\<close>

definition content_hashes :: "plan_env \<Rightarrow> gen_file list \<Rightarrow> string gomap" where
  "content_hashes env files =
     fold (\<lambda>f m. AList.update (gf_path f) (pe_sha256 env (file_bytes f)) m) files []"

definition map_get :: "string gomap \<Rightarrow> string \<Rightarrow> string" where
  "map_get m k = (case map_of m k of Some v \<Rightarrow> v | None \<Rightarrow> '''')"

definition saved_file :: "string gomap \<Rightarrow> planned_file \<Rightarrow> saved_plan_file option" where
  "saved_file contents f =
     (case pf_action f of
        ActionUnchanged \<Rightarrow> None
      | ActionDelete \<Rightarrow> Some \<lparr>sf_path = pf_path f, sf_action = ActionDelete, sf_file_sha256 = ''''\<rparr>
      | action \<Rightarrow> Some \<lparr>sf_path = pf_path f, sf_action = action, sf_file_sha256 = map_get contents (pf_path f)\<rparr>)"

definition new_saved_plan :: "plan_env \<Rightarrow> plan \<Rightarrow> (apply_error, saved_plan) result" where
  "new_saved_plan env p =
     (case state_last (pl_new_state p) of
        None \<Rightarrow> Inl PlanWithoutRecord
      | Some applied \<Rightarrow>
        (case la_compiler_build applied of
           None \<Rightarrow> Inl PlanWithoutRecord
         | Some build \<Rightarrow>
           bind_result
             (if pl_state_changed p
              then (case encode_state (pe_sha256 env) (pe_state_yaml env) (pl_new_state p) of
                      Inl e \<Rightarrow> Inl (StateRefused e)
                    | Inr record \<Rightarrow> Inr (pe_sha256 env record))
              else Inr '''') (\<lambda>record_hash.
             Inr \<lparr>sl_version = saved_plan_version,
                  sl_base_record = (case map_of (pl_snapshots p) state_path of
                    Some base \<Rightarrow> if snap_exists base then snap_hash base else '''' | None \<Rightarrow> ''''),
                  sl_service_hash = la_service_hash applied,
                  sl_registry_content = la_registry_content applied,
                  sl_compiler_build = build,
                  sl_output_dir = (case la_inputs applied of
                    None \<Rightarrow> '''' | Some m \<Rightarrow> io_output_dir (im_options m)),
                  sl_record = record_hash,
                  sl_files = List.map_filter (saved_file (content_hashes env (pl_generated p))) (pl_files p)\<rparr>)))"

definition plan_differences :: "saved_plan \<Rightarrow> saved_plan \<Rightarrow> string list" where
  "plan_differences saved current =
     (if sl_base_record saved \<noteq> sl_base_record current then [''the record''] else []) @
     (if sl_service_hash saved \<noteq> sl_service_hash current then [''the declaration''] else []) @
     (if sl_registry_content saved \<noteq> sl_registry_content current then [''the registry content''] else []) @
     (if sl_compiler_build saved \<noteq> sl_compiler_build current then [''the compiler''] else []) @
     (if sl_output_dir saved \<noteq> sl_output_dir current \<or> sl_record saved \<noteq> sl_record current \<or>
         sl_files saved \<noteq> sl_files current then [''the planned files''] else [])"

definition still_applies :: "plan_env \<Rightarrow> saved_plan \<Rightarrow> plan \<Rightarrow> apply_error option" where
  "still_applies env saved p =
     (case new_saved_plan env p of
        Inl e \<Rightarrow> Some e
      | Inr current \<Rightarrow>
        (let differences = plan_differences saved current in
         if differences = [] then None else Some (StalePlan differences)))"

definition use_saved_plan :: "saved_plan \<Rightarrow> plan \<Rightarrow> plan" where
  "use_saved_plan saved p = p\<lparr>pl_saved := Some saved\<rparr>"

definition save_plan :: "plan_env \<Rightarrow> (saved_plan \<Rightarrow> string) \<Rightarrow> plan \<Rightarrow> unit io" where
  "save_plan env yaml p =
     (case new_saved_plan env p of
        Inl e \<Rightarrow> io_error e
      | Inr saved \<Rightarrow>
        (let data = yaml saved in
         if length data > max_document_bytes then io_error SavedPlanTooLarge
         else io_bind pending_transaction (\<lambda>_. write_root_file_mode '''' saved_plan_path data 384)))"

definition load_plan :: "(string \<Rightarrow> string) \<Rightarrow> (string \<Rightarrow> saved_plan option) \<Rightarrow> saved_plan io" where
  "load_plan sha256 decode =
     io_bind (read_snapshot sha256 '''' saved_plan_path max_document_bytes) (\<lambda>(data, snapshot).
       if \<not> snap_exists snapshot then io_error NoSavedPlan
       else case decode data of
         None \<Rightarrow> io_error SavedPlanNotYaml
       | Some saved \<Rightarrow>
         if sl_version saved \<noteq> saved_plan_version then io_error (SavedPlanVersion (sl_version saved))
         else io_return saved)"

definition remove_saved_plan :: "unit io" where
  "remove_saved_plan = ignore_not_found (remove_node saved_plan_path)"

end
