(* ===== verification/Go_Base64.thy ===== *)
theory Go_Base64
  imports Stego_Prelude
begin

text \<open>
  What the journal of an apply uses of \<open>encoding/base64\<close>: the standard encoding with padding, and its
  strict decoder, which refuses non-zero trailing bits and, as all of the package, skips line ends.
\<close>

definition base64_alphabet :: string where
  "base64_alphabet = ''ABCDEFGHIJKLMNOPQRSTUVWXYZabcdefghijklmnopqrstuvwxyz0123456789+/''"

definition byte :: "char \<Rightarrow> nat" where "byte c = of_char c"

definition sextet :: "nat \<Rightarrow> char" where "sextet n = base64_alphabet ! n"

definition sextet_value :: "char \<Rightarrow> nat option" where
  "sextet_value = map_of (zip base64_alphabet [0..<64])"

fun base64_encode :: "string \<Rightarrow> string" where
  "base64_encode [] = []"
| "base64_encode [a] = [sextet (byte a div 4), sextet (byte a mod 4 * 16), CHR ''='', CHR ''='']"
| "base64_encode [a, b] =
     [sextet (byte a div 4), sextet (byte a mod 4 * 16 + byte b div 16), sextet (byte b mod 16 * 4), CHR ''='']"
| "base64_encode (a # b # c # rest) =
     [sextet (byte a div 4), sextet (byte a mod 4 * 16 + byte b div 16),
      sextet (byte b mod 16 * 4 + byte c div 64), sextet (byte c mod 64)] @ base64_encode rest"

fun base64_groups :: "string \<Rightarrow> string option" where
  "base64_groups [] = Some []"
| "base64_groups (w # x # y # z # rest) =
     (case (sextet_value w, sextet_value x) of
        (Some p, Some q) \<Rightarrow>
          if y = CHR ''='' then
            (if z = CHR ''='' \<and> rest = [] \<and> q mod 16 = 0 then Some [char_of (p * 4 + q div 16)] else None)
          else (case sextet_value y of
            None \<Rightarrow> None
          | Some s \<Rightarrow>
            if z = CHR ''='' then
              (if rest = [] \<and> s mod 4 = 0
               then Some [char_of (p * 4 + q div 16), char_of (q mod 16 * 16 + s div 4)] else None)
            else (case sextet_value z of
              None \<Rightarrow> None
            | Some t \<Rightarrow>
              map_option ((@) [char_of (p * 4 + q div 16), char_of (q mod 16 * 16 + s div 4),
                               char_of (s mod 4 * 64 + t)]) (base64_groups rest)))
      | _ \<Rightarrow> None)"
| "base64_groups _ = None"

definition base64_decode :: "string \<Rightarrow> string option" where
  "base64_decode s = base64_groups (filter (\<lambda>c. c \<noteq> CHR 0x0A \<and> c \<noteq> CHR 0x0D) s)"

text \<open>\<open>base64.StdEncoding.EncodedLen\<close>\<close>

definition base64_length :: "nat \<Rightarrow> nat" where "base64_length n = (n + 2) div 3 * 4"

lemma byte_less: "byte c < 256"
  by (simp add: byte_def)

lemma char_of_byte [simp]: "char_of (byte c) = c"
  by (simp add: byte_def)

lemma alphabet_facts: "length base64_alphabet = 64" "distinct base64_alphabet" "CHR ''='' \<notin> set base64_alphabet"
    "CHR 0x0A \<notin> set base64_alphabet" "CHR 0x0D \<notin> set base64_alphabet"
  by (simp_all add: base64_alphabet_def)

lemma sextet_value_sextet [simp]: "n < 64 \<Longrightarrow> sextet_value (sextet n) = Some n"
  using alphabet_facts(1,2) by (simp add: sextet_value_def sextet_def map_of_zip_nth)

lemma sextet_plain [simp]: "n < 64 \<Longrightarrow> sextet n \<noteq> CHR ''='' \<and> sextet n \<noteq> CHR 0x0A \<and> sextet n \<noteq> CHR 0x0D"
  using alphabet_facts by (metis nth_mem sextet_def)

lemma byte_parts [simp]:
  "byte a div 4 < 64" "byte a mod 4 * 16 < 64" "byte a mod 4 * 16 + byte b div 16 < 64"
  "byte b mod 16 * 4 < 64" "byte b mod 16 * 4 + byte c div 64 < 64" "byte c mod 64 < 64"
proof -
  have d: "byte a div 4 < 64" "byte b div 16 < 16" "byte c div 64 < 4"
    using byte_less [of a] byte_less [of b] byte_less [of c] by (simp_all add: less_mult_imp_div_less)
  have m: "byte a mod 4 < 4" "byte b mod 16 < 16" "byte c mod 64 < 64" by simp_all
  show "byte a div 4 < 64" "byte a mod 4 * 16 < 64" "byte a mod 4 * 16 + byte b div 16 < 64"
    "byte b mod 16 * 4 < 64" "byte b mod 16 * 4 + byte c div 64 < 64" "byte c mod 64 < 64"
    using d m by linarith+
qed

lemma split_join_bits:
  fixes k :: nat
  assumes "y < k" "0 < k"
  shows "(x * k + y) div k = x" "(x * k + y) mod k = y"
  using assms by simp_all

lemma byte_joins:
  "byte a div 4 * 4 + (byte a mod 4 * 16 + byte b div 16) div 16 = byte a"
  "byte a div 4 * 4 + (byte a mod 4 * 16) div 16 = byte a"
  "(byte a mod 4 * 16 + byte b div 16) mod 16 * 16 + (byte b mod 16 * 4 + byte c div 64) div 4 = byte b"
  "(byte a mod 4 * 16 + byte b div 16) mod 16 * 16 + (byte b mod 16 * 4) div 4 = byte b"
  "(byte b mod 16 * 4 + byte c div 64) mod 4 * 64 + byte c mod 64 = byte c"
proof -
  have d: "byte b div 16 < 16" "byte c div 64 < 4"
    using byte_less [of b] byte_less [of c] by (simp_all add: less_mult_imp_div_less)
  show "byte a div 4 * 4 + (byte a mod 4 * 16 + byte b div 16) div 16 = byte a"
    "byte a div 4 * 4 + (byte a mod 4 * 16) div 16 = byte a"
    "(byte a mod 4 * 16 + byte b div 16) mod 16 * 16 + (byte b mod 16 * 4 + byte c div 64) div 4 = byte b"
    "(byte a mod 4 * 16 + byte b div 16) mod 16 * 16 + (byte b mod 16 * 4) div 4 = byte b"
    "(byte b mod 16 * 4 + byte c div 64) mod 4 * 64 + byte c mod 64 = byte c"
    by (simp_all only: split_join_bits [OF d(1)] split_join_bits [OF d(2)] div_mult_mod_eq
        nonzero_mult_div_cancel_right zero_less_numeral zero_neq_numeral not_False_eq_True)
qed

lemma groups_encode: "base64_groups (base64_encode s) = Some s"
proof (induction s rule: base64_encode.induct)
  case (2 a)
  then show ?case by (simp only: base64_encode.simps base64_groups.simps sextet_value_sextet byte_parts) (simp add: byte_joins(2))
next
  case (3 a b)
  show ?case
    by (simp only: base64_encode.simps base64_groups.simps sextet_value_sextet byte_parts byte_joins
        sextet_plain option.case prod.case if_False) simp
next
  case (4 a b c rest)
  then show ?case
    by (simp only: base64_encode.simps base64_groups.simps sextet_value_sextet byte_parts byte_joins
        append_Cons append_Nil sextet_plain option.case prod.case if_False) simp
qed simp

lemma encode_no_line_end: "filter (\<lambda>c. c \<noteq> CHR 0x0A \<and> c \<noteq> CHR 0x0D) (base64_encode s) = base64_encode s"
  by (induction s rule: base64_encode.induct) simp_all

lemma base64_roundtrip [simp]: "base64_decode (base64_encode s) = Some s"
  by (simp add: base64_decode_def encode_no_line_end groups_encode)

lemma length_base64_encode: "length (base64_encode s) = base64_length (length s)"
proof (induction s rule: base64_encode.induct)
  case (4 a b c rest)
  have "(length (a # b # c # rest) + 2) div 3 = Suc ((length rest + 2) div 3)"
    using div_add_self2 [of 3 "length rest + 2"] by simp
  with 4 show ?case by (simp add: base64_length_def)
qed (simp_all add: base64_length_def)

lemma base64_length_mono: "m \<le> n \<Longrightarrow> base64_length m \<le> base64_length n"
  unfolding base64_length_def by (intro mult_le_mono1 div_le_mono) simp

end
