(* ===== verification/Journal.thy ===== *)
theory Journal
  imports Saved_Plan Go_Base64
begin

text \<open>
  The apply journal of \<open>internal/compiler/transaction.go\<close>: preparing a transaction from a plan,
  checking it, carrying it out, and completing one that a process left behind. With \<open>lock.go\<close>, the
  binding of inputs of \<open>snapshot.go\<close> and \<open>applyWithFault\<close> of \<open>reconciler.go\<close>.

  YAML coding is an argument. The hook that stops an apply at a named point is part of the world.
\<close>

subsection \<open>The record\<close>

record transaction_operation =
  op_path :: string
  op_before :: file_snapshot
  op_after :: file_snapshot
  op_data :: string

record transaction =
  tx_version :: int
  tx_output_dir :: string
  tx_expected :: "file_snapshot gomap"
  tx_operations :: "transaction_operation list"

definition max_transaction_bytes :: nat where "max_transaction_bytes = 134217728"
definition max_transaction_files :: nat where "max_transaction_files = 10000"

text \<open>What the journal takes from outside, beside the environment of a plan: the strict decoders, the
  text of a transaction, the running compiler's build record is the plan's, and the second read of the
  registry.\<close>

record apply_env =
  ae_plan :: plan_env
  ae_decode_state :: "string \<Rightarrow> state option"
  ae_tx_yaml :: "transaction \<Rightarrow> string"
  ae_tx_decode :: "string \<Rightarrow> transaction option"
  ae_registry_verify :: "unit io"

abbreviation ae_sha256 :: "apply_env \<Rightarrow> string \<Rightarrow> string" where
  "ae_sha256 env \<equiv> pe_sha256 (ae_plan env)"

definition valid_snapshot :: "file_snapshot \<Rightarrow> bool" where
  "valid_snapshot s \<longleftrightarrow>
     (if \<not> snap_exists s then s = absent_file
      else length (snap_hash s) = 64 \<and> mode_perm (snap_mode s) = snap_mode s \<and> list_all hex_lower (snap_hash s))"

definition validate_transaction_path :: "string \<Rightarrow> string \<Rightarrow> apply_error option" where
  "validate_transaction_path output_dir name =
     (case validate_path name of
        Some e \<Rightarrow> Some (BadName e)
      | None \<Rightarrow>
        if is_project_root_file name \<or> name = state_path then None
        else if \<not> has_prefix name (output_dir @ [slash]) then Some (OutsideOutput name)
        else map_option BadName (validate_path (trim_prefix name (output_dir @ [slash]))))"

subsection \<open>prepareTransaction\<close>

definition expected_snapshots :: "string \<Rightarrow> file_snapshot gomap \<Rightarrow> file_snapshot gomap" where
  "expected_snapshots output_dir snaps =
     filter (\<lambda>(name, _). is_project_root_file name \<or> name = state_path \<or> has_prefix name (output_dir @ [slash])) snaps"

fun collect_files ::
    "plan_env \<Rightarrow> string gomap \<Rightarrow> gen_file list \<Rightarrow> string gomap \<Rightarrow> (apply_error, string gomap) result" where
  "collect_files env hashes [] files = Inr files"
| "collect_files env hashes (f # fs) files =
     (let data = file_bytes f in
      if map_of files (gf_path f) \<noteq> None then Inl (DuplicateGenerated (gf_path f))
      else if \<not> is_project_root_file (gf_path f) \<and> map_get hashes (gf_path f) \<noteq> pe_sha256 env data
      then Inl (ContentNotInState (gf_path f))
      else collect_files env hashes fs (AList.update (gf_path f) data files))"

text \<open>The snapshot after a write: the permissions of the file that is replaced stay.\<close>

definition after_write :: "plan_env \<Rightarrow> file_snapshot \<Rightarrow> string \<Rightarrow> file_snapshot" where
  "after_write env before data =
     \<lparr>snap_exists = True, snap_hash = pe_sha256 env data,
      snap_mode = (if snap_exists before then mode_perm (snap_mode before) else default_output_mode)\<rparr>"

fun prepare_operations ::
    "plan_env \<Rightarrow> string \<Rightarrow> file_snapshot gomap \<Rightarrow> string gomap \<Rightarrow> planned_file list \<Rightarrow> nat
      \<Rightarrow> transaction_operation list \<Rightarrow> (apply_error, transaction_operation list \<times> nat) result" where
  "prepare_operations env relative expected files [] bytes ops = Inr (ops, bytes)"
| "prepare_operations env relative expected files (f # fs) bytes ops =
     (let name = project_file_path relative (pf_path f) in
      case map_of expected name of
        None \<Rightarrow> Inl (NoSnapshot name)
      | Some before \<Rightarrow>
        if pf_action f = ActionUnchanged then prepare_operations env relative expected files fs bytes ops
        else if pf_action f = ActionDelete then
          (if map_of files (pf_path f) \<noteq> None then Inl (DeletesGenerated name)
           else if \<not> snap_exists before then prepare_operations env relative expected files fs bytes ops
           else prepare_operations env relative expected files fs bytes
             (ops @ [\<lparr>op_path = name, op_before = before, op_after = absent_file, op_data = ''''\<rparr>]))
        else (case map_of files (pf_path f) of
            None \<Rightarrow> Inl (NoContent name)
          | Some data \<Rightarrow>
            if bytes + length data > max_tracked_bytes then Inl ContentLimit
            else prepare_operations env relative expected files fs (bytes + length data)
              (ops @ [\<lparr>op_path = name, op_before = before, op_after = after_write env before data,
                       op_data = base64_encode data\<rparr>])))"

definition snapshot_of :: "file_snapshot gomap \<Rightarrow> string \<Rightarrow> file_snapshot" where
  "snapshot_of m name = (case map_of m name of Some s \<Rightarrow> s | None \<Rightarrow> absent_file)"

definition prepare_transaction ::
    "plan_env \<Rightarrow> plan \<Rightarrow> string \<Rightarrow> (apply_error, transaction option) result" where
  "prepare_transaction env p relative =
     (case state_last (pl_new_state p) of
        None \<Rightarrow> Inl NoAppliedState
      | Some applied \<Rightarrow>
        (let expected = expected_snapshots relative (pl_snapshots p) in
         bind_result (collect_files env (la_files applied) (pl_generated p) []) (\<lambda>files.
         bind_result (prepare_operations env relative expected files (pl_files p) 0 []) (\<lambda>(ops, bytes).
           (case encode_state (pe_sha256 env) (pe_state_yaml env) (pl_new_state p) of
              Inl e \<Rightarrow> Inl (StateRefused e)
            | Inr data \<Rightarrow>
              (let before = snapshot_of expected state_path; after = after_write env before data in
               if ops = [] \<and> before = after then Inr None
               else if bytes + length data > max_tracked_bytes then Inl ContentLimit
               else Inr (Some \<lparr>tx_version = 1, tx_output_dir = relative, tx_expected = expected,
                  tx_operations = ops @ [\<lparr>op_path = state_path, op_before = before, op_after = after,
                                          op_data = base64_encode data\<rparr>]\<rparr>)))))))"

subsection \<open>validateTransaction\<close>

record tx_scan =
  ts_contents :: "string gomap"
  ts_final :: "file_snapshot gomap"
  ts_seen :: "string list"
  ts_total :: nat

definition operation_fault :: "transaction \<Rightarrow> string list \<Rightarrow> nat \<Rightarrow> transaction_operation \<Rightarrow> apply_error option" where
  "operation_fault tx seen index op =
     (case validate_transaction_path (tx_output_dir tx) (op_path op) of
        Some e \<Rightarrow> Some e
      | None \<Rightarrow>
        if op_path op \<in> set seen then Some (DuplicateTarget (op_path op))
        else if map_of (tx_expected tx) (op_path op) \<noteq> Some (op_before op)
        then Some (InconsistentSnapshot (op_path op))
        else if \<not> valid_snapshot (op_before op) \<or> \<not> valid_snapshot (op_after op)
        then Some (BadOperationSnapshot (op_path op))
        else if op_path op = state_path \<and> (Suc index \<noteq> length (tx_operations tx) \<or> \<not> snap_exists (op_after op))
        then Some StateNotLast
        else if is_project_root_file (op_path op) \<and> \<not> snap_exists (op_after op) then Some DeletesModule
        else None)"

definition operation_content ::
    "(string \<Rightarrow> string) \<Rightarrow> nat \<Rightarrow> transaction_operation \<Rightarrow> (apply_error, string) result" where
  "operation_content sha256 bytes op =
     (if length (op_data op) > base64_length max_tracked_bytes then Inl ContentLimit
      else case base64_decode (op_data op) of
        None \<Rightarrow> Inl (ContentHashMismatch (op_path op))
      | Some data \<Rightarrow>
        if sha256 data \<noteq> snap_hash (op_after op) then Inl (ContentHashMismatch (op_path op))
        else if bytes + length data > max_tracked_bytes then Inl ContentLimit else Inr data)"

fun scan_operations ::
    "(string \<Rightarrow> string) \<Rightarrow> transaction \<Rightarrow> nat \<Rightarrow> transaction_operation list \<Rightarrow> tx_scan
      \<Rightarrow> (apply_error, tx_scan) result" where
  "scan_operations sha256 tx index [] acc = Inr acc"
| "scan_operations sha256 tx index (op # ops) acc =
     (case operation_fault tx (ts_seen acc) index op of
        Some e \<Rightarrow> Inl e
      | None \<Rightarrow>
        (let acc1 = acc\<lparr>ts_seen := op_path op # ts_seen acc,
                        ts_final := AList.update (op_path op) (op_after op) (ts_final acc)\<rparr> in
         if snap_exists (op_after op) then
           bind_result (operation_content sha256 (ts_total acc) op) (\<lambda>data.
             scan_operations sha256 tx (Suc index) ops
               (acc1\<lparr>ts_contents := AList.update (op_path op) data (ts_contents acc),
                     ts_total := ts_total acc + length data\<rparr>))
         else if op_data op \<noteq> '''' then Inl DeletedHasContent
         else scan_operations sha256 tx (Suc index) ops acc1))"

definition expected_fault :: "transaction \<Rightarrow> string \<Rightarrow> apply_error option" where
  "expected_fault tx name =
     (case validate_transaction_path (tx_output_dir tx) name of
        Some e \<Rightarrow> Some e
      | None \<Rightarrow> if valid_snapshot (the (map_of (tx_expected tx) name)) then None
                else Some (BadExpectedSnapshot name))"

definition owned_file_fault ::
    "string \<Rightarrow> file_snapshot gomap \<Rightarrow> string gomap \<Rightarrow> string \<Rightarrow> apply_error option" where
  "owned_file_fault output_dir final files name =
     (if is_project_root_file name then Some StateOwnsModule
      else let path = output_dir @ slash # name; s = snapshot_of final path in
        if \<not> snap_exists s \<or> snap_hash s \<noteq> the (map_of files name) then Some (StateOutputMismatch path) else None)"

definition output_file_fault ::
    "string \<Rightarrow> file_snapshot gomap \<Rightarrow> string gomap \<Rightarrow> string \<Rightarrow> apply_error option" where
  "output_file_fault output_dir final files path =
     (if has_prefix path (output_dir @ [slash]) \<and> snap_exists (snapshot_of final path) \<and>
         map_get files (trim_prefix path (output_dir @ [slash])) \<noteq> snap_hash (snapshot_of final path)
      then Some (OutputNotTracked path) else None)"

definition transaction_head_fault :: "apply_env \<Rightarrow> transaction \<Rightarrow> string \<Rightarrow> apply_error option" where
  "transaction_head_fault env tx project_dir =
     (if tx_version tx \<noteq> 1 then Some (TransactionVersion (tx_version tx))
      else if \<not> valid_path (tx_output_dir tx) then Some TransactionOutputDir
      else case output_relative (pe_lower (ae_plan env)) project_dir (path_join [project_dir, tx_output_dir tx]) of
        Inl e \<Rightarrow> Some (BadOutDir e)
      | Inr _ \<Rightarrow>
        if tx_operations tx = [] \<or> length (tx_operations tx) > max_transaction_files \<or>
           card (keys_of (tx_expected tx)) > max_transaction_files
        then Some TransactionFileCount
        else or_else (first_error (expected_fault tx) (sorted_keys (tx_expected tx)))
          (map_option TransactionLayout
            (validate_file_layout (pe_lower (ae_plan env)) (sorted_keys (tx_expected tx)))))"

definition recorded_output_fault :: "apply_env \<Rightarrow> transaction \<Rightarrow> tx_scan \<Rightarrow> apply_error option" where
  "recorded_output_fault env tx scan =
     (case map_of (ts_contents scan) state_path of
        None \<Rightarrow> Some NoStateRecord
      | Some data \<Rightarrow>
        (case decode_state (ae_sha256 env) (ae_decode_state env) data of
           Inl e \<Rightarrow> Some (StateRefused e)
         | Inr s \<Rightarrow>
           (case state_last s of
              None \<Rightarrow> Some NoAppliedState
            | Some la \<Rightarrow>
              or_else (first_error (owned_file_fault (tx_output_dir tx) (ts_final scan) (la_files la))
                         (sorted_keys (la_files la)))
                (first_error (output_file_fault (tx_output_dir tx) (ts_final scan) (la_files la))
                  (sorted_keys (ts_final scan))))))"

definition validate_transaction ::
    "apply_env \<Rightarrow> transaction \<Rightarrow> string \<Rightarrow> (apply_error, string gomap) result" where
  "validate_transaction env tx project_dir =
     after (transaction_head_fault env tx project_dir)
       (bind_result
          (scan_operations (ae_sha256 env) tx 0 (tx_operations tx)
            \<lparr>ts_contents = [], ts_final = tx_expected tx, ts_seen = [], ts_total = 0\<rparr>) (\<lambda>scan.
          after (recorded_output_fault env tx scan) (Inr (ts_contents scan))))"


subsection \<open>executeTransaction\<close>

text \<open>\<open>runApplyFault\<close>: \<open>hooked\<close> says whether a hook is given at all.\<close>

definition run_apply_fault :: "bool \<Rightarrow> string \<Rightarrow> unit io" where
  "run_apply_fault hooked point w = (if hooked \<and> w_stop w point then Inl (StoppedAt point) else Inr (), w)"

definition after_operation :: "nat \<Rightarrow> string" where
  "after_operation index = ''after_operation_'' @ show_nat index"

definition after_states :: "transaction_operation list \<Rightarrow> file_snapshot gomap" where
  "after_states ops = fold (\<lambda>op m. AList.update (op_path op) (op_after op) m) ops []"

definition final_states :: "transaction \<Rightarrow> file_snapshot gomap" where
  "final_states tx =
     fold (\<lambda>op m. AList.update (op_path op) (op_after op) m) (tx_operations tx) (tx_expected tx)"

fun read_current ::
    "(string \<Rightarrow> string) \<Rightarrow> transaction \<Rightarrow> string list \<Rightarrow> file_snapshot gomap \<Rightarrow> file_snapshot gomap io" where
  "read_current sha256 tx [] current = io_return current"
| "read_current sha256 tx (name # names) current =
     io_bind (read_snapshot sha256 '''' name max_tracked_bytes) (\<lambda>(_, actual).
       if actual \<noteq> the (map_of (tx_expected tx) name) \<and>
          map_of (after_states (tx_operations tx)) name \<noteq> Some actual
       then io_error (RecoveryConflict name)
       else read_current sha256 tx names (AList.update name actual current))"

text \<open>A name below the output folder is reached through the root of that folder.\<close>

definition operation_root :: "transaction \<Rightarrow> string \<Rightarrow> string \<times> string" where
  "operation_root tx path =
     (if has_prefix path (tx_output_dir tx @ [slash])
      then (tx_output_dir tx, trim_prefix path (tx_output_dir tx @ [slash])) else ('''', path))"

definition carry_out ::
    "file_snapshot gomap \<Rightarrow> string gomap \<Rightarrow> string \<Rightarrow> string \<Rightarrow> transaction_operation \<Rightarrow> unit io" where
  "carry_out current contents base name op =
     (if snapshot_of current (op_path op) = op_after op then io_return ()
      else if snap_exists (op_after op)
      then write_root_file_mode base name (map_get contents (op_path op)) (snap_mode (op_after op))
      else ignore_not_found (remove_node (root_path base name)))"

fun execute_operations ::
    "transaction \<Rightarrow> file_snapshot gomap \<Rightarrow> string gomap \<Rightarrow> bool \<Rightarrow> nat \<Rightarrow> transaction_operation list \<Rightarrow> unit io" where
  "execute_operations tx current contents hooked index [] = io_return ()"
| "execute_operations tx current contents hooked index (op # ops) =
     io_bind (if op_path op = state_path then run_apply_fault hooked ''before_record'' else io_return ()) (\<lambda>_.
       (let (base, name) = operation_root tx (op_path op) in
        io_bind (carry_out current contents base name op) (\<lambda>_.
        io_bind (sync_parents base name) (\<lambda>_.
        io_bind (run_apply_fault hooked (after_operation index)) (\<lambda>_.
          execute_operations tx current contents hooked (Suc index) ops)))))"

text \<open>\<open>Root.OpenRoot\<close>\<close>

definition open_root :: "string \<Rightarrow> unit io" where
  "open_root dir = io_bind (get_node dir) (\<lambda>n.
     if n = Some Dir \<or> n = Some (Link True) then io_return ()
     else if n = None then io_error (NotFound dir) else io_error (ParentNotDirectory dir))"

definition execute_transaction :: "apply_env \<Rightarrow> string \<Rightarrow> transaction \<Rightarrow> bool \<Rightarrow> unit io" where
  "execute_transaction env project_dir tx hooked =
     (case validate_transaction env tx project_dir of
        Inl e \<Rightarrow> io_error e
      | Inr contents \<Rightarrow>
        io_bind (read_current (ae_sha256 env) tx (sorted_keys (tx_expected tx)) []) (\<lambda>current.
        io_bind (mkdir_all '''' (tx_output_dir tx)) (\<lambda>_.
        io_bind (open_root (tx_output_dir tx)) (\<lambda>_.
        io_bind (execute_operations tx current contents hooked 0 (tx_operations tx)) (\<lambda>_.
        io_bind (sync_parents '''' (tx_output_dir tx @ slash # ''entry'')) (\<lambda>_.
        io_bind (run_apply_fault hooked ''before_complete'') (\<lambda>_.
        io_bind (verify_snapshots (ae_sha256 env) (final_states tx)) (\<lambda>_.
        io_bind (remove_node transaction_path) (\<lambda>_.
          sync_parents '''' transaction_path)))))))))"

subsection \<open>commitTransaction and Recover\<close>

text \<open>\<open>errors.Join(ErrRecoveryRequired, err)\<close>\<close>

definition needs_recovery :: "'a io \<Rightarrow> 'a io" where
  "needs_recovery m w =
     (case m w of (Inl e, w') \<Rightarrow> (Inl (RecoveryRequired (Some e)), w') | (Inr a, w') \<Rightarrow> (Inr a, w'))"

definition commit_transaction :: "apply_env \<Rightarrow> string \<Rightarrow> plan \<Rightarrow> string \<Rightarrow> bool \<Rightarrow> unit io" where
  "commit_transaction env project_dir p relative hooked =
     (case prepare_transaction (ae_plan env) p relative of
        Inl e \<Rightarrow> io_error e
      | Inr None \<Rightarrow> io_return ()
      | Inr (Some tx) \<Rightarrow>
        (case validate_transaction env tx project_dir of
           Inl e \<Rightarrow> io_error e
         | Inr _ \<Rightarrow>
           (let data = ae_tx_yaml env tx in
            if length data > max_transaction_bytes then io_error RecordTooLarge
            else
              io_bind (run_apply_fault hooked ''before_prepare'') (\<lambda>_.
              io_bind (write_root_file_mode '''' transaction_path data 384) (\<lambda>_.
              needs_recovery
                (io_bind (sync_parents '''' transaction_path) (\<lambda>_.
                 io_bind (run_apply_fault hooked ''prepared'') (\<lambda>_.
                   execute_transaction env project_dir tx hooked)))))))) "

definition lock_path :: string where "lock_path = ''.stego/apply.lock''"

text \<open>\<open>lockProject\<close>; the last step is \<open>flock\<close>, which fails when another process holds the lock.\<close>

definition lock_project :: "unit io" where
  "lock_project =
     io_bind (check_file_target '''' lock_path) (\<lambda>_.
     io_bind (mkdir_all '''' ''.stego'') (\<lambda>_.
     io_bind (get_node lock_path) (\<lambda>n.
     io_bind (if n = None then set_node lock_path (Regular '''' 384) else attempt) (\<lambda>_. attempt))))"

definition recover :: "apply_env \<Rightarrow> string \<Rightarrow> unit io" where
  "recover env project_dir w =
     (case pending_transaction w of
        (Inr _, w1) \<Rightarrow> (Inr (), w1)
      | (Inl (RecoveryRequired _), w1) \<Rightarrow>
          io_bind lock_project (\<lambda>_.
          io_bind (read_snapshot (ae_sha256 env) '''' transaction_path max_transaction_bytes) (\<lambda>(data, snapshot).
            if \<not> snap_exists snapshot then io_return ()
            else case ae_tx_decode env data of
              None \<Rightarrow> io_error RecordNotYaml
            | Some tx \<Rightarrow> needs_recovery (execute_transaction env project_dir tx False))) w1
      | (Inl e, w1) \<Rightarrow> (Inl e, w1))"

subsection \<open>snapshot.go and reconciler.go: apply\<close>

fun bind_inputs :: "file_snapshot gomap \<Rightarrow> string list \<Rightarrow> plan \<Rightarrow> (apply_error, plan) result" where
  "bind_inputs inputs [] p = Inr p"
| "bind_inputs inputs (name # names) p =
     (let snapshot = the (map_of inputs name) in
      if map_of (pl_snapshots p) name \<noteq> None \<and> map_of (pl_snapshots p) name \<noteq> Some snapshot
      then Inl (ChangedAfterPlanning name)
      else bind_inputs inputs names (p\<lparr>pl_snapshots := AList.update name snapshot (pl_snapshots p)\<rparr>))"

definition bind_plan_inputs ::
    "(string \<Rightarrow> string) \<Rightarrow> plan \<Rightarrow> file_snapshot gomap \<Rightarrow> plan io" where
  "bind_plan_inputs sha256 p inputs =
     io_bind (verify_snapshots sha256 inputs) (\<lambda>_.
       case bind_inputs inputs (sorted_keys inputs) p of Inl e \<Rightarrow> io_error e | Inr q \<Rightarrow> io_return q)"

definition verify_plan_location :: "plan_env \<Rightarrow> plan \<Rightarrow> string \<Rightarrow> string \<Rightarrow> apply_error option" where
  "verify_plan_location env p project_dir out_dir =
     (if pl_project_dir p \<noteq> pe_abs env project_dir \<or> pl_out_dir p \<noteq> pe_abs env out_dir
      then Some (PlanMismatch ''location'') else None)"

definition verify_registry :: "apply_env \<Rightarrow> plan \<Rightarrow> unit io" where
  "verify_registry env p =
     (case state_last (pl_new_state p) of
        None \<Rightarrow> io_error (PlanMismatch ''registry'')
      | Some la \<Rightarrow>
        if pl_registry p \<noteq> Some (la_registry_content la) then io_error (PlanMismatch ''registry'')
        else if la_compiler_build la \<noteq> Some (pe_build (ae_plan env)) then io_error (PlanMismatch ''compiler'')
        else (case la_inputs la of
            None \<Rightarrow> io_error (PlanMismatch ''inputs'')
          | Some m \<Rightarrow>
            if validate_manifest (ae_sha256 env) m \<noteq> None \<or> im_sha256 m \<noteq> pl_manifest_sha p
            then io_error (PlanMismatch ''inputs'')
            else ae_registry_verify env))"

fun check_targets :: "string \<Rightarrow> string list \<Rightarrow> unit io" where
  "check_targets relative [] = io_return ()"
| "check_targets relative (p # ps) =
     io_bind (check_file_target '''' (project_file_path relative p)) (\<lambda>_. check_targets relative ps)"

definition apply_with_fault :: "apply_env \<Rightarrow> plan \<Rightarrow> string \<Rightarrow> string \<Rightarrow> bool \<Rightarrow> unit io" where
  "apply_with_fault env p project_dir out_dir0 hooked =
     (let out_dir = (if out_dir0 = '''' then path_join [project_dir, ''out''] else out_dir0);
          penv = ae_plan env; sha256 = ae_sha256 env
      in case output_relative (pe_lower penv) project_dir out_dir of
        Inl e \<Rightarrow> io_error (BadOutDir e)
      | Inr relative \<Rightarrow>
        io_bind (io_check (map_option StateRefused (validate_state_paths sha256 (pl_new_state p)))) (\<lambda>_.
        io_bind (io_check (first_error (\<lambda>f. map_option BadName (validate_path (gf_path f))) (pl_generated p))) (\<lambda>_.
        io_bind (io_check (first_error (\<lambda>f. map_option BadName (validate_path (pf_path f))) (pl_files p))) (\<lambda>_.
        io_bind pending_transaction (\<lambda>_.
        io_bind (check_file_path '''' relative) (\<lambda>_.
        io_bind (check_file_target '''' state_path) (\<lambda>_.
        io_bind (check_targets relative (map gf_path (pl_generated p))) (\<lambda>_.
        io_bind (check_targets relative (map pf_path (pl_files p))) (\<lambda>_.
        io_bind (io_check (verify_plan_location penv p project_dir out_dir)) (\<lambda>_.
        io_bind (verify_snapshots sha256 (pl_snapshots p)) (\<lambda>_.
        io_bind (io_check (refuse_hand_edits p)) (\<lambda>_.
        io_bind lock_project (\<lambda>_.
        io_bind pending_transaction (\<lambda>_.
        io_bind (verify_snapshots sha256 (pl_snapshots p)) (\<lambda>_.
        io_bind (verify_registry env p) (\<lambda>_.
        io_bind (io_check (case pl_saved p of None \<Rightarrow> None | Some saved \<Rightarrow> still_applies penv saved p)) (\<lambda>_.
        io_bind (commit_transaction env project_dir p relative hooked) (\<lambda>_.
          remove_saved_plan))))))))))))))))))"

end
