(* ===== verification/File_Writes.thy ===== *)
theory File_Writes
  imports Project_Files
begin

text \<open>
  What writing and removing a file changes, whichever steps fail: the frame that the proofs about the
  apply journal rest on.
\<close>

subsection \<open>The folders above a path\<close>

definition ancestors :: "string \<Rightarrow> string set" where
  "ancestors n = {p. \<exists>r. n = p @ slash # r}"

lemma butlast_upt: "butlast [0..<n] = [0..<n - 1]"
  by (cases n) simp_all

lemma path_prefixes_ancestors: "set (butlast (path_prefixes n)) = ancestors n"
proof (intro equalityI subsetI)
  fix p assume "p \<in> set (butlast (path_prefixes n))"
  then obtain i where i: "i < length (split_on slash n) - 1" "p = join_with [slash] (take (Suc i) (split_on slash n))"
    by (auto simp: path_prefixes_def Let_def map_butlast [symmetric] butlast_upt)
  have "split_on slash n = take (Suc i) (split_on slash n) @ drop (Suc i) (split_on slash n)" by simp
  then have "n = join_with [slash] (take (Suc i) (split_on slash n) @ drop (Suc i) (split_on slash n))"
    by (metis join_split)
  also have "\<dots> = p @ slash # join_with [slash] (drop (Suc i) (split_on slash n))"
    using i by (subst join_with_append) auto
  finally show "p \<in> ancestors n" by (auto simp: ancestors_def)
next
  fix p assume "p \<in> ancestors n"
  then obtain r where n: "n = p @ slash # r" by (auto simp: ancestors_def)
  have len: "\<exists>k. length (split_on slash s) = Suc k" for s by (cases "split_on slash s") simp_all
  obtain a b where "length (split_on slash p) = Suc a" "length (split_on slash r) = Suc b"
    using len by blast
  then have "a < length (split_on slash n) - 1" "p = join_with [slash] (take (Suc a) (split_on slash n))"
    by (simp_all add: n split_on_append_join)
  then show "p \<in> set (butlast (path_prefixes n))"
    by (auto simp: path_prefixes_def Let_def map_butlast [symmetric] butlast_upt)
qed

lemma path_prefixes_set: "set (path_prefixes n) = insert n (ancestors n)"
proof -
  have "path_prefixes n = butlast (path_prefixes n) @ [n]"
    using path_prefixes_last [of n] by (metis append_butlast_last_id)
  then have "set (path_prefixes n) = set (butlast (path_prefixes n) @ [n])" by simp
  then show ?thesis by (simp add: path_prefixes_ancestors)
qed

lemma ancestors_step: "slash \<notin> set x \<Longrightarrow> ancestors (q @ slash # x) = insert q (ancestors q)"
  by (auto simp: ancestors_def dest: append_slash_cases)

lemma ancestors_no_slash: "slash \<notin> set n \<Longrightarrow> ancestors n = {}"
  by (auto simp: ancestors_def)

lemma ancestors_under: "ancestors (b @ slash # n) = insert b (ancestors b) \<union> (\<lambda>p. b @ slash # p) ` ancestors n"
proof (intro equalityI subsetI)
  fix p assume "p \<in> ancestors (b @ slash # n)"
  then obtain r where r: "b @ slash # n = p @ slash # r" by (auto simp: ancestors_def)
  then consider "p = b" | s where "b = p @ slash # s" | s where "p = b @ slash # s" "n = s @ slash # r"
    by (auto simp: append_eq_append_conv2 Cons_eq_append_conv append_eq_Cons_conv)
  then show "p \<in> insert b (ancestors b) \<union> (\<lambda>p. b @ slash # p) ` ancestors n"
    by cases (auto simp: ancestors_def)
qed (auto simp: ancestors_def)

lemma path_dir_cases:
  assumes "valid_path n"
  obtains "slash \<notin> set n" "path_dir n = ''.''" "ancestors n = {}"
  | "path_dir n \<noteq> ''.''" "set (path_prefixes (path_dir n)) = ancestors n"
      "\<exists>x. n = path_dir n @ slash # x \<and> slash \<notin> set x"
proof (cases "slash \<in> set n")
  case False
  then show ?thesis using that(1) path_dir_no_slash ancestors_no_slash by blast
next
  case True
  then obtain q x where qx: "n = q @ slash # x" "slash \<notin> set x" by (metis split_list_last)
  have plain: "list_all plain_part (split_on slash (q @ slash # x))"
    using valid_path_plain [OF assms] qx by simp
  then have "path_dir n = q" using qx path_dir_last by blast
  moreover have "q \<noteq> ''.''" using plain by (auto simp: split_on_append_join plain_part_def slash_def)
  ultimately show ?thesis
    using that(2) qx path_prefixes_set [of q] ancestors_step [OF qx(2), of q] by auto
qed

subsection \<open>Frames\<close>

text \<open>Outside \<open>X\<close> nothing changes, but that folders of \<open>D\<close> may have been made where nothing was.\<close>

definition kept :: "string set \<Rightarrow> string set \<Rightarrow> node gomap \<Rightarrow> node gomap \<Rightarrow> bool" where
  "kept D X fs fs' \<longleftrightarrow> (\<forall>p. p \<notin> X \<longrightarrow>
     map_of fs' p = map_of fs p \<or> (p \<in> D \<and> map_of fs p = None \<and> map_of fs' p = Some Dir))"

lemma kept_refl [simp]: "kept D X fs fs"
  by (simp add: kept_def)

lemma kept_trans [trans]: "kept D X a b \<Longrightarrow> kept D X b c \<Longrightarrow> kept D X a c"
  unfolding kept_def by metis

lemma kept_mono: "kept D X a b \<Longrightarrow> D \<subseteq> D' \<Longrightarrow> X \<subseteq> X' \<Longrightarrow> kept D' X' a b"
  unfolding kept_def by blast

text \<open>A run goes on in the same environment.\<close>

definition goes_on :: "world \<Rightarrow> world \<Rightarrow> bool" where
  "goes_on w w' \<longleftrightarrow> w_fails w' = w_fails w \<and> w_nonce w' = w_nonce w \<and> w_stop w' = w_stop w \<and> w_tick w \<le> w_tick w'"

lemma goes_on_refl [simp]: "goes_on w w"
  by (simp add: goes_on_def)

lemma goes_on_trans [trans]: "goes_on a b \<Longrightarrow> goes_on b c \<Longrightarrow> goes_on a c"
  by (auto simp: goes_on_def)

lemma goes_on_step: "goes_on w w' \<Longrightarrow> goes_on w (step_tick w')"
  by (auto simp: goes_on_def)

lemma goes_on_fs [simp]: "goes_on w (w'\<lparr>w_fs := fs\<rparr>) = goes_on w w'"
  by (simp add: goes_on_def)

lemma goes_on_calm: "goes_on w w' \<Longrightarrow> calm w' = calm w"
  by (simp add: goes_on_def calm_def)

lemma failing_not_calm: "failing w \<Longrightarrow> \<not> calm w"
  by auto

lemma same_world_goes_on: "same_world w w' \<Longrightarrow> goes_on w w'"
  by (auto simp: same_world_def goes_on_def)

lemma same_world_kept: "same_world w w' \<Longrightarrow> kept D X (w_fs w) (w_fs w')"
  by (simp add: same_world_simps)

subsection \<open>Making folders\<close>

lemma mkdir_parts_spec:
  assumes "root_path base ` set ps \<subseteq> D"
  shows "wp (mkdir_parts base ps)
    (\<lambda>_ w'. goes_on w w' \<and> kept D {} (w_fs w) (w_fs w'))
    (\<lambda>_ w'. goes_on w w' \<and> kept D {} (w_fs w) (w_fs w') \<and>
      \<not> (calm w \<and> (\<forall>p \<in> D. map_of (w_fs w) p = None \<or> map_of (w_fs w) p = Some Dir))) w"
  using assms
proof (induction ps arbitrary: w)
  case Nil
  then show ?case by (simp add: io_wp)
next
  case (Cons p ps)
  let ?p = "root_path base p"
  let ?ok = "\<lambda>w. calm w \<and> (\<forall>p \<in> D. map_of (w_fs w) p = None \<or> map_of (w_fs w) p = Some Dir)"
  have p: "?p \<in> D" and ps: "root_path base ` set ps \<subseteq> D" using Cons.prems by auto
  have rest: "wp (mkdir_parts base ps)
      (\<lambda>_ w'. goes_on w w' \<and> kept D {} (w_fs w) (w_fs w'))
      (\<lambda>_ w'. goes_on w w' \<and> kept D {} (w_fs w) (w_fs w') \<and> \<not> ?ok w) w1"
    if "goes_on w w1" "kept D {} (w_fs w) (w_fs w1)" "?ok w \<Longrightarrow> ?ok w1" for w1
    by (rule wp_mono [OF Cons.IH [OF ps]])
      (use that in \<open>blast intro: goes_on_trans kept_trans\<close>)+
  show ?case
  proof (cases "failing w")
    case True
    then show ?thesis by (auto simp: io_wp goes_on_step dest: failing_not_calm)
  next
    case False
    have dir: "wp (io_bind (set_node ?p Dir) (\<lambda>_. mkdir_parts base ps))
        (\<lambda>_ w'. goes_on w w' \<and> kept D {} (w_fs w) (w_fs w'))
        (\<lambda>_ w'. goes_on w w' \<and> kept D {} (w_fs w) (w_fs w') \<and> \<not> ?ok w) (step_tick w)"
      if n: "map_of (w_fs w) ?p = None"
    proof -
      let ?w = "(step_tick (step_tick w))\<lparr>w_fs := AList.update ?p Dir (w_fs w)\<rparr>"
      have "goes_on w ?w" "kept D {} (w_fs w) (w_fs ?w)" "?ok w \<Longrightarrow> ?ok ?w"
        using n p by (auto simp: goes_on_step kept_def)
      from rest [OF this] show ?thesis
        unfolding wp_bind wp_set_node using failing_not_calm [of "step_tick w"] by (auto simp: goes_on_step)
    qed
    have "wp (mkdir_parts base ps)
      (\<lambda>_ w'. goes_on w w' \<and> kept D {} (w_fs w) (w_fs w'))
      (\<lambda>_ w'. goes_on w w' \<and> kept D {} (w_fs w) (w_fs w') \<and> \<not> ?ok w) (step_tick w)"
      by (rule rest) (auto simp: goes_on_step)
    with False dir p show ?thesis
      by (auto simp: io_wp goes_on_step split: option.splits node.splits bool.splits)
  qed
qed


subsection \<open>Removing and replacing a file\<close>

text \<open>Nothing but the nodes of \<open>X\<close> changes.\<close>

definition only :: "string set \<Rightarrow> node gomap \<Rightarrow> node gomap \<Rightarrow> bool" where
  "only X fs fs' \<longleftrightarrow> (\<forall>p. p \<notin> X \<longrightarrow> map_of fs' p = map_of fs p)"

lemma only_refl [simp]: "only X fs fs"
  by (simp add: only_def)

lemma only_trans [trans]: "only X a b \<Longrightarrow> only X b c \<Longrightarrow> only X a c"
  by (simp add: only_def)

lemma only_kept: "only X a b \<Longrightarrow> X \<subseteq> Y \<Longrightarrow> kept D Y a b"
  by (auto simp: only_def kept_def)

lemma kept_only: "kept D {} a b \<Longrightarrow> only X b c \<Longrightarrow> X \<subseteq> Y \<Longrightarrow> kept D Y a c"
  unfolding kept_def only_def by (metis empty_iff subsetD)

lemma only_same: "only X a b \<Longrightarrow> only {t} b c \<Longrightarrow> map_of c t = map_of b t \<Longrightarrow> only X a c"
  unfolding only_def by (metis singletonD)

definition file_or_absent :: "node gomap \<Rightarrow> string \<Rightarrow> bool" where
  "file_or_absent fs p \<longleftrightarrow> map_of fs p = None \<or> (\<exists>d m. map_of fs p = Some (Regular d m))"

lemma remove_file_spec:
  "wp (ignore_not_found (remove_node p))
    (\<lambda>_ w'. goes_on w w' \<and> map_of (w_fs w') p = None \<and> only {p} (w_fs w) (w_fs w'))
    (\<lambda>_ w'. goes_on w w' \<and> w_fs w' = w_fs w \<and> \<not> (calm w \<and> file_or_absent (w_fs w) p)) w"
proof -
  have f: "failing (step_tick w) \<Longrightarrow> \<not> calm w" using failing_not_calm [of "step_tick w"] by simp
  have g: "goes_on w (step_tick w)" "goes_on w (step_tick (step_tick w))" by (simp_all add: goes_on_step)
  show ?thesis
    unfolding remove_node_def wp_ignore_not_found wp_bind wp_get_node
    by (cases "map_of (w_fs w) p")
      (auto simp: wp_def io_error_def g only_def file_or_absent_def delete_node_def io_bind_def attempt_def
        failing_def step_tick_def calm_def goes_on_def split: node.splits sum.splits)
qed

lemma fill_and_publish_spec:
  assumes "temp \<noteq> target"
  shows "wp (fill_and_publish temp target data mode True)
    (\<lambda>_ w'. goes_on w w' \<and> map_of (w_fs w') temp = None \<and>
       map_of (w_fs w') target = Some (Regular data (mode_perm mode)) \<and> only {temp, target} (w_fs w) (w_fs w'))
    (\<lambda>_ w'. goes_on w w' \<and> only {temp} (w_fs w) (w_fs w') \<and>
       (map_of (w_fs w') temp = map_of (w_fs w) temp \<or> file_or_absent (w_fs w') temp) \<and>
       \<not> (calm w \<and> map_of (w_fs w) target \<noteq> Some Dir)) w"
  unfolding fill_and_publish_def
  using assms
  by (auto simp: io_wp goes_on_step only_def file_or_absent_def calm_def failing_def)


text \<open>The folders above a file of the root \<open>base\<close>, and the temporary names that its writes may use from
  now on.\<close>

definition folders :: "string \<Rightarrow> string \<Rightarrow> string set" where
  "folders base name = root_path base ` ancestors name"

definition temps :: "world \<Rightarrow> string \<Rightarrow> string \<Rightarrow> string set" where
  "temps w base name = {root_path base (temp_path (path_dir name) (w_nonce w t)) | t. w_tick w \<le> t}"

lemma mkdir_all_spec:
  assumes "valid_path name"
  shows "wp (mkdir_all base (path_dir name))
    (\<lambda>_ w'. goes_on w w' \<and> kept (folders base name) {} (w_fs w) (w_fs w'))
    (\<lambda>_ w'. goes_on w w' \<and> kept (folders base name) {} (w_fs w) (w_fs w') \<and>
      \<not> (calm w \<and> (\<forall>p \<in> folders base name. map_of (w_fs w) p = None \<or> map_of (w_fs w) p = Some Dir))) w"
  using assms
proof (cases rule: path_dir_cases)
  case 1
  then show ?thesis by (simp add: mkdir_all_def io_wp)
next
  case 2
  then show ?thesis
    unfolding mkdir_all_def by (simp only: if_False) (rule mkdir_parts_spec, simp add: folders_def)
qed

text \<open>Writing a file: on success the target has the new bytes and permissions, and beside it only missing
  folders above it were made. On an error the target has its old node or the new one, and besides only a
  temporary file may be left; in a calm world no error comes from a clear path, a target that is a file
  or absent, and a fresh temporary name.\<close>

definition written :: "string \<Rightarrow> string \<Rightarrow> node \<Rightarrow> world \<Rightarrow> world \<Rightarrow> bool" where
  "written base name node w w' \<longleftrightarrow> goes_on w w' \<and>
     kept (folders base name) {root_path base name} (w_fs w) (w_fs w') \<and>
     map_of (w_fs w') (root_path base name) = Some node"

definition half_written :: "string \<Rightarrow> string \<Rightarrow> node \<Rightarrow> world \<Rightarrow> world \<Rightarrow> bool" where
  "half_written base name node w w' \<longleftrightarrow> goes_on w w' \<and>
     kept (folders base name) (insert (root_path base name) (temps w base name)) (w_fs w) (w_fs w') \<and>
     (map_of (w_fs w') (root_path base name) = map_of (w_fs w) (root_path base name) \<or>
      map_of (w_fs w') (root_path base name) = Some node)"

definition writable :: "string \<Rightarrow> string \<Rightarrow> world \<Rightarrow> bool" where
  "writable base name w \<longleftrightarrow> calm w \<and> clear_path (w_fs w) base name \<and> file_or_absent (w_fs w) (root_path base name) \<and>
     (\<forall>p \<in> temps w base name. map_of (w_fs w) p = None)"

lemma root_path_inj: "root_path base p = root_path base q \<longleftrightarrow> p = q"
  by (simp add: root_path_def)

lemma clear_path_folders:
  "clear_path fs base name \<longleftrightarrow> valid_path name \<and>
     (\<forall>p \<in> folders base name. map_of fs p = None \<or> map_of fs p = Some Dir)"
  by (auto simp: clear_path_def path_prefixes_ancestors folders_def)

definition publish_temp :: "string \<Rightarrow> string \<Rightarrow> string \<Rightarrow> 32 word \<Rightarrow> unit io" where
  "publish_temp temp target data mode =
     io_bind (get_node temp) (\<lambda>n.
       if n \<noteq> None then io_error (FileExists temp)
       else io_bind (set_node temp (Regular '''' 384)) (\<lambda>_.
         io_finally (fill_and_publish temp target data mode True) (ignore_not_found (remove_node temp))))"

lemma publish_temp_spec:
  assumes "temp \<noteq> target"
  shows "wp (publish_temp temp target data mode)
    (\<lambda>_ w'. goes_on w w' \<and> only {target} (w_fs w) (w_fs w') \<and>
       map_of (w_fs w') target = Some (Regular data (mode_perm mode)))
    (\<lambda>_ w'. goes_on w w' \<and> only {target, temp} (w_fs w) (w_fs w') \<and>
       (map_of (w_fs w') target = map_of (w_fs w) target \<or>
        map_of (w_fs w') target = Some (Regular data (mode_perm mode))) \<and>
       \<not> (calm w \<and> map_of (w_fs w) temp = None \<and> map_of (w_fs w) target \<noteq> Some Dir)) w"
    (is "wp _ ?Q ?E w")
proof (cases "failing w \<or> map_of (w_fs w) temp \<noteq> None \<or> failing (step_tick w)")
  case True
  then consider "failing w" | "\<not> failing w" "map_of (w_fs w) temp \<noteq> None"
    | "\<not> failing w" "map_of (w_fs w) temp = None" "failing (step_tick w)" by blast
  then show ?thesis
  proof cases
    case 1
    with failing_not_calm [OF 1] show ?thesis by (simp add: publish_temp_def io_wp goes_on_step)
  next
    case 2
    then show ?thesis by (simp add: publish_temp_def io_wp goes_on_step)
  next
    case 3
    with failing_not_calm [OF 3(3)] show ?thesis by (simp add: publish_temp_def io_wp goes_on_step)
  qed
next
  case False
  let ?w = "(step_tick (step_tick w))\<lparr>w_fs := AList.update temp (Regular '''' 384) (w_fs w)\<rparr>"
  have w: "goes_on w ?w" "calm ?w = calm w" "map_of (w_fs ?w) target = map_of (w_fs w) target"
    using assms by (auto simp: goes_on_step)
  have new: "p \<noteq> temp \<Longrightarrow> map_of (w_fs ?w) p = map_of (w_fs w) p" for p by simp
  have "wp (io_finally (fill_and_publish temp target data mode True) (ignore_not_found (remove_node temp))) ?Q ?E ?w"
    unfolding wp_finally
  proof (rule wp_mono [OF fill_and_publish_spec [OF assms]], goal_cases)
    case (1 a w1)
    then have g: "goes_on w w1" and c: "calm w1 = calm w" and t: "map_of (w_fs w1) temp = None"
      and n: "map_of (w_fs w1) target = Some (Regular data (mode_perm mode))"
      using w goes_on_trans goes_on_calm by blast+
    have o: "only {target} (w_fs w) (w_fs w1)"
      using 1 False assms unfolding only_def by (metis insert_iff singletonD new)
    show ?case
    proof (rule wp_mono [OF remove_file_spec], goal_cases)
      case (1 b w2)
      then have "goes_on w w2" "only {target} (w_fs w) (w_fs w2)"
        using g t by (auto intro: goes_on_trans only_same [OF o])
      with 1 n assms show ?case by (simp add: only_def)
    next
      case (2 e w2)
      then have "goes_on w w2" "w_fs w2 = w_fs w1" "\<not> calm w"
        using g c t by (auto simp: file_or_absent_def intro: goes_on_trans)
      with o n show ?case by (simp add: only_def)
    qed
  next
    case (2 e w1)
    then have g: "goes_on w w1" using w(1) goes_on_trans by blast
    have n: "\<not> (calm w \<and> map_of (w_fs w) target \<noteq> Some Dir)"
      using 2 w(2,3) by metis
    have o: "only {target, temp} (w_fs w) (w_fs w1)" "map_of (w_fs w1) target = map_of (w_fs w) target"
      using 2 assms by (auto simp: only_def)
    have E: "?E e w2" if "goes_on w1 w2" "only {temp} (w_fs w1) (w_fs w2)" for w2
    proof -
      have "goes_on w w2" using g that(1) by (rule goes_on_trans)
      moreover have "only {target, temp} (w_fs w) (w_fs w2)" "map_of (w_fs w2) target = map_of (w_fs w) target"
        using o that(2) assms by (auto simp: only_def)
      ultimately show ?thesis using n by blast
    qed
    show ?case
      by (rule wp_mono [OF remove_file_spec]) (use E in auto)
  qed
  then show ?thesis using False by (simp add: publish_temp_def io_wp)
qed

lemma publish_spec:
  assumes "root_path base name \<notin> folders base name" "root_path base name \<notin> temps w base name"
    and "folders base name \<inter> temps w base name = {}"
  shows "wp (write_root_file_mode base name data mode)
    (\<lambda>_ w'. written base name (Regular data (mode_perm mode)) w w')
    (\<lambda>_ w'. half_written base name (Regular data (mode_perm mode)) w w' \<and> \<not> writable base name w) w"
    (is "wp _ ?Q ?E w")
proof (cases "valid_path name")
  case False
  then show ?thesis
    by (cases "validate_path name")
      (simp_all add: write_root_file_mode_def publish_root_file_def check_file_path_def io_wp half_written_def
        writable_def clear_path_def)
next
  case True
  let ?target = "root_path base name" and ?node = "Regular data (mode_perm mode)"
  let ?D = "folders base name"
  have early: "?E e w'" if "goes_on w w'" "kept ?D {} (w_fs w) (w_fs w')" "\<not> writable base name w" for e :: apply_error and w'
    using that assms(1) unfolding half_written_def kept_def by auto
  have tail: "wp (\<lambda>w. (Inr (w_nonce w (w_tick w)), w)) (\<lambda>nonce. wp attempt (\<lambda>_.
        wp (publish_temp (root_path base (temp_path (path_dir name) nonce)) ?target data mode) ?Q ?E) ?E) ?E w1"
    if g: "goes_on w w1" and k: "kept ?D {} (w_fs w) (w_fs w1)" for w1
  proof -
    let ?temp = "root_path base (temp_path (path_dir name) (w_nonce w1 (w_tick w1)))"
    have t: "?temp \<in> temps w base name" using g by (auto simp: temps_def goes_on_def)
    then have ne: "?temp \<noteq> ?target" using assms(2) by metis
    have k_target: "map_of (w_fs w1) ?target = map_of (w_fs w) ?target" using k assms(1) by (auto simp: kept_def)
    have k_temp: "map_of (w_fs w1) ?temp = map_of (w_fs w) ?temp" using k assms(3) t by (auto simp: kept_def)
    have ok: "writable base name w \<Longrightarrow> calm w1 \<and> map_of (w_fs w1) ?temp = None \<and> map_of (w_fs w1) ?target \<noteq> Some Dir"
      using g t k_target k_temp by (auto simp: writable_def goes_on_calm file_or_absent_def)
    have "wp (publish_temp ?temp ?target data mode) ?Q ?E (step_tick w1)"
    proof (rule wp_mono [OF publish_temp_spec [OF ne]], goal_cases)
      case (1 a w2)
      then have "goes_on w w2" using g by (auto intro: goes_on_trans goes_on_step)
      moreover have "kept ?D {?target} (w_fs w) (w_fs w2)"
        using 1 by (auto intro: kept_only [OF k])
      ultimately show ?case using 1 by (simp add: written_def)
    next
      case (2 e w2)
      then have "goes_on w w2" using g by (auto intro: goes_on_trans goes_on_step)
      moreover have "kept ?D (insert ?target (temps w base name)) (w_fs w) (w_fs w2)"
        using 2 t by (auto intro: kept_only [OF k])
      moreover have "\<not> writable base name w" using 2 ok by auto
      ultimately show ?case using 2 k_target by (simp add: half_written_def)
    qed
    moreover have "?E e (step_tick w1)" if "failing w1" for e :: apply_error
      by (rule early) (use that ok g k in \<open>auto dest: failing_not_calm intro: goes_on_step\<close>)
    ultimately show ?thesis by (simp add: wp_pure wp_attempt)
  qed
  have check: "wp (check_file_path base name) (\<lambda>_ w'. same_world w w') (\<lambda>_ w'. same_world w w' \<and> \<not> writable base name w) w"
  proof (cases "writable base name w")
    case True
    then have "\<exists>d. file_within (w_fs w) ?target d"
      by (auto simp: writable_def file_or_absent_def file_within_def)
    then obtain d where "file_within (w_fs w) ?target d" ..
    with True show ?thesis
      by (intro wp_mono [OF check_file_path_ok [where limit = d]]) (auto simp: writable_def)
  next
    case False
    show ?thesis by (rule wp_mono [OF check_file_path_reads]) (use False in auto)
  qed
  show ?thesis
    unfolding write_root_file_mode_def publish_root_file_def wp_bind publish_temp_def [symmetric] Let_def
  proof (rule wp_mono [OF check], goal_cases)
    case (1 a w1)
    then have w1: "goes_on w w1" "w_fs w1 = w_fs w" by (simp_all add: same_world_goes_on same_world_simps)
    show ?case
    proof (rule wp_mono [OF mkdir_all_spec [OF True]], goal_cases)
      case (1 b w2)
      then show ?case
        using tail [of w2] w1 goes_on_trans [OF w1(1)] by (simp add: publish_temp_def)
    next
      case (2 e w2)
      then have "\<not> writable base name w"
        using w1 by (auto simp: writable_def goes_on_calm clear_path_folders)
      with 2 show ?case using w1 goes_on_trans [OF w1(1)] by (intro early) auto
    qed
  next
    case (2 e w1)
    then show ?case by (intro early) (auto simp: same_world_goes_on same_world_kept)
  qed
qed

end
