(* ===== verification/Path_Laws.thy ===== *)
theory Path_Laws
  imports File_Layout
begin

text \<open>
  \<open>filepath.Rel\<close> undoes \<open>filepath.Join\<close>: the output folder that a journal names below the project is
  the one that the check of the folder sees.
\<close>

definition name_part :: "string \<Rightarrow> bool" where
  "name_part q \<longleftrightarrow> plain_part q \<and> slash \<notin> set q"

text \<open>What is left of a path when it has been cleaned: parent steps, then names.\<close>

definition cleaned :: "bool \<Rightarrow> string list \<Rightarrow> bool" where
  "cleaned rooted ps \<longleftrightarrow>
     (\<exists>k qs. ps = replicate k ''..'' @ qs \<and> (\<forall>q \<in> set qs. name_part q) \<and> (rooted \<longrightarrow> k = 0))"

lemma name_not_dots: "name_part p \<Longrightarrow> p \<noteq> '''' \<and> p \<noteq> ''.'' \<and> p \<noteq> ''..''"
  by (simp add: name_part_def plain_part_def)

lemma name_parts: "list_all plain_part (split_on slash x) \<Longrightarrow> q \<in> set (split_on slash x) \<Longrightarrow> name_part q"
  by (auto simp: name_part_def list_all_iff dest: split_on_parts_no_sep)

lemma cleanedI: "ps = replicate k ''..'' @ qs \<Longrightarrow> \<forall>q \<in> set qs. name_part q \<Longrightarrow> (rooted \<Longrightarrow> k = 0) \<Longrightarrow> cleaned rooted ps"
  unfolding cleaned_def by blast

lemma clean_step_cleaned:
  assumes "cleaned rooted (rev st)" and "slash \<notin> set p"
  shows "cleaned rooted (rev (clean_step rooted p st))"
proof -
  obtain k qs where st: "rev st = replicate k ''..'' @ qs" "\<forall>q \<in> set qs. name_part q" "rooted \<longrightarrow> k = 0"
    using assms(1) by (auto simp: cleaned_def)
  have st': "st = rev qs @ replicate k ''..''" using arg_cong [OF st(1), of rev] by simp
  consider "p = '''' \<or> p = ''.''" | "p = ''..''" | "name_part p"
    using assms(2) by (auto simp: name_part_def plain_part_def)
  then show ?thesis
  proof cases
    case 1
    then show ?thesis using assms by auto
  next
    case 3
    then have "rev (clean_step rooted p st) = replicate k ''..'' @ (qs @ [p])"
      using st name_not_dots by simp
    then show ?thesis
      by (rule cleanedI) (use st 3 in \<open>auto simp del: clean_step.simps\<close>)
  next
    case 2
    show ?thesis
    proof (cases qs rule: rev_cases)
      case Nil
      then show ?thesis
        using 2 st st' assms(1)
        by (cases k) (auto simp: replicate_append_same intro: cleanedI [of _ 0 "[]"] cleanedI [of _ "Suc k" "[]"]
            cleanedI [of "[''..'']" 1 "[]"])
    next
      case (snoc rs r)
      then have "clean_step rooted p st = rev rs @ replicate k ''..''"
        using 2 st st' name_not_dots [of r] by simp
      then show ?thesis using st snoc by (intro cleanedI [of _ k rs]) auto
    qed
  qed
qed

lemma fold_cleaned:
  "\<forall>p \<in> set ps. slash \<notin> set p \<Longrightarrow> cleaned rooted (rev st) \<Longrightarrow> cleaned rooted (rev (fold (clean_step rooted) ps st))"
  by (induction ps arbitrary: st) (simp_all add: clean_step_cleaned del: clean_step.simps)

lemma clean_parts_cleaned: "cleaned rooted (clean_parts rooted (split_on slash s))"
  unfolding clean_parts_def
  by (rule fold_cleaned) (auto intro: cleanedI [of _ 0 "[]"] dest: split_on_parts_no_sep)

lemma fold_dots: "fold (clean_step False) (replicate k ''..'') (replicate j ''..'') = replicate (k + j) ''..''"
proof (induction k arbitrary: j)
  case (Suc k)
  have "clean_step False ''..'' (replicate j ''..'') = replicate (Suc j) ''..''" by (cases j) auto
  then show ?case using Suc [of "Suc j"] by (simp del: clean_step.simps)
qed simp

lemma clean_parts_again: "cleaned rooted ps \<Longrightarrow> clean_parts rooted ps = ps"
proof -
  assume "cleaned rooted ps"
  then obtain k qs where ps: "ps = replicate k ''..'' @ qs" "\<forall>q \<in> set qs. name_part q" "rooted \<Longrightarrow> k = 0"
    by (auto simp: cleaned_def)
  have "fold (clean_step rooted) (replicate k ''..'') [] = replicate k ''..''"
    using ps(3) fold_dots [of k 0] by (cases rooted) auto
  moreover have "list_all plain_part qs" using ps(2) by (simp add: list_all_iff name_part_def)
  ultimately show ?thesis by (simp add: clean_parts_def ps(1) fold_clean_plain)
qed

lemma cleaned_parts:
  assumes "cleaned rooted ps" "p \<in> set ps"
  shows "p \<noteq> '''' \<and> p \<noteq> ''.'' \<and> slash \<notin> set p"
proof -
  obtain k qs where ps: "ps = replicate k ''..'' @ qs" "\<forall>q \<in> set qs. name_part q"
    using assms(1) by (auto simp: cleaned_def)
  from assms(2) have "p = ''..'' \<or> name_part p" using ps by auto
  then show ?thesis using name_not_dots [of p] by (auto simp: name_part_def slash_def)
qed

lemma cleaned_append:
  assumes "cleaned rooted ps" "\<forall>q \<in> set qs. name_part q"
  shows "cleaned rooted (ps @ qs)"
proof -
  obtain k rs where ps: "ps = replicate k ''..'' @ rs" "\<forall>q \<in> set rs. name_part q" "rooted \<Longrightarrow> k = 0"
    using assms(1) by (auto simp: cleaned_def)
  show ?thesis by (rule cleanedI [of _ k "rs @ qs"]) (use ps assms(2) in auto)
qed

definition path_text :: "bool \<Rightarrow> string list \<Rightarrow> string" where
  "path_text rooted ps =
     (if rooted then slash # join_with [slash] ps else if ps = [] then ''.'' else join_with [slash] ps)"

lemma join_nonempty: "ps \<noteq> [] \<Longrightarrow> hd ps \<noteq> '''' \<Longrightarrow> join_with sep ps \<noteq> '''' \<and> hd (join_with sep ps) = hd (hd ps)"
  by (cases ps; cases "tl ps") auto

lemma path_clean_text:
  "s \<noteq> '''' \<Longrightarrow> path_clean s = path_text (hd s = slash) (clean_parts (hd s = slash) (split_on slash s))"
proof -
  assume s: "s \<noteq> ''''"
  let ?r = "hd s = slash"
  let ?ps = "clean_parts ?r (split_on slash s)"
  have "join_with [slash] ?ps = '''' \<longleftrightarrow> ?ps = []"
    using join_nonempty [of ?ps] cleaned_parts [OF clean_parts_cleaned, of "hd ?ps" ?r s] by (cases "?ps = []") auto
  with s show ?thesis by (cases ?r) (simp_all add: path_clean_def path_text_def Let_def)
qed

lemma rel_parts_text:
  assumes "cleaned rooted ps"
  shows "rel_parts (if path_text rooted ps = ''.'' then '''' else path_text rooted ps) =
    (if rooted then '''' # ps else ps)"
proof -
  have no: "\<forall>p \<in> set ps. slash \<notin> set p" and ne: "\<And>p. p \<in> set ps \<Longrightarrow> p \<noteq> '''' \<and> p \<noteq> ''.''"
    using cleaned_parts [OF assms] by auto
  have split: "ps \<noteq> [] \<Longrightarrow> split_on slash (join_with [slash] ps) = ps" using split_join [OF _ no] by blast
  have j: "ps \<noteq> [] \<Longrightarrow> join_with [slash] ps \<noteq> ''''" using join_nonempty [of ps] ne by (cases ps) auto
  have dot: "ps \<noteq> [] \<Longrightarrow> join_with [slash] ps \<noteq> ''.''"
    using split ne by (cases ps) (fastforce simp: slash_def)+
  have one: "ps \<noteq> [] \<Longrightarrow> join_with [slash] ps \<noteq> [slash]"
  proof
    assume "ps \<noteq> []" "join_with [slash] ps = [slash]"
    with split have "ps = ['''', '''']" by simp
    with ne show False by simp
  qed
  show ?thesis
    using split j dot one by (cases "ps = []") (auto simp: rel_parts_def path_text_def slash_def)
qed


lemma path_text_facts:
  assumes "cleaned rooted ps"
  shows "path_text rooted ps \<noteq> ''''" "(hd (path_text rooted ps) = slash) = rooted" "path_clean (path_text rooted ps) = path_text rooted ps"
proof -
  have ne: "\<And>p. p \<in> set ps \<Longrightarrow> p \<noteq> '''' \<and> p \<noteq> ''.'' \<and> slash \<notin> set p"
    using cleaned_parts [OF assms] by auto
  have j: "join_with [slash] ps \<noteq> '''' \<and> hd (join_with [slash] ps) \<noteq> slash" if "ps \<noteq> []"
  proof -
    have "hd ps \<noteq> '''' \<and> slash \<notin> set (hd ps)" using that ne by simp
    moreover from this have "hd (hd ps) \<noteq> slash" by (metis hd_in_set)
    ultimately show ?thesis using that join_nonempty [of ps "[slash]"] by simp
  qed
  have t: "path_text rooted ps \<noteq> '''' \<and> (hd (path_text rooted ps) = slash) = rooted"
    using j by (cases "ps = []") (auto simp: path_text_def slash_def)
  have "split_on slash (path_text rooted ps) = (if rooted then '''' # (if ps = [] then [''''] else ps) else if ps = [] then [''.''] else ps)"
    using split_join [of ps slash] ne by (cases "ps = []") (auto simp: path_text_def slash_def)
  then have "clean_parts rooted (split_on slash (path_text rooted ps)) = ps"
    using clean_parts_again [OF assms] by (auto simp: clean_parts_def split: if_splits)
  with t show "path_text rooted ps \<noteq> ''''" "(hd (path_text rooted ps) = slash) = rooted"
    "path_clean (path_text rooted ps) = path_text rooted ps"
    by (simp_all add: path_clean_text)
qed

lemma strip_common_self: "strip_common ps (ps @ qs) = ([], qs)"
  by (induction ps) (cases qs, auto)

lemma path_rel_join:
  assumes "list_all plain_part (split_on slash x)"
  shows "path_rel base (path_join [base, x]) = Some x"
proof -
  have x: "x \<noteq> ''''" "hd x \<noteq> slash" "path_clean x = x" using plain_parts_head [OF assms] path_clean_plain [OF assms] by auto
  have names: "\<forall>q \<in> set (split_on slash x). name_part q" using name_parts [OF assms] by blast
  define P where "P = (if base = '''' then [] else clean_parts (hd base = slash) (split_on slash base))"
  define r where "r \<longleftrightarrow> base \<noteq> '''' \<and> hd base = slash"
  have P: "cleaned r P"
    unfolding P_def r_def using clean_parts_cleaned [of "hd base = slash" base] by (auto intro: cleanedI [of _ 0 "[]"])
  have PX: "cleaned r (P @ split_on slash x)" by (rule cleaned_append [OF P names])
  have b: "path_clean base = path_text r P"
    by (cases "base = ''''") (simp_all add: P_def r_def path_clean_text, simp add: path_clean_def path_text_def)
  have j: "path_join [base, x] = path_text r (P @ split_on slash x)"
  proof (cases "base = ''''")
    case True
    then show ?thesis using x by (simp add: P_def r_def path_text_def)
  next
    case False
    then have "clean_parts (hd base = slash) (split_on slash (base @ slash # x)) = P @ split_on slash x"
      by (simp add: split_on_append_join P_def clean_parts_def fold_clean_plain [OF assms])
    with False show ?thesis by (simp add: path_clean_text r_def)
  qed
  have t: "path_clean (path_join [base, x]) = path_text r (P @ split_on slash x)"
    unfolding j by (rule path_text_facts(3) [OF PX])
  have rp: "rel_parts (if path_text r P = ''.'' then '''' else path_text r P) = (if r then '''' # P else P)"
    by (rule rel_parts_text [OF P])
  have nd: "path_text r (P @ split_on slash x) \<noteq> ''.''"
  proof
    assume "path_text r (P @ split_on slash x) = ''.''"
    then have "join_with [slash] (P @ split_on slash x) = ''.''" by (auto simp: path_text_def slash_def split: if_splits)
    moreover have "split_on slash (join_with [slash] (P @ split_on slash x)) = P @ split_on slash x"
      using cleaned_parts [OF PX] by (intro split_join) auto
    ultimately have "P @ split_on slash x = [''.'']" by (simp add: slash_def)
    with cleaned_parts [OF PX, of "''.''"] show False by simp
  qed
  have rt: "rel_parts (path_text r (P @ split_on slash x)) = (if r then '''' # P else P) @ split_on slash x"
    using rel_parts_text [OF PX] nd by simp
  have diff: "path_text r (P @ split_on slash x) \<noteq> path_text r P"
  proof
    assume e: "path_text r (P @ split_on slash x) = path_text r P"
    then have "(if r then '''' # P else P) @ split_on slash x = (if r then '''' # P else P)"
      using rp rt nd by simp
    then show False by simp
  qed
  have h: "(path_text r P \<noteq> ''.'' \<and> hd (path_text r P) = slash) = r"
    using path_text_facts(1,2) [OF P] by (auto simp: slash_def)
  have h': "path_text r (P @ split_on slash x) \<noteq> '''' \<and> (hd (path_text r (P @ split_on slash x)) = slash) = r"
    using path_text_facts(1,2) [OF PX] by blast
  show ?thesis
    unfolding path_rel_def Let_def b t rp rt strip_common_self
    using diff h h' path_text_facts(1) [OF P] by (auto simp: path_text_facts)
qed

end
