(* ===== verification/Journal_Names.thy ===== *)
theory Journal_Names
  imports Journal File_Writes Path_Laws
begin

text \<open>
  The names of a checked journal: they live side by side, apart from the files that the compiler keeps
  for itself, and every operation on them is sound. The proofs of \<open>Crash_Safety\<close> rest on this.
\<close>

subsection \<open>The names of a journal\<close>

text \<open>What the journal relies on in \<open>strings.ToLower\<close>, beside the laws of the layout check: it keeps the
  lower-case names that the compiler reserves.\<close>

locale reserved_folding = case_folding +
  assumes lower_reserved: "n \<in> {''.stego'', ''go.mod'', ''go.sum''} \<Longrightarrow> lower n = n"
begin

lemma output_relative_first:
  assumes "output_relative lower pd (path_join [pd, od]) = Inr rel" "valid_path od"
  shows "hd (split_on slash od) \<notin> {''.stego'', ''go.mod'', ''go.sum''}"
proof -
  have "path_rel pd (path_join [pd, od]) = Some od"
    by (rule path_rel_join [OF valid_path_plain [OF assms(2)]])
  with assms have "lower (hd (split_on slash od)) \<notin> set [''fills'', ''.stego'', ''.git'', ''go.mod'', ''go.sum'', ''service.yaml'']"
    by (auto simp: output_relative_def Let_def split: if_splits)
  then show ?thesis using lower_reserved by (metis insertE insertI1 insertI2 list.simps(15) singletonD)
qed

lemma layout_separate:
  assumes "validate_file_layout lower names = None" "\<forall>n \<in> set names. valid_path n"
    and "n \<in> set names" "m \<in> set names"
  shows "n \<notin> ancestors m"
proof
  assume "n \<in> ancestors m"
  then have "above lower n m" by (auto simp: ancestors_def above_iff lower_append_slash)
  moreover have "\<not> above lower n m"
    using assms valid_path_plain file_layout_iff [of names] by auto
  ultimately show False by simp
qed

end

interpretation ascii_reserved: reserved_folding lower_ascii
  by unfold_locales (auto simp: lower_ascii_def ascii_lower_def Let_def)

text \<open>Names that live side by side: no one is a folder of another one, of the output folder, or of a file
  that the compiler keeps for itself.\<close>

definition own_files :: "string set" where "own_files = {transaction_path, lock_path}"

definition apart :: "string \<Rightarrow> string set \<Rightarrow> bool" where
  "apart od N \<longleftrightarrow>
     (\<forall>n \<in> N. (\<forall>m \<in> N \<union> own_files \<union> {od @ slash # ''entry''}. n \<notin> ancestors m) \<and> n \<notin> own_files) \<and>
     (\<forall>k \<in> own_files. \<forall>m \<in> N \<union> own_files \<union> {od @ slash # ''entry''}. k \<notin> ancestors m)"

text \<open>The parts of a path, and that no temporary name from now on is a part of a name or of a path in use.\<close>

definition fresh :: "world \<Rightarrow> string set \<Rightarrow> bool" where
  "fresh w M \<longleftrightarrow> (\<forall>t. slash \<notin> set (w_nonce w t)) \<and> (\<forall>t \<ge> w_tick w. \<forall>p. p \<in> M \<or> map_of (w_fs w) p \<noteq> None \<longrightarrow>
     temp_part (w_nonce w t) \<notin> set (split_on slash p))"

lemma ancestors_parts: "p \<in> ancestors n \<Longrightarrow> set (split_on slash p) \<subseteq> set (split_on slash n)"
  by (auto simp: ancestors_def split_on_append_join)

lemma ancestors_length: "p \<in> ancestors n \<Longrightarrow> length p < length n"
  by (auto simp: ancestors_def)

lemma temps_parts:
  assumes "p \<in> temps w base name" "\<And>t. slash \<notin> set (w_nonce w t)"
  shows "\<exists>t \<ge> w_tick w. temp_part (w_nonce w t) \<in> set (split_on slash p)"
proof -
  obtain t where t: "w_tick w \<le> t" "p = root_path base (temp_path (path_dir name) (w_nonce w t))"
    using assms(1) by (auto simp: temps_def)
  have "slash \<notin> set (temp_part (w_nonce w t))" using assms(2) by (simp add: temp_part_def slash_def)
  then have "temp_part (w_nonce w t) \<in> set (split_on slash p)"
    unfolding t(2) by (auto simp: root_path_def temp_path_def split_on_append_join split_on_no_sep)
  with t(1) show ?thesis by blast
qed

lemma fresh_kept:
  assumes "fresh w M" "goes_on w w'" "kept D X (w_fs w) (w_fs w')"
    and "\<And>p. p \<in> D \<Longrightarrow> \<exists>m \<in> M. p \<in> ancestors m" and "X \<subseteq> M"
  shows "fresh w' M"
proof -
  have "temp_part (w_nonce w' t) \<notin> set (split_on slash p)"
    if t: "w_tick w' \<le> t" and p: "p \<in> M \<or> map_of (w_fs w') p \<noteq> None" for t p
  proof -
    have t': "w_tick w \<le> t" "w_nonce w' t = w_nonce w t" using assms(2) t by (auto simp: goes_on_def)
    have "p \<in> M \<or> map_of (w_fs w) p \<noteq> None \<or> p \<in> D"
      using p assms(3,5) unfolding kept_def by (metis subsetD)
    then consider "p \<in> M" | "map_of (w_fs w) p \<noteq> None" | "p \<in> D" by blast
    then show ?thesis
    proof cases
      case 3
      then obtain m where "m \<in> M" "p \<in> ancestors m" using assms(4) by blast
      then show ?thesis using assms(1) t' ancestors_parts unfolding fresh_def by (metis subsetD)
    qed (use assms(1) t' in \<open>auto simp: fresh_def\<close>)
  qed
  then show ?thesis using assms(1,2) by (simp add: fresh_def goes_on_def)
qed

subsection \<open>What the check of a journal gives\<close>

definition operation_sound :: "(string \<Rightarrow> string) \<Rightarrow> transaction \<Rightarrow> string gomap \<Rightarrow> transaction_operation \<Rightarrow> bool" where
  "operation_sound sha256 tx contents op \<longleftrightarrow>
     map_of (tx_expected tx) (op_path op) = Some (op_before op) \<and>
     (if snap_exists (op_after op)
      then \<exists>data. map_of contents (op_path op) = Some data \<and> sha256 data = snap_hash (op_after op) \<and>
        length data \<le> max_tracked_bytes \<and> mode_perm (snap_mode (op_after op)) = snap_mode (op_after op)
      else op_after op = absent_file)"

definition journal_sound :: "(string \<Rightarrow> string) \<Rightarrow> transaction \<Rightarrow> string gomap \<Rightarrow> bool" where
  "journal_sound sha256 tx contents \<longleftrightarrow>
     valid_path (tx_output_dir tx) \<and>
     (\<forall>n \<in> keys_of (tx_expected tx). valid_path n \<and>
        (has_prefix n (tx_output_dir tx @ [slash]) \<longrightarrow> valid_path (trim_prefix n (tx_output_dir tx @ [slash])))) \<and>
     apart (tx_output_dir tx) (keys_of (tx_expected tx)) \<and>
     distinct (map op_path (tx_operations tx)) \<and>
     (\<forall>op \<in> set (tx_operations tx). operation_sound sha256 tx contents op)"

lemma operation_fault_None:
  assumes "operation_fault tx seen index op = None"
  shows "op_path op \<notin> set seen" "map_of (tx_expected tx) (op_path op) = Some (op_before op)" "valid_snapshot (op_after op)"
  using assms by (auto simp: operation_fault_def split: option.splits if_splits)

lemma operation_content_Inr:
  assumes "operation_content sha256 bytes op = Inr data"
  shows "sha256 data = snap_hash (op_after op)" "length data \<le> max_tracked_bytes"
  using assms by (auto simp: operation_content_def split: option.splits if_splits)

lemma scan_operations_sound:
  assumes "scan_operations sha256 tx index ops acc = Inr acc'"
  shows "distinct (map op_path ops) \<and> op_path ` set ops \<inter> set (ts_seen acc) = {} \<and>
    (\<forall>op \<in> set ops. operation_sound sha256 tx (ts_contents acc') op) \<and>
    (\<forall>p. p \<notin> op_path ` set ops \<longrightarrow> map_of (ts_contents acc') p = map_of (ts_contents acc) p)"
  using assms
proof (induction ops arbitrary: index acc)
  case Nil
  then show ?case by simp
next
  case (Cons op ops)
  have f: "operation_fault tx (ts_seen acc) index op = None"
    using Cons.prems by (auto split: option.splits)
  note o = operation_fault_None [OF f]
  have absent: "\<not> snap_exists (op_after op) \<Longrightarrow> op_after op = absent_file"
    and mode: "snap_exists (op_after op) \<Longrightarrow> mode_perm (snap_mode (op_after op)) = snap_mode (op_after op)"
    using o(3) by (auto simp: valid_snapshot_def)
  show ?case
  proof (cases "snap_exists (op_after op)")
    case True
    with Cons.prems f obtain data where d: "operation_content sha256 (ts_total acc) op = Inr data"
      by (cases "operation_content sha256 (ts_total acc) op") (auto simp: Let_def)
    with Cons.prems f True have "scan_operations sha256 tx (Suc index) ops
        (acc\<lparr>ts_seen := op_path op # ts_seen acc,
             ts_final := AList.update (op_path op) (op_after op) (ts_final acc),
             ts_contents := AList.update (op_path op) data (ts_contents acc),
             ts_total := ts_total acc + length data\<rparr>) = Inr acc'"
      by (simp add: Let_def)
    from Cons.IH [OF this] show ?thesis
      using o True mode operation_content_Inr [OF d] by (auto simp: operation_sound_def)
  next
    case False
    with Cons.prems f have "scan_operations sha256 tx (Suc index) ops
        (acc\<lparr>ts_seen := op_path op # ts_seen acc,
             ts_final := AList.update (op_path op) (op_after op) (ts_final acc)\<rparr>) = Inr acc'"
      by (auto simp: Let_def split: if_splits)
    from Cons.IH [OF this] show ?thesis
      using o False absent by (auto simp: operation_sound_def)
  qed
qed

lemma validate_transaction_path_None:
  assumes "validate_transaction_path od n = None"
  shows "valid_path n"
    "has_prefix n (od @ [slash]) \<Longrightarrow> is_project_root_file n \<or> n = state_path \<or> valid_path (trim_prefix n (od @ [slash]))"
    "is_project_root_file n \<or> n = state_path \<or> has_prefix n (od @ [slash])"
  using assms by (auto simp: validate_transaction_path_def split: option.splits if_splits)


lemma split_hd_under: "hd (split_on slash (a @ slash # r)) = hd (split_on slash a)"
  by (simp add: split_on_append_join hd_append)

lemma ancestors_hd: "p \<in> ancestors m \<Longrightarrow> hd (split_on slash p) = hd (split_on slash m)"
  by (auto simp: ancestors_def split_hd_under)

lemma own_file_facts:
  "k \<in> own_files \<Longrightarrow> ancestors k = {''.stego''} \<and> hd (split_on slash k) = ''.stego''"
  "ancestors state_path = {''.stego''}" "hd (split_on slash state_path) = ''.stego''"
  "state_path \<notin> own_files" "''.stego'' \<notin> own_files" "slash \<notin> set ''.stego''"
proof -
  have no: "slash \<notin> set ''.stego''" "slash \<notin> set ''transaction.yaml''" "slash \<notin> set ''apply.lock''" "slash \<notin> set ''state.yaml''"
    by (simp_all add: slash_def)
  have own: "ancestors (''.stego'' @ slash # x) = {''.stego''} \<and> hd (split_on slash (''.stego'' @ slash # x)) = ''.stego''"
    if "slash \<notin> set x" for x
    unfolding ancestors_step [OF that] ancestors_no_slash [OF no(1)] split_hd_under split_on_no_sep [OF no(1)] by simp
  have paths: "transaction_path = ''.stego'' @ slash # ''transaction.yaml''" "lock_path = ''.stego'' @ slash # ''apply.lock''"
    "state_path = ''.stego'' @ slash # ''state.yaml''"
    by (simp_all add: transaction_path_def lock_path_def state_path_def slash_def)
  show "k \<in> own_files \<Longrightarrow> ancestors k = {''.stego''} \<and> hd (split_on slash k) = ''.stego''"
    unfolding own_files_def paths using own [OF no(2)] own [OF no(3)] by blast
  show "ancestors state_path = {''.stego''}" "hd (split_on slash state_path) = ''.stego''"
    unfolding paths using own [OF no(4)] by blast+
  show "state_path \<notin> own_files" "''.stego'' \<notin> own_files" "slash \<notin> set ''.stego''"
    by (simp_all add: own_files_def state_path_def transaction_path_def lock_path_def slash_def)
qed

lemma names_apart:
  assumes first: "hd (split_on slash od) \<notin> {''.stego'', ''go.mod'', ''go.sum''}"
    and names: "\<And>n. n \<in> N \<Longrightarrow> is_project_root_file n \<or> n = state_path \<or> has_prefix n (od @ [slash])"
    and layout: "\<And>n m. n \<in> N \<Longrightarrow> m \<in> N \<Longrightarrow> n \<notin> ancestors m"
  shows "apart od N"
proof -
  have kinds: "(slash \<notin> set n \<and> n \<in> {''go.mod'', ''go.sum''}) \<or> n = state_path \<or> (\<exists>r. n = od @ slash # r)" if "n \<in> N" for n
    using names [OF that] by (auto simp: is_project_root_file_def has_prefix_def prefix_def slash_def)
  have out: "hd (split_on slash (od @ slash # r)) \<notin> {''.stego'', ''go.mod'', ''go.sum''}" for r
    using first by (simp add: split_hd_under)
  have root_hd: "slash \<notin> set n \<Longrightarrow> hd (split_on slash n) = n" for n by (simp add: split_on_no_sep)
  have stego: "n \<noteq> ''.stego''" if "n \<in> N" for n
  proof
    assume "n = ''.stego''"
    moreover have "hd (split_on slash ''.stego'') = ''.stego''" by (simp add: slash_def)
    moreover have "slash \<in> set state_path" by (simp add: state_path_def slash_def)
    ultimately show False using kinds [OF that] out own_file_facts(6) by fastforce
  qed
  have own: "n \<notin> own_files" if "n \<in> N" for n
  proof
    assume "n \<in> own_files"
    then have h: "hd (split_on slash n) = ''.stego''" and s: "n \<noteq> state_path" using own_file_facts by blast+
    from kinds [OF that] s consider "slash \<notin> set n" "n \<in> {''go.mod'', ''go.sum''}" | r where "n = od @ slash # r" by blast
    then show False
    proof cases
      case 1
      then show False using h root_hd by auto
    next
      case (2 r)
      then show False using h out by simp
    qed
  qed
  have entry: "n \<notin> ancestors (od @ slash # ''entry'')" if "n \<in> N" for n
  proof
    assume a: "n \<in> ancestors (od @ slash # ''entry'')"
    have "slash \<notin> set ''entry''" by (simp add: slash_def)
    then have "n = od \<or> n \<in> ancestors od" using a by (simp add: ancestors_step)
    then have l: "length n \<le> length od" by (auto dest: ancestors_length)
    have h: "hd (split_on slash n) = hd (split_on slash od)" using ancestors_hd [OF a] by (simp add: split_hd_under)
    from kinds [OF that] consider "slash \<notin> set n" "n \<in> {''go.mod'', ''go.sum''}" | "n = state_path" | r where "n = od @ slash # r"
      by blast
    then show False
    proof cases
      case 1
      then show False using h first root_hd by auto
    next
      case 2
      then show False using h first own_file_facts(3) by simp
    next
      case (3 r)
      then show False using l by simp
    qed
  qed
  have keep: "k \<notin> ancestors m" if k: "k \<in> own_files" and m: "m \<in> N \<union> own_files \<union> {od @ slash # ''entry''}" for k m
  proof
    assume a: "k \<in> ancestors m"
    have h: "hd (split_on slash m) = ''.stego''" using ancestors_hd [OF a] own_file_facts(1) [OF k] by simp
    from m consider "slash \<notin> set m" | "m = state_path" | r where "m = od @ slash # r" | "m \<in> own_files"
      using kinds by blast
    then show False
    proof cases
      case 1
      with a show False by (simp add: ancestors_no_slash)
    next
      case (3 r)
      with h out show False by auto
    qed (use a k own_file_facts in auto)
  qed
  have "n \<notin> ancestors m" if "n \<in> N" "m \<in> N \<union> own_files \<union> {od @ slash # ''entry''}" for n m
    using that layout stego entry own_file_facts(1) by blast
  with own keep show ?thesis unfolding apart_def by blast
qed

lemma validate_journal_sound:
  assumes fold: "reserved_folding (pe_lower (ae_plan env))"
    and v: "validate_transaction env tx pd = Inr contents"
  shows "journal_sound (ae_sha256 env) tx contents"
proof -
  let ?od = "tx_output_dir tx" and ?N = "keys_of (tx_expected tx)"
  have head: "transaction_head_fault env tx pd = None"
    using v by (cases "transaction_head_fault env tx pd") (simp_all add: validate_transaction_def)
  then obtain scan where scan: "scan_operations (ae_sha256 env) tx 0 (tx_operations tx)
      \<lparr>ts_contents = [], ts_final = tx_expected tx, ts_seen = [], ts_total = 0\<rparr> = Inr scan"
    and c: "contents = ts_contents scan"
    using v by (cases "scan_operations (ae_sha256 env) tx 0 (tx_operations tx)
      \<lparr>ts_contents = [], ts_final = tx_expected tx, ts_seen = [], ts_total = 0\<rparr>")
      (auto simp: validate_transaction_def split: option.splits elim: after.elims)
  have od: "valid_path ?od" using head by (auto simp: transaction_head_fault_def split: if_splits)
  obtain rel where rel: "output_relative (pe_lower (ae_plan env)) pd (path_join [pd, ?od]) = Inr rel"
    and e: "first_error (expected_fault tx) (sorted_keys (tx_expected tx)) = None"
    and l: "validate_file_layout (pe_lower (ae_plan env)) (sorted_keys (tx_expected tx)) = None"
    using head by (auto simp: transaction_head_fault_def split: if_splits sum.splits option.splits elim!: or_else.elims)
  have keys: "set (sorted_keys (tx_expected tx)) = ?N" by (simp add: keys_of_def)
  have p: "validate_transaction_path ?od n = None" if "n \<in> ?N" for n
    using e that keys by (fastforce simp: first_error_None expected_fault_def split: option.splits)
  note paths = validate_transaction_path_None [OF p]
  have first: "hd (split_on slash ?od) \<notin> {''.stego'', ''go.mod'', ''go.sum''}"
    by (rule reserved_folding.output_relative_first [OF fold rel od])
  have "n \<notin> ancestors m" if "n \<in> ?N" "m \<in> ?N" for n m
    by (rule reserved_folding.layout_separate [OF fold l]) (unfold keys, use that paths(1) in auto)
  then have apart: "apart ?od ?N"
    by (intro names_apart [OF first] paths(3))
  have under: "valid_path (trim_prefix n (?od @ [slash]))" if n: "n \<in> ?N" and u: "has_prefix n (?od @ [slash])" for n
  proof -
    obtain r where r: "n = ?od @ slash # r" using u by (auto simp: has_prefix_def prefix_def)
    then have "hd (split_on slash n) = hd (split_on slash ?od)" by (simp add: split_hd_under)
    then have "n \<noteq> state_path" using first own_file_facts(3) by auto
    moreover have "slash \<notin> set ''go.mod''" "slash \<notin> set ''go.sum''" by (simp_all add: slash_def)
    then have "\<not> is_project_root_file n" unfolding is_project_root_file_def r by (metis in_set_conv_decomp)
    ultimately show ?thesis using paths(2) [OF n u] by blast
  qed
  show ?thesis
    unfolding journal_sound_def c
    using scan_operations_sound [OF scan] od apart under paths(1) by blast
qed

end
