(* ===== verification/Crash_Safety.thy ===== *)
theory Crash_Safety
  imports Journal_Names
begin

text \<open>
  The promises of the apply journal (\<open>internal/compiler/transaction.go\<close>): whatever step fails and
  wherever a run is stopped, the files of the project are all as before the apply, or recovery takes
  all of them to where the apply wanted them.
\<close>

subsection \<open>What an operation leaves alone\<close>

definition tracked :: "transaction \<Rightarrow> string set" where
  "tracked tx = keys_of (tx_expected tx)"

definition all_names :: "transaction \<Rightarrow> string set" where
  "all_names tx = tracked tx \<union> own_files \<union> {tx_output_dir tx @ slash # ''entry''}"

text \<open>Outside \<open>Y\<close> the tracked files and the compiler's own files are untouched, and paths stay clear.\<close>

definition spares :: "transaction \<Rightarrow> string set \<Rightarrow> node gomap \<Rightarrow> node gomap \<Rightarrow> bool" where
  "spares tx Y fs fs' \<longleftrightarrow>
     (\<forall>n \<in> tracked tx \<union> own_files. n \<notin> Y \<longrightarrow> map_of fs' n = map_of fs n) \<and>
     (\<forall>n \<in> all_names tx. clear_path fs '''' n \<longrightarrow> clear_path fs' '''' n)"

lemma spares_refl [simp]: "spares tx Y fs fs"
  by (simp add: spares_def)

lemma spares_trans [trans]: "spares tx Y a b \<Longrightarrow> spares tx Y b c \<Longrightarrow> spares tx Y a c"
  by (simp add: spares_def)

lemma spares_mono: "spares tx Y a b \<Longrightarrow> Y \<subseteq> Z \<Longrightarrow> spares tx Z a b"
  unfolding spares_def by blast

definition names_apart_in :: "transaction \<Rightarrow> bool" where
  "names_apart_in tx \<longleftrightarrow> apart (tx_output_dir tx) (tracked tx)"

lemma apart_ancestors:
  "names_apart_in tx \<Longrightarrow> n \<in> tracked tx \<union> own_files \<Longrightarrow> m \<in> all_names tx \<Longrightarrow> n \<notin> ancestors m"
  unfolding names_apart_in_def apart_def all_names_def by blast

lemma clear_path_ancestors:
  "clear_path fs '''' n \<longleftrightarrow> valid_path n \<and> (\<forall>p \<in> ancestors n. map_of fs p = None \<or> map_of fs p = Some Dir)"
  by (simp add: clear_path_def path_prefixes_ancestors)

lemma kept_spares:
  assumes "kept D X fs fs'"
    and "\<And>n. n \<in> tracked tx \<union> own_files \<Longrightarrow> n \<notin> Y \<Longrightarrow> n \<notin> X \<and> n \<notin> D"
    and "\<And>n. n \<in> all_names tx \<Longrightarrow> ancestors n \<inter> X = {}"
  shows "spares tx Y fs fs'"
proof -
  have "map_of fs' p = None \<or> map_of fs' p = Some Dir"
    if "n \<in> all_names tx" "p \<in> ancestors n" "map_of fs p = None \<or> map_of fs p = Some Dir" for n p
    using assms(1,3) that unfolding kept_def by (metis disjoint_iff)
  then show ?thesis
    using assms(1,2) unfolding spares_def clear_path_ancestors kept_def by metis
qed

lemma fresh_not_temp:
  assumes "fresh w M" "p \<in> M \<or> (\<exists>m \<in> M. p \<in> ancestors m) \<or> map_of (w_fs w) p \<noteq> None"
  shows "p \<notin> temps w base name"
proof
  assume "p \<in> temps w base name"
  then obtain t where t: "w_tick w \<le> t" "temp_part (w_nonce w t) \<in> set (split_on slash p)"
    using temps_parts assms(1) unfolding fresh_def by blast
  from assms(2) show False
  proof (elim disjE bexE)
    fix m assume "m \<in> M" "p \<in> ancestors m"
    with t ancestors_parts assms(1) show False unfolding fresh_def by (metis subsetD)
  qed (use t assms(1) in \<open>auto simp: fresh_def\<close>)
qed

text \<open>A file that is written through a root: the path of the file and its folders.\<close>

definition reached :: "string \<Rightarrow> string \<Rightarrow> string \<Rightarrow> bool" where
  "reached base name n \<longleftrightarrow> root_path base name = n \<and> folders base name \<subseteq> ancestors n"

lemma reached_project: "reached '''' n n"
  by (auto simp: reached_def folders_def)

lemma reached_output:
  assumes "valid_path od"
  shows "reached od name (od @ slash # name)"
  using valid_path_nonempty [OF assms] by (auto simp: reached_def folders_def root_path_def ancestors_under)

lemma publish_conditions:
  assumes "reached base name n" "n \<in> all_names tx" "fresh w (all_names tx)"
  shows "root_path base name \<notin> folders base name" "root_path base name \<notin> temps w base name"
    "folders base name \<inter> temps w base name = {}"
proof -
  have n: "root_path base name = n" "folders base name \<subseteq> ancestors n" using assms(1) by (auto simp: reached_def)
  show "root_path base name \<notin> folders base name" using n ancestors_length by fastforce
  show "root_path base name \<notin> temps w base name" unfolding n(1) by (rule fresh_not_temp [OF assms(3)]) (use assms(2) in blast)
  show "folders base name \<inter> temps w base name = {}" using fresh_not_temp [OF assms(3)] n(2) assms(2) by blast
qed

lemma published_spares:
  assumes "names_apart_in tx" "reached base name n" "n \<in> tracked tx \<union> own_files" "fresh w (all_names tx)"
    and "kept (folders base name) (insert n (temps w base name)) (w_fs w) fs'"
  shows "spares tx {n} (w_fs w) fs'"
proof (rule kept_spares [OF assms(5)])
  have na: "n \<in> all_names tx" using assms(3) by (auto simp: all_names_def)
  fix m assume m: "m \<in> tracked tx \<union> own_files" "m \<notin> {n}"
  then have "m \<in> all_names tx" by (auto simp: all_names_def)
  then show "m \<notin> insert n (temps w base name) \<and> m \<notin> folders base name"
    using m fresh_not_temp [OF assms(4)] apart_ancestors [OF assms(1) m(1) na] assms(2) unfolding reached_def by blast
next
  fix m assume m: "m \<in> all_names tx"
  show "ancestors m \<inter> insert n (temps w base name) = {}"
    using fresh_not_temp [OF assms(4)] apart_ancestors [OF assms(1,3) m] m by blast
qed

lemma written_fresh:
  assumes "written base name node w w'" "reached base name n" "n \<in> all_names tx" "fresh w (all_names tx)"
  shows "fresh w' (all_names tx)"
  by (rule fresh_kept [OF assms(4), of w' "folders base name" "{n}"])
    (use assms(1-3) in \<open>auto simp: written_def reached_def\<close>)

subsection \<open>A project that recovery can take up\<close>

definition settled :: "(string \<Rightarrow> string) \<Rightarrow> transaction \<Rightarrow> node gomap \<Rightarrow> string \<Rightarrow> bool" where
  "settled sha256 tx fs n \<longleftrightarrow>
     map_of (tx_expected tx) n = Some (disk_snapshot sha256 fs n) \<or>
     map_of (after_states (tx_operations tx)) n = Some (disk_snapshot sha256 fs n)"

definition resumable :: "(string \<Rightarrow> string) \<Rightarrow> transaction \<Rightarrow> node gomap \<Rightarrow> bool" where
  "resumable sha256 tx fs \<longleftrightarrow>
     (\<forall>n \<in> tracked tx. clear_path fs '''' n \<and> file_within fs n max_tracked_bytes \<and> settled sha256 tx fs n)"

lemma node_facts:
  "map_of fs' n = map_of fs n \<Longrightarrow> disk_snapshot sha256 fs' n = disk_snapshot sha256 fs n"
  "map_of fs' n = map_of fs n \<Longrightarrow> file_within fs' n limit = file_within fs n limit"
  "map_of fs' n = map_of fs n \<Longrightarrow> settled sha256 tx fs' n = settled sha256 tx fs n"
  by (simp_all add: disk_snapshot_def file_within_def settled_def)

lemma resumable_spares:
  assumes "resumable sha256 tx fs" "spares tx {n} fs fs'"
    and "n \<in> tracked tx \<Longrightarrow> file_within fs' n max_tracked_bytes \<and> settled sha256 tx fs' n"
  shows "resumable sha256 tx fs'"
  unfolding resumable_def
proof
  fix m assume m: "m \<in> tracked tx"
  then have "m \<in> all_names tx" by (simp add: all_names_def)
  then have "clear_path fs' '''' m" using assms(1,2) m unfolding resumable_def spares_def by blast
  moreover have "file_within fs' m max_tracked_bytes \<and> settled sha256 tx fs' m"
  proof (cases "m = n")
    case True
    then show ?thesis using assms(3) m by blast
  next
    case False
    then have "map_of fs' m = map_of fs m" using assms(2) m unfolding spares_def by blast
    then show ?thesis using assms(1) m node_facts unfolding resumable_def by metis
  qed
  ultimately show "clear_path fs' '''' m \<and> file_within fs' m max_tracked_bytes \<and> settled sha256 tx fs' m" by blast
qed


subsection \<open>One operation\<close>

lemma updates_other:
  "n \<notin> op_path ` set ops \<Longrightarrow>
     map_of (fold (\<lambda>op m. AList.update (op_path op) (op_after op) m) ops m) n = map_of m n"
  by (induction ops arbitrary: m) auto

lemma updates_target:
  "distinct (map op_path ops) \<Longrightarrow> op \<in> set ops \<Longrightarrow>
     map_of (fold (\<lambda>op m. AList.update (op_path op) (op_after op) m) ops m) (op_path op) = Some (op_after op)"
  by (induction ops arbitrary: m) (auto simp: updates_other)

text \<open>The journal \<open>tx\<close> has been checked, with the contents of its operations.\<close>

definition checked :: "(string \<Rightarrow> string) \<Rightarrow> transaction \<Rightarrow> string gomap \<Rightarrow> bool" where
  "checked sha256 tx contents \<longleftrightarrow> journal_sound sha256 tx contents \<and> names_apart_in tx"

lemma journal_sound_checked: "journal_sound sha256 tx contents \<Longrightarrow> checked sha256 tx contents"
  by (simp add: checked_def journal_sound_def names_apart_in_def tracked_def)

lemma checked_facts:
  assumes "checked sha256 tx contents"
  shows "names_apart_in tx" "valid_path (tx_output_dir tx)" "distinct (map op_path (tx_operations tx))"
    and "op \<in> set (tx_operations tx) \<Longrightarrow> op_path op \<in> tracked tx"
    and "op \<in> set (tx_operations tx) \<Longrightarrow> operation_sound sha256 tx contents op"
    and "n \<in> tracked tx \<Longrightarrow> has_prefix n (tx_output_dir tx @ [slash]) \<Longrightarrow>
      valid_path (trim_prefix n (tx_output_dir tx @ [slash]))"
  using assms
  by (auto simp: checked_def journal_sound_def tracked_def operation_sound_def keys_of_dom)

lemma operation_root_reached:
  assumes "checked sha256 tx contents" "n \<in> tracked tx" "operation_root tx n = (base, name)"
  shows "reached base name n" "clear_path fs '''' n \<Longrightarrow> clear_path fs base name"
proof -
  have *: "reached base name n \<and> (valid_path n \<longrightarrow> valid_path name)"
  proof (cases "has_prefix n (tx_output_dir tx @ [slash])")
    case True
    then obtain r where r: "n = tx_output_dir tx @ slash # r" by (auto simp: has_prefix_def prefix_def)
    then have "base = tx_output_dir tx" "name = r" using assms(3) True
      by (auto simp: operation_root_def trim_prefix_def)
    moreover have "valid_path r"
      using checked_facts(6) [OF assms(1,2) True] True r by (simp add: trim_prefix_def)
    ultimately show ?thesis using reached_output [OF checked_facts(2) [OF assms(1)]] r by simp
  next
    case False
    then show ?thesis using assms(3) by (auto simp: operation_root_def reached_project)
  qed
  then show "reached base name n" ..
  show "clear_path fs '''' n \<Longrightarrow> clear_path fs base name"
    using * unfolding clear_path_folders [of fs base] clear_path_ancestors reached_def by blast
qed

lemma carry_out_spec:
  assumes ck: "checked sha256 tx contents" and op: "op \<in> set (tx_operations tx)"
    and res: "resumable sha256 tx (w_fs w)" and fr: "fresh w (all_names tx)"
    and cur: "snapshot_of current (op_path op) = disk_snapshot sha256 (w_fs w) (op_path op)"
    and root: "operation_root tx (op_path op) = (base, name)"
  shows "wp (carry_out current contents base name op)
    (\<lambda>_ w'. goes_on w w' \<and> spares tx {op_path op} (w_fs w) (w_fs w') \<and> fresh w' (all_names tx) \<and>
       resumable sha256 tx (w_fs w') \<and> disk_snapshot sha256 (w_fs w') (op_path op) = op_after op)
    (\<lambda>_ w'. goes_on w w' \<and> spares tx {op_path op} (w_fs w) (w_fs w') \<and> resumable sha256 tx (w_fs w') \<and> \<not> calm w) w"
    (is "wp _ ?Q ?E w")
proof -
  let ?n = "op_path op"
  note facts = checked_facts [OF ck]
  have n: "?n \<in> tracked tx" "?n \<in> tracked tx \<union> own_files" "?n \<in> all_names tx"
    using facts(4) [OF op] by (auto simp: all_names_def)
  have sound: "operation_sound sha256 tx contents op" by (rule facts(5) [OF op])
  have reach: "reached base name ?n" and clear: "clear_path (w_fs w) base name"
    using operation_root_reached [OF ck n(1) root] res n(1) by (auto simp: resumable_def)
  have path: "root_path base name = ?n" using reach by (simp add: reached_def)
  have after: "map_of (after_states (tx_operations tx)) ?n = Some (op_after op)"
    unfolding after_states_def by (rule updates_target [OF facts(3) op])
  have target: "file_within (w_fs w) ?n max_tracked_bytes" "settled sha256 tx (w_fs w) ?n"
    using res n(1) by (auto simp: resumable_def)
  then have foa: "file_or_absent (w_fs w) ?n"
    by (auto simp: file_or_absent_def file_within_def split: option.splits node.splits)
  have keeps: "resumable sha256 tx fs'" if "spares tx {?n} (w_fs w) fs'"
    "map_of fs' ?n = map_of (w_fs w) ?n \<or> (file_within fs' ?n max_tracked_bytes \<and> disk_snapshot sha256 fs' ?n = op_after op)" for fs'
  proof (rule resumable_spares [OF res that(1)])
    from that(2) show "file_within fs' ?n max_tracked_bytes \<and> settled sha256 tx fs' ?n"
    proof
      assume "map_of fs' ?n = map_of (w_fs w) ?n"
      with target node_facts show ?thesis by metis
    next
      assume "file_within fs' ?n max_tracked_bytes \<and> disk_snapshot sha256 fs' ?n = op_after op"
      with after show ?thesis by (simp add: settled_def)
    qed
  qed
  consider "snapshot_of current ?n = op_after op"
    | "snapshot_of current ?n \<noteq> op_after op" "snap_exists (op_after op)"
    | "snapshot_of current ?n \<noteq> op_after op" "\<not> snap_exists (op_after op)" by blast
  then show ?thesis
  proof cases
    case 1
    then show ?thesis using res fr cur by (simp add: carry_out_def io_wp)
  next
    case 2
    then obtain data where d: "map_of contents ?n = Some data" "sha256 data = snap_hash (op_after op)"
      "length data \<le> max_tracked_bytes" "mode_perm (snap_mode (op_after op)) = snap_mode (op_after op)"
      using sound by (auto simp: operation_sound_def)
    have node: "map_of fs' ?n = Some (Regular data (mode_perm (snap_mode (op_after op)))) \<Longrightarrow>
        file_within fs' ?n max_tracked_bytes \<and> disk_snapshot sha256 fs' ?n = op_after op" for fs'
      using d 2(2) by (simp add: file_within_def disk_snapshot_def)
    have can: "calm w \<Longrightarrow> writable base name w"
      using clear foa fresh_not_temp [OF fr] unfolding writable_def path by blast
    show ?thesis
      using 2 unfolding carry_out_def if_not_P [OF 2(1)] if_P [OF 2(2)]
    proof (intro wp_mono [OF publish_spec [OF publish_conditions [OF reach n(3) fr]]], goal_cases)
      case (1 a w')
      have v: "written base name (Regular data (mode_perm (snap_mode (op_after op)))) w w'"
        using 1(3) d(1) by (simp add: map_get_def)
      have "kept (folders base name) (insert ?n (temps w base name)) (w_fs w) (w_fs w')"
        using v kept_mono [of "folders base name" "{?n}"] unfolding written_def path by blast
      then have "spares tx {?n} (w_fs w) (w_fs w')"
        by (rule published_spares [OF facts(1) reach n(2) fr])
      moreover have "file_within (w_fs w') ?n max_tracked_bytes \<and> disk_snapshot sha256 (w_fs w') ?n = op_after op"
        by (rule node) (use v in \<open>simp add: written_def path\<close>)
      ultimately show ?case
        using v keeps written_fresh [OF v reach n(3) fr] by (simp add: written_def)
    next
      case (2 e w')
      have v: "half_written base name (Regular data (mode_perm (snap_mode (op_after op)))) w w'" and c: "\<not> calm w"
        using 2(3) d(1) can by (auto simp: map_get_def)
      have s: "spares tx {?n} (w_fs w) (w_fs w')"
        by (rule published_spares [OF facts(1) reach n(2) fr]) (use v in \<open>simp add: half_written_def path\<close>)
      have "resumable sha256 tx (w_fs w')"
        by (rule keeps [OF s]) (use v node in \<open>auto simp: half_written_def path\<close>)
      with v s c show ?case by (simp add: half_written_def)
    qed
  next
    case 3
    then have absent: "op_after op = absent_file" using sound by (simp add: operation_sound_def)
    have sp: "spares tx {?n} (w_fs w) fs'" if "only {?n} (w_fs w) fs'" for fs'
    proof (rule kept_spares [OF only_kept [OF that order_refl, where D = "{}"]])
      show "ancestors m \<inter> {?n} = {}" if "m \<in> all_names tx" for m
        using apart_ancestors [OF facts(1) n(2) that] by blast
    qed auto
    show ?thesis
      unfolding carry_out_def if_not_P [OF 3(1)] if_not_P [OF 3(2)] path
    proof (rule wp_mono [OF remove_file_spec], goal_cases)
      case (1 a w')
      have gone: "file_within (w_fs w') ?n max_tracked_bytes \<and> disk_snapshot sha256 (w_fs w') ?n = op_after op"
        using 1 absent by (simp add: file_within_def disk_snapshot_def)
      have "fresh w' (all_names tx)"
        by (rule fresh_kept [OF fr, of w' "{}" "{?n}"]) (use 1 n(3) only_kept in auto)
      with 1 gone sp keeps show ?case by simp
    next
      case (2 e w')
      then show ?case using res foa by auto
    qed
  qed
qed


subsection \<open>Steps that change nothing\<close>

lemma sync_dirs_spec: "wp (sync_dirs base ds) (\<lambda>_ w'. same_world w w') (\<lambda>_ w'. same_world w w' \<and> \<not> calm w) w"
proof (induction ds arbitrary: w)
  case Nil
  then show ?case by (auto simp: io_wp dest: failing_not_calm)
next
  case (Cons d ds)
  have rest: "wp (sync_dirs base ds) (\<lambda>_ w'. same_world w w') (\<lambda>_ w'. same_world w w' \<and> \<not> calm w) w1"
    if "same_world w w1" for w1
    by (rule wp_mono [OF Cons.IH]) (use that same_world_trans same_world_simps in blast)+
  have two: "same_world w (step_tick (step_tick w))" by (rule same_world_trans [OF same_world_step same_world_step])
  show ?case
  proof (cases "failing w")
    case True
    with failing_not_calm [OF True] show ?thesis by (simp add: io_wp)
  next
    case go: False
    show ?thesis
    proof (cases "failing (step_tick w) \<and> map_of (w_fs w) (root_path base d) \<noteq> None")
      case True
      with failing_not_calm [of "step_tick w"] go two show ?thesis by (auto simp: io_wp)
    next
      case False
      with go rest [OF same_world_step] rest [OF two] show ?thesis by (auto simp: io_wp)
    qed
  qed
qed

lemma sync_parents_spec:
  "wp (sync_parents base name) (\<lambda>_ w'. same_world w w') (\<lambda>_ w'. same_world w w' \<and> \<not> calm w) w"
  unfolding sync_parents_def by (rule sync_dirs_spec)

lemma run_apply_fault_spec:
  "wp (run_apply_fault hooked point) (\<lambda>_ w'. w' = w) (\<lambda>_ w'. w' = w \<and> \<not> calm w) w"
  by (auto simp: wp_def run_apply_fault_def calm_def)

lemma read_snapshot_either:
  assumes "clear_path (w_fs w) '''' n" "file_within (w_fs w) n limit"
  shows "wp (read_snapshot sha256 '''' n limit)
    (\<lambda>(d, s) w'. same_world w w' \<and> s = disk_snapshot sha256 (w_fs w) n \<and>
       (case map_of (w_fs w) n of None \<Rightarrow> d = '''' | Some (Regular data mode) \<Rightarrow> d = data | _ \<Rightarrow> False))
    (\<lambda>_ w'. same_world w w' \<and> \<not> calm w) w"
proof (cases "calm w")
  case True
  show ?thesis
    by (rule wp_mono [OF read_snapshot_calm [OF True, of "''''" n limit]])
      (use assms in \<open>auto split: option.splits node.splits\<close>)
next
  case False
  then show ?thesis
    by (intro wp_mono [OF read_snapshot_spec]) (auto split: option.splits node.splits)
qed

text \<open>The first loop of a run reads every tracked file and stops at the first that is not settled.\<close>

lemma read_current_settled:
  "wp (read_current sha256 tx names current)
    (\<lambda>_ w'. same_world w w' \<and> (\<forall>n \<in> set names \<inter> tracked tx. settled sha256 tx (w_fs w) n))
    (\<lambda>_ w'. same_world w w') w"
proof (induction names arbitrary: current w)
  case Nil
  then show ?case by (simp add: io_wp)
next
  case (Cons n names)
  show ?case
    unfolding read_current.simps wp_bind
  proof (rule wp_mono [OF read_snapshot_spec], goal_cases)
    case (1 r w1)
    obtain d s where r: "r = (d, s)" by (cases r)
    then have w1: "same_world w w1" and s: "s = disk_snapshot sha256 (w_fs w) n" using 1 by auto
    have set: "settled sha256 tx (w_fs w) n"
      if "\<not> (s \<noteq> the (map_of (tx_expected tx) n) \<and> map_of (after_states (tx_operations tx)) n \<noteq> Some s)" "n \<in> tracked tx"
      using that s by (auto simp: settled_def tracked_def keys_of_dom)
    show ?case
      unfolding r prod.case wp_if wp_error
      using Cons.IH [of "AList.update n s current" w1] set w1 same_world_trans [OF w1]
      by (auto simp: same_world_simps [OF w1] elim!: wp_mono)
  qed auto
qed

lemma read_current_spec:
  assumes "resumable sha256 tx (w_fs w)" "set names \<subseteq> tracked tx"
  shows "wp (read_current sha256 tx names current)
    (\<lambda>cur w'. same_world w w' \<and> (\<forall>n. map_of cur n = (if n \<in> set names then Some (disk_snapshot sha256 (w_fs w) n) else map_of current n)))
    (\<lambda>_ w'. same_world w w' \<and> \<not> calm w) w"
  using assms
proof (induction names arbitrary: current w)
  case Nil
  then show ?case by (simp add: io_wp)
next
  case (Cons n names)
  then have n: "clear_path (w_fs w) '''' n" "file_within (w_fs w) n max_tracked_bytes" "settled sha256 tx (w_fs w) n"
    by (auto simp: resumable_def)
  show ?case
    unfolding read_current.simps wp_bind
  proof (rule wp_mono [OF read_snapshot_either [OF n(1,2)]], goal_cases)
    case (1 r w1)
    obtain d s where r: "r = (d, s)" by (cases r)
    then have w1: "same_world w w1" and s: "s = disk_snapshot sha256 (w_fs w) n" using 1 by auto
    have go: "\<not> (s \<noteq> the (map_of (tx_expected tx) n) \<and> map_of (after_states (tx_operations tx)) n \<noteq> Some s)"
      using n(3) s by (auto simp: settled_def)
    have fs: "w_fs w1 = w_fs w" "calm w1 = calm w" using w1 by (simp_all add: same_world_simps)
    show ?case
      unfolding r prod.case if_not_P [OF go]
      by (rule wp_mono [OF Cons.IH]) (use Cons.prems fs w1 s same_world_trans [OF w1] in \<open>auto simp: fs\<close>)
  qed auto
qed

lemma verify_snapshots_ok:
  assumes "\<And>n s. map_of snaps n = Some s \<Longrightarrow>
    clear_path (w_fs w) '''' n \<and> file_within (w_fs w) n max_tracked_bytes \<and> s = disk_snapshot sha256 (w_fs w) n"
  shows "wp (verify_snapshots sha256 snaps) (\<lambda>_ w'. same_world w w') (\<lambda>_ w'. same_world w w' \<and> \<not> calm w) w"
proof -
  have "wp (verify_names sha256 snaps names) (\<lambda>_ w'. same_world w1 w') (\<lambda>_ w'. same_world w1 w' \<and> \<not> calm w1) w1"
    if "set names \<subseteq> dom (map_of snaps)" "w_fs w1 = w_fs w" for names w1
    using that
  proof (induction names arbitrary: w1)
    case Nil
    then show ?case by (simp add: io_wp)
  next
    case (Cons n names)
    then obtain s where s: "map_of snaps n = Some s" by auto
    then have n: "clear_path (w_fs w1) '''' n" "file_within (w_fs w1) n max_tracked_bytes" "s = disk_snapshot sha256 (w_fs w1) n"
      using assms Cons.prems(2) by auto
    show ?case
      unfolding verify_names.simps wp_bind
    proof (rule wp_mono [OF read_snapshot_either [OF n(1,2)]], goal_cases)
      case (1 r w2)
      obtain d actual where r: "r = (d, actual)" by (cases r)
      then have w2: "same_world w1 w2" and go: "\<not> actual \<noteq> the (map_of snaps n)" using 1 s n(3) by auto
      show ?case
        unfolding r prod.case if_not_P [OF go]
        by (rule wp_mono [OF Cons.IH])
          (use Cons.prems same_world_simps [OF w2] same_world_trans [OF w2] in auto)
    qed auto
  qed
  then show ?thesis
    unfolding verify_snapshots_def by (simp add: sorted_keys_dom [symmetric])
qed

text \<open>Reading a project whose files differ from a record gives an error: the converse.\<close>

lemma verify_snapshots_true:
  "wp (verify_snapshots sha256 snaps)
     (\<lambda>_ w'. same_world w w' \<and> (\<forall>n s. map_of snaps n = Some s \<longrightarrow> s = disk_snapshot sha256 (w_fs w) n))
     (\<lambda>_ w'. same_world w w') w"
proof -
  have "wp (verify_names sha256 snaps names)
     (\<lambda>_ w'. same_world w1 w' \<and> (\<forall>n \<in> set names. the (map_of snaps n) = disk_snapshot sha256 (w_fs w1) n))
     (\<lambda>_ w'. same_world w1 w') w1" for names w1
  proof (induction names arbitrary: w1)
    case Nil
    then show ?case by (simp add: io_wp)
  next
    case (Cons n names)
    show ?case
      unfolding verify_names.simps wp_bind
    proof (rule wp_mono [OF read_snapshot_spec], goal_cases)
      case (1 r w2)
      obtain d actual where r: "r = (d, actual)" by (cases r)
      then have w2: "same_world w1 w2" "actual = disk_snapshot sha256 (w_fs w1) n" using 1 by auto
      show ?case
        unfolding r prod.case wp_if wp_error
        using wp_mono [OF Cons.IH [of w2]] w2 same_world_simps [OF w2(1)] same_world_trans [OF w2(1)] by auto
    qed auto
  qed
  then show ?thesis
    unfolding verify_snapshots_def
    by (rule wp_mono) (use map_of_Some_sorted_keys [of snaps] in \<open>force simp del: set_sorted_keys\<close>)+
qed


subsection \<open>A whole run\<close>

lemma spares_node: "spares tx Y fs fs' \<Longrightarrow> n \<in> tracked tx \<union> own_files \<Longrightarrow> n \<notin> Y \<Longrightarrow> map_of fs' n = map_of fs n"
  by (simp add: spares_def)

lemma resumable_same: "same_world w w' \<Longrightarrow> resumable sha256 tx (w_fs w') = resumable sha256 tx (w_fs w)"
  by (simp add: same_world_simps)

lemma fresh_same: "same_world w w' \<Longrightarrow> fresh w M \<Longrightarrow> fresh w' M"
  by (auto simp: fresh_def same_world_def)

lemma execute_operations_spec:
  assumes ck: "checked sha256 tx contents"
  shows "set ops \<subseteq> set (tx_operations tx) \<Longrightarrow> distinct (map op_path ops) \<Longrightarrow> resumable sha256 tx (w_fs w) \<Longrightarrow>
    fresh w (all_names tx) \<Longrightarrow>
    (\<forall>op \<in> set ops. snapshot_of current (op_path op) = disk_snapshot sha256 (w_fs w) (op_path op)) \<Longrightarrow>
    wp (execute_operations tx current contents hooked index ops)
     (\<lambda>_ w'. goes_on w w' \<and> spares tx (op_path ` set ops) (w_fs w) (w_fs w') \<and> fresh w' (all_names tx) \<and>
        resumable sha256 tx (w_fs w') \<and>
        (\<forall>op \<in> set ops. disk_snapshot sha256 (w_fs w') (op_path op) = op_after op))
     (\<lambda>_ w'. goes_on w w' \<and> spares tx (op_path ` set ops) (w_fs w) (w_fs w') \<and> resumable sha256 tx (w_fs w') \<and>
        \<not> calm w) w"
proof (induction ops arbitrary: index w)
  case Nil
  then show ?case by (simp add: io_wp)
next
  case (Cons op ops)
  let ?E = "\<lambda>(_::apply_error) w'. goes_on w w' \<and> spares tx (op_path ` set (op # ops)) (w_fs w) (w_fs w') \<and>
      resumable sha256 tx (w_fs w') \<and> \<not> calm w"
  obtain base name where root: "operation_root tx (op_path op) = (base, name)" by (cases "operation_root tx (op_path op)")
  have op: "op \<in> set (tx_operations tx)" using Cons.prems(1) by simp
  have cur: "snapshot_of current (op_path op) = disk_snapshot sha256 (w_fs w) (op_path op)" using Cons.prems(5) by simp
  have in_tracked: "o1 \<in> set (op # ops) \<Longrightarrow> op_path o1 \<in> tracked tx" for o1
    using checked_facts(4) [OF ck] Cons.prems(1) by blast
  have tail: "wp (execute_operations tx current contents hooked (Suc index) ops)
     (\<lambda>_ w'. goes_on w w' \<and> spares tx (op_path ` set (op # ops)) (w_fs w) (w_fs w') \<and> fresh w' (all_names tx) \<and>
        resumable sha256 tx (w_fs w') \<and>
        (\<forall>op \<in> set (op # ops). disk_snapshot sha256 (w_fs w') (op_path op) = op_after op)) ?E w2"
    if g: "goes_on w w2" and s: "spares tx {op_path op} (w_fs w) (w_fs w2)" and f: "fresh w2 (all_names tx)"
      and r: "resumable sha256 tx (w_fs w2)" and d: "disk_snapshot sha256 (w_fs w2) (op_path op) = op_after op" for w2
  proof -
    have s1: "spares tx (op_path ` set (op # ops)) (w_fs w) (w_fs w2)" by (rule spares_mono [OF s]) simp
    have rest: "\<forall>o1 \<in> set ops. snapshot_of current (op_path o1) = disk_snapshot sha256 (w_fs w2) (op_path o1)"
    proof
      fix o1 assume o1: "o1 \<in> set ops"
      moreover have "op_path op \<notin> op_path ` set ops" using Cons.prems(2) by simp
      ultimately have "op_path o1 \<noteq> op_path op" by (metis imageI)
      then have "map_of (w_fs w2) (op_path o1) = map_of (w_fs w) (op_path o1)"
        using spares_node [OF s] in_tracked [of o1] o1 by simp
      then show "snapshot_of current (op_path o1) = disk_snapshot sha256 (w_fs w2) (op_path o1)"
        using Cons.prems(5) o1 by (simp add: disk_snapshot_def)
    qed
    show ?thesis
    proof (rule wp_mono [OF Cons.IH [OF _ _ r f rest, of "Suc index"]], goal_cases)
      case (3 a w3)
      then have s2: "spares tx (op_path ` set ops) (w_fs w2) (w_fs w3)" by blast
      have "spares tx (op_path ` set (op # ops)) (w_fs w) (w_fs w3)"
        by (rule spares_trans [OF s1 spares_mono [OF s2]]) auto
      moreover have "op_path op \<notin> op_path ` set ops" using Cons.prems(2) by simp
      then have "map_of (w_fs w3) (op_path op) = map_of (w_fs w2) (op_path op)"
        using spares_node [OF s2, of "op_path op"] in_tracked by simp
      then have "disk_snapshot sha256 (w_fs w3) (op_path op) = op_after op" using d by (simp add: disk_snapshot_def)
      ultimately show ?case using 3 goes_on_trans [OF g] by auto
    next
      case (4 e w3)
      have "spares tx (op_path ` set (op # ops)) (w_fs w) (w_fs w3)"
        by (rule spares_trans [OF s1 spares_mono]) (use 4 in auto)
      then show ?case using 4 goes_on_trans [OF g] goes_on_calm [OF g] by auto
    qed (use Cons.prems in auto)
  qed
  have body: "wp (carry_out current contents base name op)
     (\<lambda>_. wp (sync_parents base name) (\<lambda>_. wp (run_apply_fault hooked (after_operation index)) (\<lambda>_.
        wp (execute_operations tx current contents hooked (Suc index) ops)
     (\<lambda>_ w'. goes_on w w' \<and> spares tx (op_path ` set (op # ops)) (w_fs w) (w_fs w') \<and> fresh w' (all_names tx) \<and>
        resumable sha256 tx (w_fs w') \<and>
        (\<forall>op \<in> set (op # ops). disk_snapshot sha256 (w_fs w') (op_path op) = op_after op)) ?E) ?E) ?E) ?E w"
  proof (rule wp_mono [OF carry_out_spec [OF ck op Cons.prems(3,4) cur root]], goal_cases)
    case (1 a w1)
    then have g1: "goes_on w w1" and s1: "spares tx {op_path op} (w_fs w) (w_fs w1)" by auto
    have s2: "spares tx (op_path ` set (op # ops)) (w_fs w) (w_fs w1)" by (rule spares_mono [OF s1]) simp
    show ?case
    proof (rule wp_mono [OF sync_parents_spec], goal_cases)
      case (1 b w2)
      have g2: "goes_on w w2" by (rule goes_on_trans [OF g1 same_world_goes_on [OF 1]])
      have fs: "w_fs w2 = w_fs w1" "calm w2 = calm w" using 1 goes_on_calm [OF g2] by (simp_all add: same_world_simps)
      have f2: "fresh w2 (all_names tx)" by (rule fresh_same [OF 1]) (use \<open>goes_on w w1 \<and> _\<close> in blast)
      show ?case
        by (rule wp_mono [OF run_apply_fault_spec])
          (use tail [OF g2 _ f2] g2 s1 s2 fs \<open>goes_on w w1 \<and> _\<close> in auto)
    next
      case (2 e w2)
      then have "w_fs w2 = w_fs w1" "goes_on w w2" "\<not> calm w"
        using goes_on_trans [OF g1 same_world_goes_on, of w2] goes_on_calm [OF g1] by (simp_all add: same_world_simps)
      with s2 \<open>goes_on w w1 \<and> _\<close> show ?case by simp
    qed
  next
    case (2 e w1)
    have "spares tx (op_path ` set (op # ops)) (w_fs w) (w_fs w1)" by (rule spares_mono [of _ "{op_path op}"]) (use 2 in auto)
    with 2 show ?case by blast
  qed
  have stop: "?E e w" if "\<not> calm w" for e using that Cons.prems(3) by simp
  show ?case
    unfolding execute_operations.simps root Let_def prod.case wp_bind
    by (rule wp_mono [of "if op_path op = state_path then run_apply_fault hooked ''before_record'' else io_return ()" "\<lambda>_ w'. w' = w" "\<lambda>_ w'. w' = w \<and> \<not> calm w"])
      (use body stop run_apply_fault_spec in \<open>auto simp: wp_return\<close>)
qed

definition completed :: "(string \<Rightarrow> string) \<Rightarrow> transaction \<Rightarrow> node gomap \<Rightarrow> bool" where
  "completed sha256 tx fs \<longleftrightarrow>
     (\<forall>n \<in> tracked tx. disk_snapshot sha256 fs n = snapshot_of (final_states tx) n)"

lemma final_states_get:
  assumes "checked sha256 tx contents"
  shows "op \<in> set (tx_operations tx) \<Longrightarrow> map_of (final_states tx) (op_path op) = Some (op_after op)"
    "n \<notin> op_path ` set (tx_operations tx) \<Longrightarrow> map_of (final_states tx) n = map_of (tx_expected tx) n"
    "dom (map_of (final_states tx)) = tracked tx"
proof -
  note facts = checked_facts [OF assms]
  show op: "op \<in> set (tx_operations tx) \<Longrightarrow> map_of (final_states tx) (op_path op) = Some (op_after op)" for op
    unfolding final_states_def by (rule updates_target [OF facts(3)])
  show other: "n \<notin> op_path ` set (tx_operations tx) \<Longrightarrow> map_of (final_states tx) n = map_of (tx_expected tx) n" for n
    unfolding final_states_def by (rule updates_other)
  have "n \<in> dom (map_of (final_states tx)) \<longleftrightarrow> n \<in> tracked tx" for n
  proof (cases "n \<in> op_path ` set (tx_operations tx)")
    case True
    then show ?thesis using op facts(4) by auto
  next
    case False
    then show ?thesis using other by (auto simp: tracked_def keys_of_dom)
  qed
  then show "dom (map_of (final_states tx)) = tracked tx" by blast
qed

lemma operations_complete:
  assumes ck: "checked sha256 tx contents" and res: "resumable sha256 tx fs"
    and done_ops: "\<forall>op \<in> set (tx_operations tx). disk_snapshot sha256 fs (op_path op) = op_after op"
    and n: "n \<in> tracked tx"
  shows "map_of (final_states tx) n = Some (disk_snapshot sha256 fs n)"
proof (cases "n \<in> op_path ` set (tx_operations tx)")
  case True
  then show ?thesis using final_states_get(1) [OF ck] done_ops by auto
next
  case False
  have "map_of (after_states (tx_operations tx)) n = None"
    using False unfolding after_states_def by (simp add: updates_other)
  then show ?thesis
    using res n final_states_get(2) [OF ck False] by (auto simp: resumable_def settled_def)
qed

lemma mkdir_parts_makes:
  "wp (mkdir_parts base ps)
     (\<lambda>_ w'. \<forall>p \<in> set ps. map_of (w_fs w') (root_path base p) = Some Dir \<or> map_of (w_fs w') (root_path base p) = Some (Link True))
     (\<lambda>_ _. True) w"
proof (induction ps arbitrary: w)
  case Nil
  then show ?case by (simp add: io_wp)
next
  case (Cons p ps)
  let ?p = "root_path base p"
  have rest: "wp (mkdir_parts base ps)
     (\<lambda>_ w'. \<forall>q \<in> set (p # ps). map_of (w_fs w') (root_path base q) = Some Dir \<or> map_of (w_fs w') (root_path base q) = Some (Link True))
     (\<lambda>_ _. True) w1" if "map_of (w_fs w1) ?p = Some Dir \<or> map_of (w_fs w1) ?p = Some (Link True)" for w1
  proof (rule wp_mono [OF wp_conj [OF Cons.IH mkdir_parts_spec [OF order_refl]]], goal_cases)
    case (1 a w2)
    then have "map_of (w_fs w2) ?p = map_of (w_fs w1) ?p" using that by (auto simp: kept_def)
    with 1 that show ?case by simp
  qed simp
  show ?case
    using rest by (auto simp: io_wp split: option.splits node.splits bool.splits)
qed

lemma remove_regular_spec:
  assumes "map_of (w_fs w) p = Some (Regular d m)"
  shows "wp (remove_node p)
    (\<lambda>_ w'. goes_on w w' \<and> map_of (w_fs w') p = None \<and> only {p} (w_fs w) (w_fs w'))
    (\<lambda>_ w'. goes_on w w' \<and> w_fs w' = w_fs w \<and> \<not> calm w) w"
proof (cases "failing w")
  case True
  with failing_not_calm [OF True] show ?thesis by (simp add: remove_node_def io_wp goes_on_step)
next
  case False
  show ?thesis
    unfolding remove_node_def wp_bind wp_get_node
    using False assms failing_not_calm [of "step_tick w"]
    by (simp add: wp_delete_node goes_on_step only_def)
qed

definition output_clear :: "transaction \<Rightarrow> node gomap \<Rightarrow> bool" where
  "output_clear tx fs \<longleftrightarrow> clear_path fs '''' (tx_output_dir tx @ slash # ''entry'')"

lemma open_output_spec:
  assumes ck: "checked sha256 tx contents" and clear: "output_clear tx (w_fs w)" and fr: "fresh w (all_names tx)"
  shows "wp (mkdir_all '''' (tx_output_dir tx)) (\<lambda>_. wp (open_root (tx_output_dir tx))
      (\<lambda>_ w'. goes_on w w' \<and> spares tx {} (w_fs w) (w_fs w') \<and> fresh w' (all_names tx))
      (\<lambda>_ w'. goes_on w w' \<and> spares tx {} (w_fs w) (w_fs w') \<and> \<not> calm w))
      (\<lambda>_ w'. goes_on w w' \<and> spares tx {} (w_fs w) (w_fs w') \<and> \<not> calm w) w"
proof -
  let ?od = "tx_output_dir tx"
  let ?D = "ancestors (?od @ slash # ''entry'')"
  have entry: "slash \<notin> set ''entry''" by (simp add: slash_def)
  have D: "set (path_prefixes ?od) = ?D" by (simp add: ancestors_step [OF entry] path_prefixes_set)
  have dot: "?od \<noteq> ''.''" using checked_facts(2) [OF ck] by (auto simp: validate_path_def)
  have all: "?od @ slash # ''entry'' \<in> all_names tx" by (simp add: all_names_def)
  have ok: "\<forall>p \<in> ?D. map_of (w_fs w) p = None \<or> map_of (w_fs w) p = Some Dir"
    using clear by (simp add: output_clear_def clear_path_ancestors)
  have sp: "spares tx {} (w_fs w) fs'" if "kept ?D {} (w_fs w) fs'" for fs'
    by (rule kept_spares [OF that]) (use apart_ancestors [OF checked_facts(1) [OF ck] _ all] in auto)
  have sub: "root_path '''' ` set (path_prefixes ?od) \<subseteq> ?D" using D by auto
  show ?thesis
    unfolding mkdir_all_def if_not_P [OF dot]
  proof (rule wp_mono [OF wp_conj [OF mkdir_parts_spec [OF sub] mkdir_parts_makes]], goal_cases)
    case (1 a w1)
    then have g: "goes_on w w1" and k: "kept ?D {} (w_fs w) (w_fs w1)"
      and d: "map_of (w_fs w1) ?od = Some Dir \<or> map_of (w_fs w1) ?od = Some (Link True)"
      using path_prefixes_set [of ?od] by auto
    have f: "fresh w1 (all_names tx)" by (rule fresh_kept [OF fr g k]) (use all in auto)
    have s: "goes_on w (step_tick w1)" by (rule goes_on_step [OF g])
    have f1: "fresh (step_tick w1) (all_names tx)" by (rule fresh_same [OF same_world_step f])
    show ?case
      using d s f1 sp [OF k] failing_not_calm [of w1] goes_on_calm [OF g] by (auto simp: open_root_def io_wp)
  next
    case (2 e w1)
    then show ?case using sp ok by auto
  qed
qed


lemma wp_mono2:
  assumes "wp a (\<lambda>x. wp (b x) (Q x) E) E w" "\<And>x y w'. Q x y w' \<Longrightarrow> Q' x y w'" "\<And>e w'. E e w' \<Longrightarrow> E' e w'"
  shows "wp a (\<lambda>x. wp (b x) (Q' x) E') E' w"
  by (rule wp_mono [OF assms(1)], erule wp_mono) (fact assms(2,3))+

lemma wp_mono3:
  assumes "wp a (\<lambda>x. wp (b x) (\<lambda>y. wp (c x y) Q E) E) E w" "\<And>x w'. Q x w' \<Longrightarrow> Q' x w'" "\<And>e w'. E e w' \<Longrightarrow> E' e w'"
  shows "wp a (\<lambda>x. wp (b x) (\<lambda>y. wp (c x y) Q' E') E') E' w"
  by (rule wp_mono2 [OF assms(1)], erule wp_mono) (fact assms(2,3))+

text \<open>Where a run may leave the project: the journal is still there and can be taken up, or all is in place
  and the journal is gone.\<close>

definition left_over :: "(string \<Rightarrow> string) \<Rightarrow> transaction \<Rightarrow> node \<Rightarrow> node gomap \<Rightarrow> bool" where
  "left_over sha256 tx journal fs \<longleftrightarrow>
     (resumable sha256 tx fs \<and> map_of fs transaction_path = Some journal) \<or>
     (completed sha256 tx fs \<and> map_of fs transaction_path = None)"

definition own_change :: "transaction \<Rightarrow> string set" where
  "own_change tx = insert transaction_path (tracked tx)"

lemma left_over_spares:
  assumes "names_apart_in tx" "spares tx Y fs fs'" "Y \<subseteq> tracked tx" "resumable sha256 tx fs'"
    "map_of fs transaction_path = Some journal"
  shows "left_over sha256 tx journal fs'"
proof -
  have own: "transaction_path \<in> own_files" by (simp add: own_files_def)
  then have "transaction_path \<notin> tracked tx"
    using assms(1) unfolding names_apart_in_def apart_def by blast
  then have "map_of fs' transaction_path = map_of fs transaction_path"
    using spares_node [OF assms(2)] own assms(3) by blast
  then show ?thesis using assms(4,5) by (simp add: left_over_def)
qed

lemma finish_spec:
  assumes ck: "checked sha256 tx contents" and res: "resumable sha256 tx (w_fs w)"
    and ops: "\<forall>op \<in> set (tx_operations tx). disk_snapshot sha256 (w_fs w) (op_path op) = op_after op"
    and j: "map_of (w_fs w) transaction_path = Some (Regular d m)"
  shows "wp (verify_snapshots sha256 (final_states tx)) (\<lambda>_. wp (remove_node transaction_path) (\<lambda>_.
      wp (sync_parents '''' transaction_path)
        (\<lambda>_ w'. goes_on w w' \<and> spares tx {transaction_path} (w_fs w) (w_fs w') \<and>
           completed sha256 tx (w_fs w') \<and> map_of (w_fs w') transaction_path = None)
        (\<lambda>_ w'. goes_on w w' \<and> spares tx {transaction_path} (w_fs w) (w_fs w') \<and> \<not> calm w \<and>
           left_over sha256 tx (Regular d m) (w_fs w')))
        (\<lambda>_ w'. goes_on w w' \<and> spares tx {transaction_path} (w_fs w) (w_fs w') \<and> \<not> calm w \<and>
           left_over sha256 tx (Regular d m) (w_fs w')))
        (\<lambda>_ w'. goes_on w w' \<and> spares tx {transaction_path} (w_fs w) (w_fs w') \<and> \<not> calm w \<and>
           left_over sha256 tx (Regular d m) (w_fs w')) w"
    (is "wp _ _ ?E w")
proof -
  note final = operations_complete [OF ck res ops]
  have keys: "map_of (final_states tx) n = Some s \<Longrightarrow> n \<in> tracked tx" for n s
    using final_states_get(3) [OF ck] by auto
  have own: "transaction_path \<in> tracked tx \<union> own_files" by (simp add: own_files_def)
  have untracked: "transaction_path \<notin> tracked tx"
    using checked_facts(1) [OF ck] unfolding names_apart_in_def apart_def own_files_def by blast
  have still: "?E e w1" if "same_world w w1 \<and> \<not> calm w" for e :: apply_error and w1
  proof -
    have "w_fs w1 = w_fs w" "goes_on w w1" using that same_world_goes_on same_world_simps(1) by blast+
    then show ?thesis using that res j by (simp add: left_over_def)
  qed
  have verify: "wp (verify_snapshots sha256 (final_states tx)) (\<lambda>_ w'. same_world w w') (\<lambda>_ w'. same_world w w' \<and> \<not> calm w) w"
  proof (rule verify_snapshots_ok)
    fix n s assume n: "map_of (final_states tx) n = Some s"
    with final [OF keys [OF n]] keys [OF n] res
    show "clear_path (w_fs w) '''' n \<and> file_within (w_fs w) n max_tracked_bytes \<and> s = disk_snapshot sha256 (w_fs w) n"
      by (simp add: resumable_def)
  qed
  have removed: "spares tx {transaction_path} (w_fs w) fs' \<and> completed sha256 tx fs'"
    if o: "only {transaction_path} (w_fs w) fs'" for fs'
  proof
    show "spares tx {transaction_path} (w_fs w) fs'"
    proof (rule kept_spares [OF only_kept [OF o order_refl, where D = "{}"]])
      show "ancestors n \<inter> {transaction_path} = {}" if "n \<in> all_names tx" for n
        using apart_ancestors [OF checked_facts(1) [OF ck] own that] by blast
    qed auto
    show "completed sha256 tx fs'"
      unfolding completed_def
    proof
      fix n assume n: "n \<in> tracked tx"
      then have "n \<noteq> transaction_path" using untracked by metis
      then have "map_of fs' n = map_of (w_fs w) n" using o by (simp add: only_def)
      then have "disk_snapshot sha256 fs' n = disk_snapshot sha256 (w_fs w) n" by (rule node_facts(1))
      then show "disk_snapshot sha256 fs' n = snapshot_of (final_states tx) n"
        using final [OF n] by (simp add: snapshot_of_def)
    qed
  qed
  show ?thesis
  proof (rule wp_mono [OF verify], goal_cases)
    case v: (1 a w1)
    then have fs: "w_fs w1 = w_fs w" "calm w1 = calm w" "goes_on w w1" by (simp_all add: same_world_simps same_world_goes_on)
    have j1: "map_of (w_fs w1) transaction_path = Some (Regular d m)" using j fs by simp
    show ?case
    proof (rule wp_mono [OF remove_regular_spec [OF j1]], goal_cases)
      case (1 b w2)
      then have r: "spares tx {transaction_path} (w_fs w) (w_fs w2) \<and> completed sha256 tx (w_fs w2)"
        and g: "goes_on w w2" and n: "map_of (w_fs w2) transaction_path = None"
        using removed fs goes_on_trans [OF fs(3)] by auto
      show ?case
      proof (rule wp_mono [OF sync_parents_spec], goal_cases)
        case (1 c w3)
        then show ?case using r n goes_on_trans [OF g same_world_goes_on [OF 1]] same_world_simps(1) [OF 1] by simp
      next
        case (2 e w3)
        then have "goes_on w w3" "w_fs w3 = w_fs w2" using goes_on_trans [OF g same_world_goes_on] same_world_simps(1) by blast+
        then show ?case using 2 r n goes_on_calm [OF g] by (simp add: left_over_def)
      qed
    next
      case (2 e w2)
      then show ?case using fs res j goes_on_trans [OF fs(3)] by (simp add: left_over_def)
    qed
  qed (use still in blast)
qed


lemma execute_transaction_spec:
  assumes fold: "reserved_folding (pe_lower (ae_plan env))" and v: "validate_transaction env tx pd = Inr contents"
    and res: "resumable (ae_sha256 env) tx (w_fs w)" and fr: "fresh w (all_names tx)"
    and clear: "output_clear tx (w_fs w)" and j: "map_of (w_fs w) transaction_path = Some (Regular d m)"
  shows "wp (execute_transaction env pd tx hooked)
    (\<lambda>_ w'. goes_on w w' \<and> spares tx (own_change tx) (w_fs w) (w_fs w') \<and>
       completed (ae_sha256 env) tx (w_fs w') \<and> map_of (w_fs w') transaction_path = None)
    (\<lambda>_ w'. goes_on w w' \<and> spares tx (own_change tx) (w_fs w) (w_fs w') \<and> \<not> calm w \<and>
       left_over (ae_sha256 env) tx (Regular d m) (w_fs w')) w"
    (is "wp _ ?Q ?E w")
proof -
  let ?sha = "ae_sha256 env" and ?ops = "tx_operations tx"
  have ck: "checked ?sha tx contents" by (rule journal_sound_checked [OF validate_journal_sound [OF fold v]])
  note apart = checked_facts(1) [OF ck]
  have own: "transaction_path \<in> tracked tx \<union> own_files" by (simp add: own_files_def)
  have untracked: "transaction_path \<notin> tracked tx"
    using apart unfolding names_apart_in_def apart_def own_files_def by blast
  have paths: "op_path ` set ?ops \<subseteq> tracked tx" using checked_facts(4) [OF ck] by blast
  have E: "?E e w'" if "goes_on w w'" "spares tx Y (w_fs w) (w_fs w')" "Y \<subseteq> tracked tx" "\<not> calm w"
    "resumable ?sha tx (w_fs w')" for e :: apply_error and w' Y
  proof -
    have "spares tx (own_change tx) (w_fs w) (w_fs w')"
      by (rule spares_mono [OF that(2)]) (use that(3) in \<open>auto simp: own_change_def\<close>)
    with that(1,4) left_over_spares [OF apart that(2,3,5) j] show ?thesis by blast
  qed
  have names: "set (sorted_keys (tx_expected tx)) \<subseteq> tracked tx" by (simp add: tracked_def keys_of_def)
  have finish: "wp (sync_parents '''' (tx_output_dir tx @ slash # ''entry'')) (\<lambda>_.
      wp (run_apply_fault hooked ''before_complete'') (\<lambda>_. wp (verify_snapshots ?sha (final_states tx)) (\<lambda>_.
      wp (remove_node transaction_path) (\<lambda>_. wp (sync_parents '''' transaction_path) ?Q ?E) ?E) ?E) ?E) ?E w1"
    if g: "goes_on w w1" and s: "spares tx (op_path ` set ?ops) (w_fs w) (w_fs w1)" and r: "resumable ?sha tx (w_fs w1)"
      and o: "\<forall>op \<in> set ?ops. disk_snapshot ?sha (w_fs w1) (op_path op) = op_after op" for w1
  proof (rule wp_mono [OF sync_parents_spec], goal_cases)
    case (1 a w2)
    have fs: "w_fs w2 = w_fs w1" by (rule same_world_simps(1) [OF 1])
    have g2: "goes_on w w2" by (rule goes_on_trans [OF g same_world_goes_on [OF 1]])
    have j2: "map_of (w_fs w2) transaction_path = Some (Regular d m)"
      using spares_node [OF s own] paths untracked j fs by auto
    have s2: "spares tx (own_change tx) (w_fs w) (w_fs w2)"
      unfolding fs by (rule spares_mono [OF s]) (use paths in \<open>auto simp: own_change_def\<close>)
    have sp: "spares tx (own_change tx) (w_fs w) fs'" if "spares tx {transaction_path} (w_fs w2) fs'" for fs'
      by (rule spares_trans [OF s2 spares_mono [OF that]]) (simp add: own_change_def)
    have r2: "resumable ?sha tx (w_fs w2)" and o2: "\<forall>op \<in> set ?ops. disk_snapshot ?sha (w_fs w2) (op_path op) = op_after op"
      using r o fs by simp_all
    have fin: "wp (verify_snapshots ?sha (final_states tx)) (\<lambda>_.
      wp (remove_node transaction_path) (\<lambda>_. wp (sync_parents '''' transaction_path) ?Q ?E) ?E) ?E w2"
      by (rule wp_mono3 [OF finish_spec [OF ck r2 o2 j2]])
        (use sp goes_on_trans [OF g2] goes_on_calm [OF g2] in blast)+
    show ?case
      by (rule wp_mono [OF run_apply_fault_spec])
        (use fin g2 s2 r2 j2 goes_on_calm [OF g2] in \<open>auto simp: left_over_def\<close>)
  next
    case (2 e w2)
    then have "w_fs w2 = w_fs w1" "goes_on w w2" "\<not> calm w"
      using same_world_simps(1) goes_on_trans [OF g same_world_goes_on] goes_on_calm [OF g] by blast+
    then show ?case using E [of w2 "op_path ` set ?ops"] s paths r by simp
  qed
  have run: "wp (execute_operations tx current contents hooked 0 ?ops) (\<lambda>_.
      wp (sync_parents '''' (tx_output_dir tx @ slash # ''entry'')) (\<lambda>_.
      wp (run_apply_fault hooked ''before_complete'') (\<lambda>_. wp (verify_snapshots ?sha (final_states tx)) (\<lambda>_.
      wp (remove_node transaction_path) (\<lambda>_. wp (sync_parents '''' transaction_path) ?Q ?E) ?E) ?E) ?E) ?E) ?E w1"
    if g: "goes_on w w1" and s: "spares tx {} (w_fs w) (w_fs w1)" and f: "fresh w1 (all_names tx)"
      and cur: "\<forall>n \<in> tracked tx. snapshot_of current n = disk_snapshot ?sha (w_fs w) n" for w1 current
  proof -
    have same: "map_of (w_fs w1) n = map_of (w_fs w) n" if "n \<in> tracked tx" for n
      using spares_node [OF s] that by simp
    have r: "resumable ?sha tx (w_fs w1)"
      by (rule resumable_spares [OF res spares_mono [OF s], of transaction_path]) (use untracked in auto)
    have c: "\<forall>op \<in> set ?ops. snapshot_of current (op_path op) = disk_snapshot ?sha (w_fs w1) (op_path op)"
      using cur same paths node_facts(1) by (metis image_subset_iff)
    show ?thesis
    proof (rule wp_mono [OF execute_operations_spec [OF ck order_refl checked_facts(3) [OF ck] r f c]], goal_cases)
      case (1 a w2)
      then show ?case
        using finish goes_on_trans [OF g] spares_trans [OF spares_mono [OF s, of "op_path ` set ?ops"]] by blast
    next
      case (2 e w2)
      then show ?case
        using E [of w2 "op_path ` set ?ops"] goes_on_trans [OF g] paths goes_on_calm [OF g]
          spares_trans [OF spares_mono [OF s, of "op_path ` set ?ops"]] by blast
    qed
  qed
  show ?thesis
    unfolding execute_transaction_def v sum.case wp_bind
  proof (rule wp_mono [OF read_current_spec [OF res names]], goal_cases)
    case (1 current w1)
    then have w1: "same_world w w1" and cur: "\<forall>n \<in> tracked tx. snapshot_of current n = disk_snapshot ?sha (w_fs w) n"
      by (auto simp: snapshot_of_def tracked_def keys_of_def)
    note fs = same_world_simps(1) [OF w1] and g = same_world_goes_on [OF w1]
    have c1: "output_clear tx (w_fs w1)" using clear fs by simp
    show ?case
    proof (rule wp_mono2 [OF open_output_spec [OF ck c1 fresh_same [OF w1 fr]]], goal_cases)
      case (1 b w2)
      show ?case
        by (rule run) (use 1 fs g cur goes_on_trans [OF g] in auto)
    next
      case (2 e w2)
      then have s: "spares tx {} (w_fs w) (w_fs w2)" using fs by simp
      have "resumable ?sha tx (w_fs w2)"
        by (rule resumable_spares [OF res spares_mono [OF s], of transaction_path]) (use untracked in auto)
      then show ?case using E [of w2 "{}"] s 2 goes_on_trans [OF g] goes_on_calm [OF g] by blast
    qed
  next
    case (2 e w1)
    then show ?case using E [of w1 "{}"] res same_world_goes_on same_world_simps(1) by auto
  qed
qed

end
