(* ===== verification/Atomic_Apply.thy ===== *)
theory Atomic_Apply
  imports Crash_Safety
begin

text \<open>
  Recovery completes, an interrupted apply can always be taken up, and so an apply is atomic; a file
  that somebody else changed stops recovery before any write.
\<close>

subsection \<open>The project lock and the pending journal\<close>

text \<open>The project that an apply or a recovery finds: the paths of the compiler's own files and of the
  output folder are clear, and no temporary name is taken.\<close>

definition in_order :: "transaction \<Rightarrow> world \<Rightarrow> bool" where
  "in_order tx w \<longleftrightarrow> fresh w (all_names tx) \<and> output_clear tx (w_fs w) \<and>
     (\<forall>k \<in> own_files. clear_path (w_fs w) '''' k \<and> file_or_absent (w_fs w) k)"

lemma in_order_spares:
  assumes "in_order tx w" "spares tx Y (w_fs w) (w_fs w')" "fresh w' (all_names tx)"
    and "\<And>k. k \<in> own_files \<inter> Y \<Longrightarrow> file_or_absent (w_fs w') k"
  shows "in_order tx w'"
proof -
  have "k \<in> all_names tx" if "k \<in> own_files" for k using that by (simp add: all_names_def)
  moreover have "tx_output_dir tx @ slash # ''entry'' \<in> all_names tx" by (simp add: all_names_def)
  moreover have "file_or_absent (w_fs w') k" if k: "k \<in> own_files" for k
  proof (cases "k \<in> Y")
    case True
    then show ?thesis using assms(4) k by blast
  next
    case False
    then have "map_of (w_fs w') k = map_of (w_fs w) k" using spares_node [OF assms(2)] k by blast
    then show ?thesis using assms(1) k by (simp add: in_order_def file_or_absent_def)
  qed
  ultimately show ?thesis
    using assms(1-3) unfolding in_order_def output_clear_def spares_def by blast
qed

lemma pending_present:
  assumes "clear_path (w_fs w) '''' transaction_path" "map_of (w_fs w) transaction_path = Some (Regular d m)"
  shows "wp pending_transaction (\<lambda>_ _. False)
    (\<lambda>e w'. same_world w w' \<and> (calm w \<longrightarrow> e = RecoveryRequired None)) w"
proof (cases "calm w")
  case False
  show ?thesis by (rule wp_mono [OF pending_transaction_spec]) (use assms False in auto)
next
  case True
  have within: "file_within (w_fs w) (root_path '''' transaction_path) (length d)" using assms(2) by (simp add: file_within_def)
  show ?thesis
    unfolding pending_transaction_def check_file_target_def wp_bind
  proof (rule wp_mono [OF check_file_path_ok [OF True assms(1) within]], goal_cases)
    case (1 a w1)
    have "w_fs w1 = w_fs w" "calm w1" using same_world_simps [OF 1] True by simp_all
    moreover have "same_world w (step_tick (step_tick w1))"
      using same_world_trans [OF 1] same_world_trans [OF same_world_step same_world_step] by blast
    ultimately show ?case using assms(2) True by (simp add: io_wp)
  qed simp
qed

lemma pending_absent:
  assumes "calm w" "clear_path (w_fs w) '''' transaction_path" "map_of (w_fs w) transaction_path = None"
  shows "wp pending_transaction (\<lambda>_ w'. same_world w w') (\<lambda>_ _. False) w"
proof -
  have within: "file_within (w_fs w) (root_path '''' transaction_path) 0" using assms(3) by (simp add: file_within_def)
  show ?thesis
    unfolding pending_transaction_def check_file_target_def wp_bind
  proof (rule wp_mono [OF check_file_path_ok [OF assms(1,2) within]], goal_cases)
    case (1 a w1)
    have "w_fs w1 = w_fs w" "calm w1" using same_world_simps [OF 1] assms(1) by simp_all
    moreover have "same_world w (step_tick (step_tick w1))"
      using same_world_trans [OF 1] same_world_trans [OF same_world_step same_world_step] by blast
    ultimately show ?case using assms(3) by (simp add: io_wp)
  qed simp
qed

lemma check_file_target_ok:
  assumes "clear_path (w_fs w) '''' n" "file_or_absent (w_fs w) n"
  shows "wp (check_file_target '''' n) (\<lambda>_ w'. same_world w w') (\<lambda>_ w'. same_world w w' \<and> \<not> calm w) w"
proof (cases "calm w")
  case False
  show ?thesis by (rule wp_mono [OF check_file_target_spec]) (use False in auto)
next
  case True
  have "\<exists>l. file_within (w_fs w) (root_path '''' n) l" using assms(2) by (auto simp: file_within_def file_or_absent_def)
  then obtain l where within: "file_within (w_fs w) (root_path '''' n) l" ..
  show ?thesis
    unfolding check_file_target_def wp_bind
  proof (rule wp_mono [OF check_file_path_ok [OF True assms(1) within]], goal_cases)
    case (1 a w1)
    have "w_fs w1 = w_fs w" "calm w1" using same_world_simps [OF 1] True by simp_all
    moreover have "same_world w (step_tick w1)" using same_world_trans [OF 1] by simp
    ultimately show ?case using assms(2) by (auto simp: io_wp file_or_absent_def)
  qed simp
qed

lemma lock_project_spec:
  assumes apart: "names_apart_in tx" and order: "in_order tx w"
  shows "wp lock_project
    (\<lambda>_ w'. goes_on w w' \<and> spares tx {lock_path} (w_fs w) (w_fs w') \<and> in_order tx w')
    (\<lambda>_ w'. goes_on w w' \<and> spares tx {lock_path} (w_fs w) (w_fs w') \<and> in_order tx w' \<and> \<not> calm w) w"
    (is "wp _ ?Q ?E w")
proof -
  have own: "lock_path \<in> own_files" and names: "lock_path \<in> all_names tx" by (simp_all add: own_files_def all_names_def)
  have anc: "ancestors lock_path = {''.stego''}" using own_file_facts(1) [OF own] by blast
  have lock: "clear_path (w_fs w) '''' lock_path" "file_or_absent (w_fs w) lock_path"
    using order own by (auto simp: in_order_def)
  have fr: "fresh w (all_names tx)" using order by (simp add: in_order_def)
  have keep: "spares tx {lock_path} (w_fs w) (w_fs w') \<and> in_order tx w'"
    if g: "goes_on w w'" and k: "kept {''.stego''} {lock_path} (w_fs w) (w_fs w')" and f: "file_or_absent (w_fs w') lock_path" for w'
  proof -
    have s: "spares tx {lock_path} (w_fs w) (w_fs w')"
    proof (rule kept_spares [OF k])
      fix n assume "n \<in> tracked tx \<union> own_files" "n \<notin> {lock_path}"
      then show "n \<notin> {lock_path} \<and> n \<notin> {''.stego''}"
        using apart_ancestors [OF apart _ names, of n] anc by simp
    next
      show "ancestors n \<inter> {lock_path} = {}" if "n \<in> all_names tx" for n
        using apart_ancestors [OF apart _ that, of lock_path] own by blast
    qed
    have "fresh w' (all_names tx)"
      by (rule fresh_kept [OF fr g k]) (use anc names in auto)
    then show ?thesis using s in_order_spares [OF order s] f by blast
  qed
  have mk: "wp (mkdir_all '''' ''.stego'')
      (\<lambda>_ w'. goes_on w1 w' \<and> kept {''.stego''} {} (w_fs w1) (w_fs w'))
      (\<lambda>_ w'. goes_on w1 w' \<and> kept {''.stego''} {} (w_fs w1) (w_fs w') \<and>
         \<not> (calm w1 \<and> (map_of (w_fs w1) ''.stego'' = None \<or> map_of (w_fs w1) ''.stego'' = Some Dir))) w1" for w1
  proof -
    have p: "path_prefixes ''.stego'' = [''.stego'']"
      by (simp add: path_prefixes_def slash_def)
    show ?thesis
      using mkdir_parts_spec [of "''''" "path_prefixes ''.stego''" "{''.stego''}" w1]
      by (simp add: mkdir_all_def p)
  qed
  show ?thesis
    unfolding lock_project_def wp_bind
  proof (rule wp_mono [OF check_file_target_ok [OF lock]], goal_cases)
    case (1 a w1)
    note fs1 = same_world_simps(1) [OF 1] and g1 = same_world_goes_on [OF 1]
    show ?case
    proof (rule wp_mono [OF mk], goal_cases)
      case (1 b w2)
      have g2: "goes_on w w2" by (rule goes_on_trans [OF g1]) (use 1 in blast)
      have k2: "kept {''.stego''} {} (w_fs w) (w_fs w2)" using 1 fs1 by simp
      have c: "failing w' \<Longrightarrow> goes_on w w' \<Longrightarrow> \<not> calm w" for w' using failing_not_calm goes_on_calm by metis
      have l2: "map_of (w_fs w2) lock_path = map_of (w_fs w) lock_path"
        using k2 own own_file_facts(5) by (auto simp: kept_def)
      have same: "goes_on w w' \<and> spares tx {lock_path} (w_fs w) (w_fs w') \<and> in_order tx w'"
        if "goes_on w w'" "w_fs w' = w_fs w2" for w'
        using that keep [OF that(1)] kept_mono [OF k2, of "{''.stego''}" "{lock_path}"] l2 lock(2)
        by (simp add: file_or_absent_def)
      have made: "goes_on w w' \<and> spares tx {lock_path} (w_fs w) (w_fs w') \<and> in_order tx w'"
        if "goes_on w w'" "w_fs w' = AList.update lock_path (Regular '''' 384) (w_fs w2)" for w'
      proof -
        have "only {lock_path} (w_fs w2) (w_fs w')" using that(2) by (simp add: only_def)
        then have "kept {''.stego''} {lock_path} (w_fs w) (w_fs w')" by (rule kept_only [OF k2]) simp
        moreover have "file_or_absent (w_fs w') lock_path" using that(2) by (simp add: file_or_absent_def)
        ultimately show ?thesis using keep [OF that(1)] that(1) by blast
      qed
      have steps: "goes_on w (step_tick w2)" "goes_on w (step_tick (step_tick w2))"
        "goes_on w (step_tick (step_tick (step_tick w2)))" using g2 goes_on_step by blast+
      let ?m = "step_tick ((step_tick (step_tick w2))\<lparr>w_fs := AList.update lock_path (Regular '''' 384) (w_fs w2)\<rparr>)"
      have "goes_on w ?m" by (rule goes_on_step) (simp add: steps)
      then have m: "goes_on w ?m \<and> spares tx {lock_path} (w_fs w) (w_fs ?m) \<and> in_order tx ?m" by (rule made) simp
      show ?case
        using m same [OF g2] same [OF steps(1)] same [OF steps(2)] same [OF steps(3)] c [of w2] c [of "step_tick w2"]
          c [of "step_tick (step_tick w2)"] g2 steps
        by (auto simp: io_wp failing_def)
    next
      case (2 e w2)
      have g2: "goes_on w w2" by (rule goes_on_trans [OF g1]) (use 2 in blast)
      have k2: "kept {''.stego''} {} (w_fs w) (w_fs w2)" using 2 fs1 by simp
      have "map_of (w_fs w2) lock_path = map_of (w_fs w) lock_path"
        using k2 own own_file_facts(5) by (auto simp: kept_def)
      then have "spares tx {lock_path} (w_fs w) (w_fs w2) \<and> in_order tx w2"
        using keep [OF g2 kept_mono [OF k2]] lock(2) by (simp add: file_or_absent_def)
      moreover have "map_of (w_fs w) ''.stego'' = None \<or> map_of (w_fs w) ''.stego'' = Some Dir"
        using lock(1) anc unfolding clear_path_ancestors by blast
      then have "\<not> calm w" using 2 unfolding fs1 goes_on_calm [OF g1] by blast
      ultimately show ?case using g2 by blast
    qed
  next
    case (2 e w1)
    then have s: "same_world w w1" and c: "\<not> calm w" by blast+
    show ?case
      using keep [OF same_world_goes_on [OF s] same_world_kept [OF s]] same_world_goes_on [OF s] c lock(2)
      by (simp add: same_world_simps(1) [OF s])
  qed
qed


subsection \<open>Recovery\<close>

lemma wp_needs_recovery:
  "wp (needs_recovery m) Q E w = wp m Q (\<lambda>e. E (RecoveryRequired (Some e))) w"
  by (auto simp: wp_def needs_recovery_def split: prod.splits sum.splits)

lemma wp_recover_pending:
  assumes "wp pending_transaction (\<lambda>_ _. False) (\<lambda>e w'. same_world w w' \<and> (calm w \<longrightarrow> e = RecoveryRequired None)) w"
    and "\<And>w1. same_world w w1 \<Longrightarrow>
      wp lock_project (\<lambda>_. wp (read_snapshot (ae_sha256 env) '''' transaction_path max_transaction_bytes) (\<lambda>(data, snapshot).
        wp (if \<not> snap_exists snapshot then io_return ()
            else case ae_tx_decode env data of
              None \<Rightarrow> io_error RecordNotYaml
            | Some tx \<Rightarrow> needs_recovery (execute_transaction env pd tx False)) Q E) E) E w1"
    and "\<And>e w1. same_world w w1 \<Longrightarrow> \<not> calm w \<Longrightarrow> E e w1"
  shows "wp (recover env pd) Q E w"
proof -
  obtain r w1 where p: "pending_transaction w = (r, w1)" by (cases "pending_transaction w")
  with assms(1) obtain e where r: "r = Inl e" "same_world w w1" "calm w \<longrightarrow> e = RecoveryRequired None"
    by (cases r) (auto simp: wp_def)
  show ?thesis
  proof (cases "\<exists>x. e = RecoveryRequired x")
    case True
    then obtain x where e: "e = RecoveryRequired x" ..
    have "recover env pd w = io_bind lock_project (\<lambda>_.
          io_bind (read_snapshot (ae_sha256 env) '''' transaction_path max_transaction_bytes) (\<lambda>(data, snapshot).
            if \<not> snap_exists snapshot then io_return ()
            else case ae_tx_decode env data of
              None \<Rightarrow> io_error RecordNotYaml
            | Some tx \<Rightarrow> needs_recovery (execute_transaction env pd tx False))) w1"
      by (simp add: recover_def p r e)
    moreover have "wp (io_bind lock_project (\<lambda>_.
          io_bind (read_snapshot (ae_sha256 env) '''' transaction_path max_transaction_bytes) (\<lambda>(data, snapshot).
            if \<not> snap_exists snapshot then io_return ()
            else case ae_tx_decode env data of
              None \<Rightarrow> io_error RecordNotYaml
            | Some tx \<Rightarrow> needs_recovery (execute_transaction env pd tx False)))) Q E w1"
      unfolding wp_bind by (rule wp_mono2 [OF assms(2) [OF r(2)]]) (auto split: prod.splits)
    ultimately show ?thesis by (simp add: wp_def)
  next
    case False
    then have "recover env pd w = (Inl e, w1)" by (auto simp: recover_def p r split: apply_error.splits)
    moreover have "\<not> calm w" using r(3) False by auto
    ultimately show ?thesis using assms(3) [OF r(2)] by (simp add: wp_def)
  qed
qed

lemma recover_spec:
  assumes fold: "reserved_folding (pe_lower (ae_plan env))" and v: "validate_transaction env tx pd = Inr contents"
    and res: "resumable (ae_sha256 env) tx (w_fs w)" and order: "in_order tx w"
    and j: "map_of (w_fs w) transaction_path = Some (Regular d m)"
    and dec: "ae_tx_decode env d = Some tx" "length d \<le> max_transaction_bytes"
  shows "wp (recover env pd)
    (\<lambda>_ w'. completed (ae_sha256 env) tx (w_fs w') \<and> map_of (w_fs w') transaction_path = None)
    (\<lambda>_ w'. \<not> calm w \<and> left_over (ae_sha256 env) tx (Regular d m) (w_fs w')) w"
    (is "wp _ ?Q ?E w")
proof (rule wp_recover_pending)
  let ?sha = "ae_sha256 env"
  have ck: "checked ?sha tx contents" by (rule journal_sound_checked [OF validate_journal_sound [OF fold v]])
  note apart = checked_facts(1) [OF ck]
  have own: "transaction_path \<in> own_files" "lock_path \<in> own_files" "transaction_path \<noteq> lock_path"
    by (simp_all add: own_files_def transaction_path_def lock_path_def)
  have lock_untracked: "lock_path \<notin> tracked tx"
    using apart own unfolding names_apart_in_def apart_def by blast
  show "wp pending_transaction (\<lambda>_ _. False) (\<lambda>e w'. same_world w w' \<and> (calm w \<longrightarrow> e = RecoveryRequired None)) w"
    by (rule pending_present [OF _ j]) (use order own in \<open>auto simp: in_order_def\<close>)
  show "?E e w1" if "same_world w w1" "\<not> calm w" for e :: apply_error and w1
    using that(2) res j by (simp add: left_over_def same_world_simps(1) [OF that(1)])
  fix w1 assume s1: "same_world w w1"
  note fs1 = same_world_simps(1) [OF s1] and g1 = same_world_goes_on [OF s1]
  have order1: "in_order tx w1" using order fresh_same [OF s1] fs1 by (simp add: in_order_def)
  show "wp lock_project (\<lambda>_. wp (read_snapshot ?sha '''' transaction_path max_transaction_bytes) (\<lambda>(data, snapshot).
        wp (if \<not> snap_exists snapshot then io_return ()
            else case ae_tx_decode env data of
              None \<Rightarrow> io_error RecordNotYaml
            | Some tx \<Rightarrow> needs_recovery (execute_transaction env pd tx False)) ?Q ?E) ?E) ?E w1"
  proof (rule wp_mono [OF lock_project_spec [OF apart order1]], goal_cases)
    case (1 a w2)
    then have sp: "spares tx {lock_path} (w_fs w) (w_fs w2)" and order2: "in_order tx w2" and g2: "goes_on w w2"
      using fs1 goes_on_trans [OF g1] by auto
    have j2: "map_of (w_fs w2) transaction_path = Some (Regular d m)"
      using spares_node [OF sp] own j by simp
    have res2: "resumable ?sha tx (w_fs w2)" by (rule resumable_spares [OF res sp]) (use lock_untracked in blast)
    have read: "clear_path (w_fs w2) '''' transaction_path" "file_within (w_fs w2) transaction_path max_transaction_bytes"
      using order2 own j2 dec(2) by (auto simp: in_order_def file_within_def)
    show ?case
    proof (rule wp_mono [OF read_snapshot_either [OF read]], goal_cases)
      case (1 r w3)
      obtain data snap where r: "r = (data, snap)" by (cases r)
      then have s3: "same_world w2 w3" and e: "snap_exists snap" "data = d" using 1 j2 by (auto simp: disk_snapshot_def)
      note fs3 = same_world_simps(1) [OF s3]
      have fr3: "fresh w3 (all_names tx)" and clear3: "output_clear tx (w_fs w3)"
        using order2 fresh_same [OF s3] fs3 by (auto simp: in_order_def)
      have res3: "resumable ?sha tx (w_fs w3)" and j3: "map_of (w_fs w3) transaction_path = Some (Regular d m)"
        using res2 j2 fs3 by simp_all
      have c: "calm w3 = calm w" using goes_on_calm [OF goes_on_trans [OF g2 same_world_goes_on [OF s3]]] .
      show ?case
        unfolding r prod.case e(2) dec(1) option.case
        using e(1) wp_mono [OF execute_transaction_spec [OF fold v res3 fr3 clear3 j3, of False]]
        by (auto simp: wp_needs_recovery c elim!: wp_mono)
    next
      case (2 e w3)
      then have "w_fs w3 = w_fs w2" "\<not> calm w" using same_world_simps(1) goes_on_calm [OF g2] by blast+
      then show ?case using res2 j2 by (simp add: left_over_def)
    qed
  next
    case (2 e w2)
    then have sp: "spares tx {lock_path} (w_fs w) (w_fs w2)" and c: "\<not> calm w"
      using fs1 goes_on_calm [OF g1] by auto
    have "map_of (w_fs w2) transaction_path = Some (Regular d m)" using spares_node [OF sp] own j by simp
    moreover have "resumable ?sha tx (w_fs w2)" by (rule resumable_spares [OF res sp]) (use lock_untracked in blast)
    ultimately show ?case using c by (simp add: left_over_def)
  qed
qed


subsection \<open>An apply is atomic\<close>

text \<open>The disk is as the plan saw it.\<close>

definition as_planned :: "(string \<Rightarrow> string) \<Rightarrow> transaction \<Rightarrow> node gomap \<Rightarrow> bool" where
  "as_planned sha256 tx fs \<longleftrightarrow>
     (\<forall>n \<in> tracked tx. clear_path fs '''' n \<and> file_within fs n max_tracked_bytes \<and>
        map_of (tx_expected tx) n = Some (disk_snapshot sha256 fs n))"

lemma as_planned_resumable: "as_planned sha256 tx fs \<Longrightarrow> resumable sha256 tx fs"
  by (simp add: as_planned_def resumable_def settled_def)

definition untouched :: "transaction \<Rightarrow> node gomap \<Rightarrow> node gomap \<Rightarrow> bool" where
  "untouched tx fs fs' \<longleftrightarrow> (\<forall>n \<in> tracked tx. map_of fs' n = map_of fs n) \<and> map_of fs' transaction_path = None"

lemma commit_transaction_spec:
  assumes fold: "reserved_folding (pe_lower (ae_plan env))" and v: "validate_transaction env tx pd = Inr contents"
    and prep: "prepare_transaction (ae_plan env) p relative = Inr (Some tx)"
    and planned: "as_planned (ae_sha256 env) tx (w_fs w)" and order: "in_order tx w"
    and none: "map_of (w_fs w) transaction_path = None"
  shows "wp (commit_transaction env pd p relative hooked)
    (\<lambda>_ w'. spares tx (own_change tx) (w_fs w) (w_fs w') \<and>
       completed (ae_sha256 env) tx (w_fs w') \<and> map_of (w_fs w') transaction_path = None)
    (\<lambda>_ w'. spares tx (own_change tx) (w_fs w) (w_fs w') \<and>
       (untouched tx (w_fs w) (w_fs w') \<or>
        (length (ae_tx_yaml env tx) \<le> max_transaction_bytes \<and>
         left_over (ae_sha256 env) tx (Regular (ae_tx_yaml env tx) 384) (w_fs w')))) w"
    (is "wp _ ?Q ?E w")
proof -
  let ?sha = "ae_sha256 env" and ?data = "ae_tx_yaml env tx"
  have ck: "checked ?sha tx contents" by (rule journal_sound_checked [OF validate_journal_sound [OF fold v]])
  note apart = checked_facts(1) [OF ck]
  have own: "transaction_path \<in> own_files" "transaction_path \<in> tracked tx \<union> own_files" "transaction_path \<in> all_names tx"
    by (simp_all add: own_files_def all_names_def)
  have untracked: "transaction_path \<notin> tracked tx"
    using apart own unfolding names_apart_in_def apart_def by blast
  have same: "?E e w" for e :: apply_error using none by (simp add: untouched_def)
  have fr: "fresh w (all_names tx)" using order by (simp add: in_order_def)
  have mode: "mode_perm 384 = 384" by (simp add: mode_perm_def)
  have res: "resumable ?sha tx (w_fs w)" by (rule as_planned_resumable [OF planned])
  have reach: "reached '''' transaction_path transaction_path" by (rule reached_project)
  have run: "wp (needs_recovery
                (io_bind (sync_parents '''' transaction_path) (\<lambda>_.
                 io_bind (run_apply_fault hooked ''prepared'') (\<lambda>_.
                   execute_transaction env pd tx hooked)))) ?Q ?E w1"
    if small: "length ?data \<le> max_transaction_bytes" and wr: "written '''' transaction_path (Regular ?data 384) w w1" for w1
  proof -
    have g1: "goes_on w w1" and j1: "map_of (w_fs w1) transaction_path = Some (Regular ?data 384)"
      using wr by (simp_all add: written_def)
    have "kept (folders '''' transaction_path) (insert transaction_path (temps w '''' transaction_path)) (w_fs w) (w_fs w1)"
      using wr kept_mono [of _ "{transaction_path}"] unfolding written_def root_path_empty by blast
    then have sp: "spares tx {transaction_path} (w_fs w) (w_fs w1)"
      by (rule published_spares [OF apart reach own(2) fr])
    have sp': "spares tx (own_change tx) (w_fs w) (w_fs w1)" by (rule spares_mono [OF sp]) (simp add: own_change_def)
    have order1: "in_order tx w1"
      by (rule in_order_spares [OF order sp written_fresh [OF wr reach own(3) fr]]) (use j1 in \<open>simp add: file_or_absent_def\<close>)
    have res1: "resumable ?sha tx (w_fs w1)" by (rule resumable_spares [OF res sp]) (use untracked in blast)
    have stop: "?E e w2" if "w_fs w2 = w_fs w1" for e :: apply_error and w2
      using that sp' res1 j1 small by (simp add: left_over_def)
    show ?thesis
      unfolding wp_needs_recovery wp_bind
    proof (rule wp_mono [OF sync_parents_spec], goal_cases)
      case (1 a w2)
      note fs2 = same_world_simps(1) [OF 1]
      have "wp (execute_transaction env pd tx hooked) ?Q ?E w2"
      proof (rule wp_mono [OF execute_transaction_spec [OF fold v, of w2 "?data" 384]], goal_cases)
        case (5 a w3)
        then show ?case using spares_trans [OF sp'] fs2 by auto
      next
        case (6 e w3)
        then show ?case using spares_trans [OF sp'] fs2 small by auto
      qed (use res1 order1 j1 fs2 fresh_same [OF 1] in \<open>auto simp: in_order_def\<close>)
      then show ?case
        by (intro wp_mono [OF run_apply_fault_spec]) (use stop fs2 in auto)
    next
      case (2 e w2)
      then show ?case using stop same_world_simps(1) by blast
    qed
  qed
  show ?thesis
  proof (cases "length ?data > max_transaction_bytes")
    case True
    then show ?thesis using same by (simp add: commit_transaction_def prep v Let_def io_wp)
  next
    case False
    then have small: "length ?data \<le> max_transaction_bytes" by simp
    have "wp (write_root_file_mode '''' transaction_path ?data 384) (\<lambda>_. wp (needs_recovery
                (io_bind (sync_parents '''' transaction_path) (\<lambda>_.
                 io_bind (run_apply_fault hooked ''prepared'') (\<lambda>_.
                   execute_transaction env pd tx hooked)))) ?Q ?E) ?E w"
    proof (rule wp_mono [OF publish_spec [OF publish_conditions [OF reach own(3) fr]]], goal_cases)
      case (1 a w1)
      then show ?case using run [OF small] by (simp add: mode)
    next
      case (2 e w1)
      then have h: "half_written '''' transaction_path (Regular ?data 384) w w1" by (simp add: mode)
      have sp: "spares tx {transaction_path} (w_fs w) (w_fs w1)"
        by (rule published_spares [OF apart reach own(2) fr]) (use h in \<open>simp add: half_written_def\<close>)
      have sp': "spares tx (own_change tx) (w_fs w) (w_fs w1)" by (rule spares_mono [OF sp]) (simp add: own_change_def)
      have nodes: "map_of (w_fs w1) n = map_of (w_fs w) n" if "n \<in> tracked tx" for n
      proof -
        have "n \<noteq> transaction_path" using that untracked by metis
        then show ?thesis using spares_node [OF sp] that by simp
      qed
      have "resumable ?sha tx (w_fs w1)" by (rule resumable_spares [OF res sp]) (use untracked in blast)
      moreover have "map_of (w_fs w1) transaction_path = None \<or> map_of (w_fs w1) transaction_path = Some (Regular ?data 384)"
        using h none by (simp add: half_written_def)
      ultimately show ?case using sp' nodes small by (auto simp: untouched_def left_over_def)
    qed
    then have "wp (run_apply_fault hooked ''before_prepare'') (\<lambda>_. wp (write_root_file_mode '''' transaction_path ?data 384)
        (\<lambda>_. wp (needs_recovery
                (io_bind (sync_parents '''' transaction_path) (\<lambda>_.
                 io_bind (run_apply_fault hooked ''prepared'') (\<lambda>_.
                   execute_transaction env pd tx hooked)))) ?Q ?E) ?E) ?E w"
      by (intro wp_mono [OF run_apply_fault_spec]) (use same in auto)
    then show ?thesis
      unfolding commit_transaction_def prep v sum.case option.case Let_def if_not_P [OF False] wp_bind .
  qed
qed

lemma recover_nothing:
  assumes "calm w" "clear_path (w_fs w) '''' transaction_path" "map_of (w_fs w) transaction_path = None"
  shows "\<exists>w'. recover env pd w = (Inr (), w') \<and> w_fs w' = w_fs w"
proof -
  obtain r w1 where p: "pending_transaction w = (r, w1)" by (cases "pending_transaction w")
  from wp_run [OF pending_absent [OF assms] p] have "r = Inr ()" "same_world w w1"
    by (cases r; simp)+
  then show ?thesis by (simp add: recover_def p same_world_simps(1))
qed

text \<open>C13. An apply is atomic. Whichever step of the commit of a plan fails, and at whichever point it is
  stopped, a later recovery in which no step fails succeeds and leaves no journal; then either every
  tracked file is as the plan wanted it, or every tracked file is the file that was there before the
  apply. If the commit itself reported success, the first holds.\<close>

theorem apply_is_atomic:
  assumes "reserved_folding (pe_lower (ae_plan env))"
    and "prepare_transaction (ae_plan env) p relative = Inr (Some tx)"
    and "as_planned (ae_sha256 env) tx (w_fs w)" "in_order tx w" "map_of (w_fs w) transaction_path = None"
    and "ae_tx_decode env (ae_tx_yaml env tx) = Some tx"
    and "commit_transaction env pd p relative hooked w = (r, w1)"
    and "calm w2" "w_fs w2 = w_fs w1" "fresh w2 (all_names tx)"
  shows "\<exists>w3. recover env pd w2 = (Inr (), w3) \<and> map_of (w_fs w3) transaction_path = None \<and>
    (completed (ae_sha256 env) tx (w_fs w3) \<or>
     (r \<noteq> Inr () \<and> (\<forall>n \<in> tracked tx. map_of (w_fs w3) n = map_of (w_fs w) n)))"
proof (cases "validate_transaction env tx pd")
  case (Inl e)
  then have "r = Inl e" "w1 = w" using assms(2,7) by (simp_all add: commit_transaction_def io_error_def)
  moreover have "clear_path (w_fs w) '''' transaction_path" using assms(4) by (simp add: in_order_def own_files_def)
  ultimately show ?thesis using recover_nothing [of w2 env pd] assms(5,8,9) by auto
next
  case v: (Inr contents)
  let ?sha = "ae_sha256 env" and ?j = "Regular (ae_tx_yaml env tx) 384"
  from wp_run [OF commit_transaction_spec [OF assms(1) v assms(2-5)] assms(7)]
  have sp: "spares tx (own_change tx) (w_fs w) (w_fs w1)"
    and left: "untouched tx (w_fs w) (w_fs w1) \<and> r \<noteq> Inr () \<or>
      (length (ae_tx_yaml env tx) \<le> max_transaction_bytes \<and> left_over ?sha tx ?j (w_fs w1)) \<or>
      (completed ?sha tx (w_fs w1) \<and> map_of (w_fs w1) transaction_path = None)"
    by (cases r; auto)+
  have "file_or_absent (w_fs w1) transaction_path"
    using left by (auto simp: file_or_absent_def untouched_def left_over_def)
  moreover have "lock_path \<notin> own_change tx"
  proof -
    have "names_apart_in tx" using checked_facts(1) [OF journal_sound_checked [OF validate_journal_sound [OF assms(1) v]]] .
    then have "lock_path \<notin> tracked tx" unfolding names_apart_in_def apart_def own_files_def by blast
    then show ?thesis by (simp add: own_change_def transaction_path_def lock_path_def)
  qed
  ultimately have order: "in_order tx w2"
    using in_order_spares [OF assms(4), of "own_change tx" w2] sp assms(9,10) by (auto simp: own_files_def)
  then have clear: "clear_path (w_fs w2) '''' transaction_path" by (simp add: in_order_def own_files_def)
  consider "map_of (w_fs w1) transaction_path = None" "untouched tx (w_fs w) (w_fs w1) \<and> r \<noteq> Inr () \<or> completed ?sha tx (w_fs w1)"
    | "resumable ?sha tx (w_fs w1)" "map_of (w_fs w1) transaction_path = Some ?j" "length (ae_tx_yaml env tx) \<le> max_transaction_bytes"
    using left by (auto simp: untouched_def left_over_def)
  then show ?thesis
  proof cases
    case 1
    with recover_nothing [OF assms(8) clear, of env pd] assms(9) show ?thesis by (auto simp: untouched_def)
  next
    case 2
    obtain r3 w3 where run: "recover env pd w2 = (r3, w3)" by (cases "recover env pd w2")
    from wp_run [OF recover_spec [OF assms(1) v _ order _ assms(6) 2(3), of 384] run] 2 assms(8,9)
    have "r3 = Inr ()" "completed ?sha tx (w_fs w3)" "map_of (w_fs w3) transaction_path = None"
      by (cases r3; auto)+
    with run show ?thesis by blast
  qed
qed

text \<open>C16. A conflicting file stops a run before any write: when a tracked file is neither as it was
  before the apply nor as the apply wants it, executing the journal gives an error and changes nothing,
  whatever steps fail.\<close>

theorem conflict_stops_before_any_write:
  assumes "n \<in> tracked tx" "\<not> settled (ae_sha256 env) tx (w_fs w) n"
  shows "\<exists>e w'. execute_transaction env pd tx hooked w = (Inl e, w') \<and> w_fs w' = w_fs w"
proof (cases "validate_transaction env tx pd")
  case (Inl e)
  then show ?thesis by (simp add: execute_transaction_def io_error_def)
next
  case (Inr contents)
  have "n \<in> set (sorted_keys (tx_expected tx))" using assms(1) by (simp add: tracked_def keys_of_def)
  then have "wp (read_current (ae_sha256 env) tx (sorted_keys (tx_expected tx)) []) (\<lambda>_ _. False)
      (\<lambda>_ w'. same_world w w') w"
    by (intro wp_mono [OF read_current_settled]) (use assms in auto)
  then obtain e w' where "read_current (ae_sha256 env) tx (sorted_keys (tx_expected tx)) [] w = (Inl e, w')" "same_world w w'"
    by (auto simp: wp_def split: prod.splits sum.splits)
  then show ?thesis by (simp add: execute_transaction_def Inr io_bind_def same_world_simps(1))
qed

subsection \<open>What a journal installs\<close>

definition planned_operation ::
    "plan_env \<Rightarrow> string \<Rightarrow> file_snapshot gomap \<Rightarrow> string gomap \<Rightarrow> planned_file \<Rightarrow> transaction_operation option" where
  "planned_operation env relative expected files f =
     (let name = project_file_path relative (pf_path f); before = snapshot_of expected name in
      case pf_action f of
        ActionUnchanged \<Rightarrow> None
      | ActionDelete \<Rightarrow> if snap_exists before
          then Some \<lparr>op_path = name, op_before = before, op_after = absent_file, op_data = ''''\<rparr> else None
      | _ \<Rightarrow> Some \<lparr>op_path = name, op_before = before,
          op_after = after_write env before (map_get files (pf_path f)),
          op_data = base64_encode (map_get files (pf_path f))\<rparr>)"

lemma prepare_operations_Inr:
  assumes "prepare_operations env relative expected files fs bytes ops = Inr (ops', bytes')"
  shows "ops' = ops @ List.map_filter (planned_operation env relative expected files) fs \<and>
    (\<forall>f \<in> set fs. map_of expected (project_file_path relative (pf_path f)) \<noteq> None \<and>
      (pf_action f = ActionGenerate \<or> pf_action f = ActionUpdate \<longrightarrow> map_of files (pf_path f) \<noteq> None))"
  using assms
proof (induction fs arbitrary: bytes ops)
  case Nil
  then show ?case by (simp add: map_filter_simps)
next
  case (Cons f fs)
  let ?name = "project_file_path relative (pf_path f)"
  obtain before where b: "map_of expected ?name = Some before"
    using Cons.prems by (cases "map_of expected ?name") (auto simp: Let_def)
  show ?case
  proof (cases "pf_action f")
    case ActionUnchanged
    then have "prepare_operations env relative expected files fs bytes ops = Inr (ops', bytes')"
      using Cons.prems b by (simp add: Let_def)
    from Cons.IH [OF this] show ?thesis
      using ActionUnchanged b by (simp add: map_filter_simps planned_operation_def Let_def)
  next
    case ActionDelete
    show ?thesis
    proof (cases "snap_exists before")
      case False
      then have "prepare_operations env relative expected files fs bytes ops = Inr (ops', bytes')"
        using Cons.prems b ActionDelete by (simp add: Let_def split: if_splits)
      from Cons.IH [OF this] show ?thesis
        using ActionDelete b False by (simp add: map_filter_simps planned_operation_def snapshot_of_def Let_def)
    next
      case True
      then have "prepare_operations env relative expected files fs bytes
          (ops @ [\<lparr>op_path = ?name, op_before = before, op_after = absent_file, op_data = ''''\<rparr>]) = Inr (ops', bytes')"
        using Cons.prems b ActionDelete by (simp add: Let_def split: if_splits)
      from Cons.IH [OF this] show ?thesis
        using ActionDelete b True by (simp add: map_filter_simps planned_operation_def snapshot_of_def Let_def)
    qed
  next
    case ActionGenerate
    then obtain data where d: "map_of files (pf_path f) = Some data" and
      "prepare_operations env relative expected files fs (bytes + length data)
        (ops @ [\<lparr>op_path = ?name, op_before = before, op_after = after_write env before data,
                 op_data = base64_encode data\<rparr>]) = Inr (ops', bytes')"
      using Cons.prems b by (auto simp: Let_def split: option.splits if_splits)
    from Cons.IH [OF this(2)] show ?thesis
      using ActionGenerate b d by (auto simp: map_filter_simps planned_operation_def snapshot_of_def map_get_def Let_def)
  next
    case ActionUpdate
    then obtain data where d: "map_of files (pf_path f) = Some data" and
      "prepare_operations env relative expected files fs (bytes + length data)
        (ops @ [\<lparr>op_path = ?name, op_before = before, op_after = after_write env before data,
                 op_data = base64_encode data\<rparr>]) = Inr (ops', bytes')"
      using Cons.prems b by (auto simp: Let_def split: option.splits if_splits)
    from Cons.IH [OF this(2)] show ?thesis
      using ActionUpdate b d by (auto simp: map_filter_simps planned_operation_def snapshot_of_def map_get_def Let_def)
  qed
qed

lemma collect_files_Inr:
  assumes "collect_files env hashes fs files = Inr files'" "map_of files' p = Some d"
  shows "map_of files p = Some d \<or> (\<exists>g \<in> set fs. gf_path g = p \<and> file_bytes g = d)"
  using assms
proof (induction fs arbitrary: files)
  case (Cons g fs)
  then have "collect_files env hashes fs (AList.update (gf_path g) (file_bytes g) files) = Inr files'"
    by (auto simp: Let_def split: if_splits)
  from Cons.IH [OF this Cons.prems(2)] show ?case by (auto split: if_splits)
qed simp

lemma set_map_filter: "set (List.map_filter f xs) = {y. \<exists>x \<in> set xs. f x = Some y}"
  by (induction xs) (auto simp: map_filter_simps split: option.splits)

lemma map_of_filter_key: "map_of (filter (\<lambda>(n, _). P n) m) k = (if P k then map_of m k else None)"
  by (induction m) auto

definition installed :: "plan_env \<Rightarrow> plan \<Rightarrow> planned_file \<Rightarrow> file_snapshot option \<Rightarrow> file_snapshot \<Rightarrow> bool" where
  "installed env p f before s \<longleftrightarrow>
     (case pf_action f of
        ActionUnchanged \<Rightarrow> before = Some s
      | ActionDelete \<Rightarrow> \<not> snap_exists s
      | _ \<Rightarrow> \<exists>g \<in> set (pl_generated p). gf_path g = pf_path f \<and> snap_exists s \<and>
               snap_hash s = pe_sha256 env (file_bytes g))"

text \<open>C14. The journal that is prepared from a plan wants what the plan says: at each planned file to
  generate or update, the content that the plan generated for it; at each file to delete, nothing; at
  an unchanged file, what was there; and as the state file, the encoded new state.\<close>

theorem journal_installs_plan:
  assumes "prepare_transaction env p relative = Inr (Some tx)"
    and "distinct (state_path # map (\<lambda>f. project_file_path relative (pf_path f)) (pl_files p))"
  shows "(\<forall>f \<in> set (pl_files p). let name = project_file_path relative (pf_path f) in
      installed env p f (map_of (pl_snapshots p) name) (snapshot_of (final_states tx) name)) \<and>
    (\<exists>data. encode_state (pe_sha256 env) (pe_state_yaml env) (pl_new_state p) = Inr data \<and>
      snapshot_of (final_states tx) state_path = after_write env (snapshot_of (tx_expected tx) state_path) data)"
proof -
  let ?e = "expected_snapshots relative (pl_snapshots p)" and ?name = "\<lambda>f. project_file_path relative (pf_path f)"
  obtain la where la: "state_last (pl_new_state p) = Some la"
    using assms(1) by (cases "state_last (pl_new_state p)") (auto simp: prepare_transaction_def)
  obtain files where files: "collect_files env (la_files la) (pl_generated p) [] = Inr files"
    using assms(1) la by (cases "collect_files env (la_files la) (pl_generated p) []") (auto simp: prepare_transaction_def Let_def)
  obtain ops bytes where ops: "prepare_operations env relative ?e files (pl_files p) 0 [] = Inr (ops, bytes)"
    using assms(1) la files
    by (cases "prepare_operations env relative ?e files (pl_files p) 0 []") (auto simp: prepare_transaction_def Let_def)
  obtain data where data: "encode_state (pe_sha256 env) (pe_state_yaml env) (pl_new_state p) = Inr data"
    using assms(1) la files ops
    by (cases "encode_state (pe_sha256 env) (pe_state_yaml env) (pl_new_state p)") (auto simp: prepare_transaction_def Let_def)
  let ?st = "\<lparr>op_path = state_path, op_before = snapshot_of ?e state_path,
      op_after = after_write env (snapshot_of ?e state_path) data, op_data = base64_encode data\<rparr>"
  have tx: "tx_expected tx = ?e" "tx_operations tx = ops @ [?st]"
    using assms(1) la files ops data by (auto simp: prepare_transaction_def Let_def split: if_splits)
  note o = prepare_operations_Inr [OF ops]
  have ops': "ops = List.map_filter (planned_operation env relative ?e files) (pl_files p)" using o by simp
  have path: "planned_operation env relative ?e files f = Some op \<Longrightarrow> op_path op = ?name f" for f op
    by (auto simp: planned_operation_def Let_def split: file_action.splits if_splits)
  have paths: "distinct (map op_path (List.map_filter (planned_operation env relative ?e files) fs)) \<and>
      op_path ` set (List.map_filter (planned_operation env relative ?e files) fs) \<subseteq> ?name ` set fs"
    if "distinct (map ?name fs)" for fs
    using that
  proof (induction fs)
    case (Cons f fs)
    show ?case
    proof (cases "planned_operation env relative ?e files f")
      case None
      then show ?thesis using Cons by (auto simp: map_filter_simps)
    next
      case (Some op)
      have n: "op_path op \<notin> ?name ` set fs" using Cons.prems path [OF Some] by simp
      have "op_path ` set (List.map_filter (planned_operation env relative ?e files) fs) \<subseteq> ?name ` set fs"
        using Cons by simp
      then have "op_path op \<notin> op_path ` set (List.map_filter (planned_operation env relative ?e files) fs)"
        using n by (rule contra_subsetD)
      then show ?thesis using Cons Some path [OF Some] by (simp add: map_filter_simps) blast
    qed
  qed (simp add: map_filter_simps)
  have dist: "distinct (map op_path (tx_operations tx))" "op_path ` set ops \<subseteq> ?name ` set (pl_files p)"
    using paths [of "pl_files p"] assms(2) tx(2) unfolding ops' by auto
  have target: "op \<in> set (tx_operations tx) \<Longrightarrow> map_of (final_states tx) (op_path op) = Some (op_after op)" for op
    unfolding final_states_def by (rule updates_target [OF dist(1)])
  have state: "snapshot_of (final_states tx) state_path = after_write env (snapshot_of ?e state_path) data"
    using target [of ?st] tx(2) by (simp add: snapshot_of_def)
  have each: "installed env p f (map_of (pl_snapshots p) (?name f)) (snapshot_of (final_states tx) (?name f))"
    if f: "f \<in> set (pl_files p)" for f
  proof (cases "planned_operation env relative ?e files f")
    case (Some op)
    then have "op \<in> set ops" using f unfolding ops' set_map_filter by force
    then have fin: "snapshot_of (final_states tx) (?name f) = op_after op"
      using target [of op] tx(2) path [OF Some] by (simp add: snapshot_of_def)
    show ?thesis
    proof (cases "pf_action f = ActionGenerate \<or> pf_action f = ActionUpdate")
      case True
      then obtain d where d: "map_of files (pf_path f) = Some d" using o f by blast
      then obtain g where g: "g \<in> set (pl_generated p)" "gf_path g = pf_path f" "file_bytes g = d"
        using collect_files_Inr [OF files] by auto
      have "op_after op = after_write env (op_before op) d"
        using Some True d by (auto simp: planned_operation_def map_get_def Let_def)
      then have "snap_exists (op_after op) \<and> snap_hash (op_after op) = pe_sha256 env (file_bytes g)"
        using g(3) by (simp add: after_write_def)
      then show ?thesis using True g(1,2) unfolding fin installed_def by auto
    next
      case False
      then have "pf_action f = ActionDelete" "op_after op = absent_file"
        using Some by (cases "pf_action f"; auto simp: planned_operation_def Let_def split: if_splits)+
      then show ?thesis by (simp add: installed_def fin absent_file_def)
    qed
  next
    case None
    have other: "?name f \<notin> op_path ` set (tx_operations tx)"
    proof
      assume "?name f \<in> op_path ` set (tx_operations tx)"
      then consider "?name f = state_path" | op where "op \<in> set ops" "op_path op = ?name f" using tx(2) by auto
      then show False
      proof cases
        case 1
        then show False using assms(2) f by (metis distinct.simps(2) imageI set_map)
      next
        case (2 op)
        then obtain f' where f': "f' \<in> set (pl_files p)" "planned_operation env relative ?e files f' = Some op"
          unfolding ops' set_map_filter by auto
        then have "?name f' = ?name f" using path 2 by metis
        moreover have "inj_on ?name (set (pl_files p))" using assms(2) by (simp add: distinct_map)
        ultimately have "f' = f" using f f'(1) by (metis inj_onD)
        then show False using None f'(2) by simp
      qed
    qed
    have fin: "map_of (final_states tx) (?name f) = map_of ?e (?name f)"
      unfolding final_states_def tx(1) [symmetric] by (rule updates_other [OF other])
    obtain b where b: "map_of ?e (?name f) = Some b" using o f by blast
    then have s: "map_of (pl_snapshots p) (?name f) = Some b"
      by (auto simp: expected_snapshots_def map_of_filter_key split: if_splits)
    show ?thesis
    proof (cases "pf_action f")
      case ActionUnchanged
      then show ?thesis using s b fin by (simp add: installed_def snapshot_of_def)
    next
      case ActionDelete
      then have "\<not> snap_exists b"
        using None b by (simp add: planned_operation_def snapshot_of_def Let_def split: if_splits)
      then show ?thesis using ActionDelete b fin by (simp add: installed_def snapshot_of_def)
    qed (use None in \<open>auto simp: planned_operation_def Let_def\<close>)
  qed
  show ?thesis using each state data tx(1) by (auto simp: Let_def)
qed


subsection \<open>A concrete apply\<close>

lemma fresh_world:
  assumes "finite M"
  shows "\<exists>w. calm w \<and> w_fs w = fs \<and> fresh w M"
proof -
  let ?parts = "\<Union>p \<in> M \<union> set (map fst fs). set (split_on slash p)"
  have "finite ?parts" using assms by simp
  then obtain k where k: "\<And>q. q \<in> ?parts \<Longrightarrow> length q < k"
    by (metis finite_nat_set_iff_bounded finite_imageI imageI)
  let ?w = "(quiet_world fs)\<lparr>w_nonce := \<lambda>_. replicate k CHR ''a''\<rparr>"
  have "length (temp_part (replicate k CHR ''a'')) \<ge> k" by (simp add: temp_part_def)
  then have part: "temp_part (replicate k CHR ''a'') \<notin> ?parts" using k leD by blast
  have "p \<in> set (map fst fs)" if "map_of fs p \<noteq> None" for p
    using that by (simp add: map_of_eq_None_iff)
  then have "fresh ?w M" using part by (auto simp: fresh_def quiet_world_def slash_def)
  then show ?thesis by (intro exI [of _ ?w]) (simp add: quiet_world_def calm_def)
qed

definition sample_new_state :: state where
  "sample_new_state = \<lparr>state_format = state_format_version, state_last = Some
     \<lparr>la_inputs = None, la_compiler_build = Some (pe_build sample_env), la_service_name = ''app'', la_service_hash = ''h'',
      la_registry_sha = '''', la_registry_content = '''', la_components = [], la_entities = None,
      la_files = [(''schema.sql'', sample_hash (file_bytes sample_generated))]\<rparr>\<rparr>"

definition sample_plan :: plan where
  "sample_plan = \<lparr>pl_files = [\<lparr>pf_path = ''schema.sql'', pf_action = ActionGenerate\<rparr>],
     pl_entity_changes = [], pl_generated = [sample_generated], pl_new_state = sample_new_state,
     pl_state_changed = True, pl_hand_edited = [], pl_replace_hand_edits = False, pl_saved = None,
     pl_manifest_sha = '''', pl_registry = None, pl_requirements = [],
     pl_snapshots = [(''out/schema.sql'', absent_file), (state_path, absent_file)],
     pl_project_dir = ''/p'', pl_out_dir = ''/p/out''\<rparr>"

definition sample_record :: transaction where
  "sample_record = \<lparr>tx_version = 1, tx_output_dir = ''out'',
     tx_expected = [(''out/schema.sql'', absent_file), (state_path, absent_file)],
     tx_operations =
       [\<lparr>op_path = ''out/schema.sql'', op_before = absent_file,
         op_after = after_write sample_env absent_file (file_bytes sample_generated),
         op_data = base64_encode (file_bytes sample_generated)\<rparr>,
        \<lparr>op_path = state_path, op_before = absent_file,
         op_after = after_write sample_env absent_file (pe_state_yaml sample_env (sample_new_state)),
         op_data = base64_encode (pe_state_yaml sample_env (sample_new_state))\<rparr>]\<rparr>"

lemma sample_prepared: "prepare_transaction sample_env sample_plan ''out'' = Inr (Some sample_record)"
proof -
  have v: "validate_state_paths (pe_sha256 sample_env) sample_new_state = None" by code_simp
  have n: "project_file_path ''out'' ''schema.sql'' = ''out/schema.sql''" "\<not> is_project_root_file ''schema.sql''"
    "expected_snapshots ''out'' [(''out/schema.sql'', absent_file), (state_path, absent_file)] =
       [(''out/schema.sql'', absent_file), (state_path, absent_file)]" "''out/schema.sql'' \<noteq> state_path" "\<not> snap_exists absent_file"
    by code_simp+
  have l: "length (file_bytes sample_generated) \<le> 100" by code_simp
  have y: "pe_state_yaml sample_env s = replicate (length (recorded_files s)) CHR ''x''" "pe_sha256 sample_env = sample_hash" for s
    by (simp_all add: sample_env_def)
  have u: "sample_new_state\<lparr>state_format := state_format_version\<rparr> = sample_new_state" by (simp add: sample_new_state_def)
  have s: "length (pe_state_yaml sample_env sample_new_state) = 1" by (simp add: y recorded_files_def sample_new_state_def)
  then have enc: "encode_state (pe_sha256 sample_env) (pe_state_yaml sample_env) sample_new_state = Inr (pe_state_yaml sample_env sample_new_state)"
    by (simp add: encode_state_def v u max_document_bytes_def)
  have g: "gf_path sample_generated = ''schema.sql''" by (simp add: sample_generated_def)
  have la: "\<exists>la. state_last sample_new_state = Some la \<and> map_get (la_files la) ''schema.sql'' = sample_hash (file_bytes sample_generated)"
    by (simp add: sample_new_state_def map_get_def)
  then obtain la where la: "state_last sample_new_state = Some la"
    "map_get (la_files la) ''schema.sql'' = sample_hash (file_bytes sample_generated)" by blast
  show ?thesis
    using l s n(4,5) unfolding prepare_transaction_def sample_plan_def sample_record_def
    by (simp add: la enc [unfolded y(2)] n g y(2) snapshot_of_def max_tracked_bytes_def after_write_def Let_def)
qed

definition sample_apply_env :: apply_env where
  "sample_apply_env = \<lparr>ae_plan = sample_env, ae_decode_state = \<lambda>_. Some sample_new_state,
     ae_tx_yaml = \<lambda>_. ''transaction'', ae_tx_decode = \<lambda>_. Some sample_record, ae_registry_verify = io_return ()\<rparr>"

lemma sample_apply_env_simps [simp]:
  "ae_plan sample_apply_env = sample_env" "ae_tx_yaml sample_apply_env tx = ''transaction''"
  "ae_tx_decode sample_apply_env d = Some sample_record" "pe_lower sample_env = lower_ascii"
  by (simp_all add: sample_apply_env_def sample_env_def)

text \<open>The process is stopped at a named point.\<close>

definition stopped_world :: "string \<Rightarrow> node gomap \<Rightarrow> world" where
  "stopped_world point fs = (quiet_world fs)\<lparr>w_stop := \<lambda>p. p = point\<rparr>"

lemma sample_names: "tracked sample_record = {''out/schema.sql'', state_path}" "finite (all_names sample_record)"
  "all_names sample_record = {''out/schema.sql'', state_path, transaction_path, lock_path, ''out/entry''}"
  by (simp_all add: tracked_def keys_of_def all_names_def own_files_def sample_record_def slash_def insert_commute)

lemma sample_in_order: "in_order sample_record (stopped_world point [(''out'', Dir)])"
proof -
  let ?fs = "[(''out'', Dir)]"
  have "list_all (\<lambda>q. temp_part ''n'' \<notin> set (split_on slash q))
      [''out/schema.sql'', state_path, transaction_path, lock_path, ''out/entry'', ''out'']" by code_simp
  then have "fresh (stopped_world point ?fs) (all_names sample_record)"
    by (auto simp: fresh_def stopped_world_def quiet_world_def slash_def sample_names split: if_splits)
  moreover have "output_clear sample_record ?fs" by code_simp
  moreover have "list_all (\<lambda>k. clear_path ?fs '''' k \<and> map_of ?fs k = None) [transaction_path, lock_path]" by code_simp
  ultimately show ?thesis by (simp add: in_order_def stopped_world_def own_files_def file_or_absent_def)
qed

lemma sample_as_planned: "as_planned (pe_sha256 sample_env) sample_record [(''out'', Dir)]"
proof -
  have "list_all (\<lambda>n. clear_path [(''out'', Dir)] '''' n \<and> map_of [(''out'', Dir)] n = None \<and>
      map_of (tx_expected sample_record) n = Some absent_file) [''out/schema.sql'', state_path]" by code_simp
  then show ?thesis by (auto simp: as_planned_def sample_names file_within_def disk_snapshot_def split: if_splits)
qed

lemma apply_is_atomic_witness:
  "\<exists>r w1 w2 w3. commit_transaction sample_apply_env ''/p'' sample_plan ''out'' True
      (stopped_world ''after_operation_0'' [(''out'', Dir)]) = (r, w1) \<and> w_fs w2 = w_fs w1 \<and>
    recover sample_apply_env ''/p'' w2 = (Inr (), w3) \<and> map_of (w_fs w3) transaction_path = None \<and>
    (completed (pe_sha256 sample_env) sample_record (w_fs w3) \<or> map_of (w_fs w3) state_path = None)"
proof -
  let ?w = "stopped_world ''after_operation_0'' [(''out'', Dir)]"
  obtain r w1 where c: "commit_transaction sample_apply_env ''/p'' sample_plan ''out'' True ?w = (r, w1)"
    by (cases "commit_transaction sample_apply_env ''/p'' sample_plan ''out'' True ?w")
  obtain w2 where w2: "calm w2" "w_fs w2 = w_fs w1" "fresh w2 (all_names sample_record)"
    using fresh_world [OF sample_names(2)] by blast
  have "map_of [(''out'', Dir)] transaction_path = None" "map_of [(''out'', Dir)] state_path = None" by code_simp+
  then have fs: "w_fs ?w = [(''out'', Dir)]" "map_of (w_fs ?w) transaction_path = None" "map_of (w_fs ?w) state_path = None"
    by (simp_all add: stopped_world_def)
  have r: "reserved_folding (pe_lower (ae_plan sample_apply_env))"
    by (simp add: ascii_reserved.reserved_folding_axioms)
  show ?thesis
    using apply_is_atomic [OF r _ _ sample_in_order _ _ c w2] sample_prepared sample_as_planned fs c w2
    by (auto simp: sample_names)
qed

lemma conflict_stops_before_any_write_witness:
  "\<exists>e w'. execute_transaction sample_apply_env ''/p'' sample_record False
      (quiet_world [(''out'', Dir), (''out/schema.sql'', Regular ''edited'' 384)]) = (Inl e, w') \<and>
    w_fs w' = [(''out'', Dir), (''out/schema.sql'', Regular ''edited'' 384)]"
proof -
  let ?fs = "[(''out'', Dir), (''out/schema.sql'', Regular ''edited'' 384)]"
  have "\<not> settled (pe_sha256 sample_env) sample_record ?fs ''out/schema.sql''" by code_simp
  then show ?thesis
    using conflict_stops_before_any_write [of "''out/schema.sql''" sample_record sample_apply_env "quiet_world ?fs" "''/p''" False]
    by (simp add: sample_names)
qed

lemma journal_installs_plan_witness:
  "installed sample_env sample_plan \<lparr>pf_path = ''schema.sql'', pf_action = ActionGenerate\<rparr> (Some absent_file)
     (snapshot_of (final_states sample_record) ''out/schema.sql'') \<and>
   (\<exists>d. encode_state (pe_sha256 sample_env) (pe_state_yaml sample_env) sample_new_state = Inr d \<and>
     snapshot_of (final_states sample_record) state_path = after_write sample_env absent_file d)"
proof -
  have n: "project_file_path ''out'' ''schema.sql'' = ''out/schema.sql''" "state_path \<noteq> ''out/schema.sql''"
    "snapshot_of (tx_expected sample_record) state_path = absent_file" by code_simp+
  show ?thesis
    using journal_installs_plan [OF sample_prepared] n by (simp add: sample_plan_def Let_def)
qed

end
