(* ===== verification/Apply_Checks.thy ===== *)
theory Apply_Checks
  imports Atomic_Apply
begin

text \<open>
  What stands between a plan and its commit: the checks of \<open>applyWithFault\<close>
  (\<open>internal/compiler/reconciler.go\<close>) and the saved plan of \<open>saved_plan.go\<close>, saved, read back and
  compared with the plan to apply.
\<close>

subsection \<open>Operations that only read\<close>

definition reads :: "'a io \<Rightarrow> bool" where
  "reads m \<longleftrightarrow> (\<forall>w. wp m (\<lambda>_ w'. same_world w w') (\<lambda>_ w'. same_world w w') w)"

named_theorems reads "operations that only read"

lemma reads_check [reads]: "reads (io_check c)"
  by (simp add: reads_def wp_check split: option.splits)

lemma reads_return [reads]: "reads (io_return a)"
  by (simp add: reads_def wp_return)

lemma reads_bind [reads]: "reads m \<Longrightarrow> (\<And>a. reads (f a)) \<Longrightarrow> reads (io_bind m f)"
proof -
  assume m: "reads m" and f: "\<And>a. reads (f a)"
  show "reads (io_bind m f)"
    unfolding reads_def wp_bind
  proof
    fix w
    show "wp m (\<lambda>a. wp (f a) (\<lambda>_ w'. same_world w w') (\<lambda>_ w'. same_world w w')) (\<lambda>_ w'. same_world w w') w"
    proof (rule wp_mono [OF spec [OF m [unfolded reads_def]]])
      show "wp (f a) (\<lambda>_ w'. same_world w w') (\<lambda>_ w'. same_world w w') w1" if "same_world w w1" for a w1
        by (rule wp_mono [OF spec [OF f [unfolded reads_def]]]) (use same_world_trans [OF that] in auto)
    qed
  qed
qed

lemma reads_pending [reads]: "reads pending_transaction"
  unfolding reads_def by (intro allI wp_mono [OF pending_transaction_spec]) auto

lemma reads_path [reads]: "reads (check_file_path base name)"
  by (simp add: reads_def check_file_path_reads)

lemma reads_target [reads]: "reads (check_file_target base name)"
  unfolding reads_def by (intro allI wp_mono [OF check_file_target_spec]) auto

lemma reads_targets [reads]: "reads (check_targets relative ps)"
  by (induction ps) (auto intro: reads)

lemma reads_verify [reads]: "reads (verify_snapshots sha256 snaps)"
  unfolding reads_def by (intro allI wp_mono [OF verify_snapshots_true]) auto

lemma reads_error [reads]: "reads (io_error e)"
  by (simp add: reads_def wp_error)

lemma reads_registry [reads]: "reads (ae_registry_verify env) \<Longrightarrow> reads (verify_registry env p)"
  by (auto simp: verify_registry_def intro: reads split: option.split)

subsection \<open>The lock\<close>

definition locks_only :: "node gomap \<Rightarrow> node gomap \<Rightarrow> bool" where
  "locks_only = kept {''.stego''} {lock_path}"

lemma locks_only_same [simp]: "locks_only fs fs"
  by (simp add: locks_only_def)

lemma locks_only_trans: "locks_only a b \<Longrightarrow> locks_only b c \<Longrightarrow> locks_only a c"
  unfolding locks_only_def by (rule kept_trans)

lemma lock_project_locks:
  "wp lock_project (\<lambda>_ w'. locks_only (w_fs w) (w_fs w')) (\<lambda>_ w'. locks_only (w_fs w) (w_fs w')) w"
proof -
  have p: "path_prefixes ''.stego'' = [''.stego'']" by (simp add: path_prefixes_def slash_def)
  have mk: "wp (mkdir_all '''' ''.stego'')
      (\<lambda>_ w'. locks_only (w_fs w1) (w_fs w')) (\<lambda>_ w'. locks_only (w_fs w1) (w_fs w')) w1" for w1
    using mkdir_parts_spec [of "''''" "path_prefixes ''.stego''" "{''.stego''}" w1]
    by (auto simp: mkdir_all_def p locks_only_def elim!: wp_mono elim: kept_mono)
  have set: "locks_only fs (w_fs w2) \<Longrightarrow> locks_only fs (AList.update lock_path n (w_fs w2))" for fs n w2
    by (auto simp: locks_only_def kept_def)
  show ?thesis
    unfolding lock_project_def wp_bind
  proof (rule wp_mono [OF check_file_target_spec], goal_cases)
    case (1 a w1)
    then have fs: "w_fs w1 = w_fs w" using same_world_simps(1) by blast
    show ?case
      unfolding fs [symmetric]
      by (rule wp_mono [OF mk]) (auto simp: io_wp intro: set)
  next
    case (2 e w1)
    then show ?case using same_world_simps(1) by fastforce
  qed
qed

lemma gate_read:
  assumes "reads m" "locks_only fs (w_fs w)" and "\<And>e w'. locks_only fs (w_fs w') \<Longrightarrow> E e w'"
    and "\<And>a w'. locks_only fs (w_fs w') \<Longrightarrow> w_fs w' = w_fs w \<Longrightarrow> wp (f a) Q E w'"
  shows "wp (io_bind m f) Q E w"
  unfolding wp_bind
  by (rule wp_mono [OF spec [OF assms(1) [unfolded reads_def]]]) (use assms(2-4) same_world_simps(1) in fastforce)+

lemma gate_check:
  assumes "locks_only fs (w_fs w)" "\<And>e w'. locks_only fs (w_fs w') \<Longrightarrow> E e w'" "c = None \<Longrightarrow> wp (f ()) Q E w"
  shows "wp (io_bind (io_check c) f) Q E w"
  using assms by (auto simp: wp_bind wp_check split: option.splits)

subsection \<open>The checks of an apply\<close>

text \<open>The project as it is when an apply commits a plan.\<close>

definition admitted :: "apply_env \<Rightarrow> plan \<Rightarrow> string \<Rightarrow> string \<Rightarrow> world \<Rightarrow> bool" where
  "admitted env p project_dir out_dir w \<longleftrightarrow>
     (\<forall>n s. map_of (pl_snapshots p) n = Some s \<longrightarrow> s = disk_snapshot (ae_sha256 env) (w_fs w) n) \<and>
     map_of (w_fs w) transaction_path = None \<and>
     (pl_hand_edited p = [] \<or> pl_replace_hand_edits p) \<and>
     (\<forall>saved. pl_saved p = Some saved \<longrightarrow> still_applies (ae_plan env) saved p = None) \<and>
     pl_project_dir p = pe_abs (ae_plan env) project_dir \<and> pl_out_dir p = pe_abs (ae_plan env) out_dir"

lemma wp_self: "wp m (\<lambda>a w'. m w = (Inr a, w')) (\<lambda>e w'. m w = (Inl e, w')) w"
  by (simp add: wp_def split: prod.split sum.split)


subsection \<open>A saved plan\<close>

lemma plan_differences_none:
  "plan_differences saved current = [] \<longleftrightarrow> saved\<lparr>sl_version := sl_version current\<rparr> = current"
  by (cases saved; cases current) (auto simp: plan_differences_def)

text \<open>A saved plan still applies exactly when saving the plan anew would write the same saved plan,
  its version apart.\<close>

lemma still_applies_iff:
  "still_applies env saved p = None \<longleftrightarrow>
    (\<exists>current. new_saved_plan env p = Inr current \<and> saved\<lparr>sl_version := sl_version current\<rparr> = current)"
  by (cases "new_saved_plan env p") (simp_all add: still_applies_def plan_differences_none)

lemma new_saved_plan_version: "new_saved_plan env p = Inr saved \<Longrightarrow> sl_version saved = saved_plan_version"
  by (auto simp: new_saved_plan_def bind_result_Inr split: option.splits if_splits)

lemma saved_plan_place:
  "folders '''' saved_plan_path = {''.stego''}" "saved_plan_path \<notin> temps w '''' saved_plan_path"
  "''.stego'' \<notin> temps w '''' saved_plan_path" "valid_path saved_plan_path" "path_dir saved_plan_path = ''.stego''"
proof -
  show d: "path_dir saved_plan_path = ''.stego''" by code_simp
  have "set (butlast (path_prefixes saved_plan_path)) = {''.stego''}" by code_simp
  then show "folders '''' saved_plan_path = {''.stego''}" by (simp add: folders_def path_prefixes_ancestors)
  show "valid_path saved_plan_path" by code_simp
  show "saved_plan_path \<notin> temps w '''' saved_plan_path" "''.stego'' \<notin> temps w '''' saved_plan_path"
    unfolding temps_def d by (auto simp: temp_path_def temp_part_def saved_plan_path_def slash_def)
qed

text \<open>C34. A plan that was saved is read back, as a saved plan that the plan still matches.\<close>

theorem saved_plan_reads_back:
  assumes "save_plan env yaml p w = (Inr (), w1)" and "\<And>s. new_saved_plan env p = Inr s \<Longrightarrow> decode (yaml s) = Some s"
    and "calm w1" "clear_path (w_fs w) '''' saved_plan_path"
  shows "\<exists>saved w2. load_plan sha256 decode w1 = (Inr saved, w2) \<and> w_fs w2 = w_fs w1 \<and>
    still_applies env saved p = None"
proof -
  obtain saved where saved: "new_saved_plan env p = Inr saved"
    using assms(1) by (cases "new_saved_plan env p") (simp_all add: save_plan_def io_error_def)
  have small: "length (yaml saved) \<le> max_document_bytes"
    using assms(1) saved by (auto simp: save_plan_def Let_def io_error_def not_less [symmetric])
  have neq: "''.stego'' \<noteq> saved_plan_path" by (simp add: saved_plan_path_def)
  let ?save = "io_bind pending_transaction (\<lambda>_. write_root_file_mode '''' saved_plan_path (yaml saved) 384)"
  have "wp ?save (\<lambda>_ w'. kept {''.stego''} {saved_plan_path} (w_fs w) (w_fs w') \<and>
         map_of (w_fs w') saved_plan_path = Some (Regular (yaml saved) 384)) (\<lambda>_ _. True) w"
    unfolding wp_bind
  proof (rule wp_mono [OF pending_transaction_spec], goal_cases)
    case (1 a wa)
    then have fs: "w_fs wa = w_fs w" using same_world_simps(1) by blast
    have cond: "root_path [] saved_plan_path \<notin> folders [] saved_plan_path"
      "root_path [] saved_plan_path \<notin> temps wa [] saved_plan_path" "folders [] saved_plan_path \<inter> temps wa [] saved_plan_path = {}"
      unfolding saved_plan_place(1) using saved_plan_place(2,3) [of wa] neq by simp_all
    show ?case
    proof (rule wp_mono [OF publish_spec [OF cond]], goal_cases)
      case (1 a w')
      then show ?case unfolding written_def saved_plan_place(1) fs by (simp add: mode_perm_def)
    qed simp
  qed simp
  moreover have "?save w = (Inr (), w1)"
    using assms(1) saved small by (simp add: save_plan_def Let_def)
  ultimately have post: "kept {''.stego''} {saved_plan_path} (w_fs w) (w_fs w1) \<and>
      map_of (w_fs w1) saved_plan_path = Some (Regular (yaml saved) 384)"
    using wp_run by fastforce
  then have k: "kept {''.stego''} {saved_plan_path} (w_fs w) (w_fs w1)"
    and node: "map_of (w_fs w1) saved_plan_path = Some (Regular (yaml saved) 384)" by blast+
  have clear: "clear_path (w_fs w1) '''' saved_plan_path"
    using assms(4) k [unfolded kept_def, rule_format, of "''.stego''"] neq
    unfolding clear_path_folders saved_plan_place(1) by auto
  have within: "file_within (w_fs w1) (root_path '''' saved_plan_path) max_document_bytes"
    using node small by (simp add: file_within_def)
  have "wp (load_plan sha256 decode) (\<lambda>s w'. s = saved \<and> w_fs w' = w_fs w1) (\<lambda>_ _. False) w1"
    unfolding load_plan_def wp_bind
    by (rule wp_mono [OF read_snapshot_calm [OF assms(3) clear within]])
      (auto simp: node disk_snapshot_def assms(2) [OF saved] new_saved_plan_version [OF saved] same_world_simps(1) io_wp)
  then obtain w2 where "load_plan sha256 decode w1 = (Inr saved, w2)" "w_fs w2 = w_fs w1"
    by (auto simp: wp_def split: prod.splits sum.splits)
  moreover have "still_applies env saved p = None"
    by (simp add: still_applies_def saved plan_differences_none)
  ultimately show ?thesis by blast
qed

definition edited_plan :: plan where
  "edited_plan = sample_plan\<lparr>pl_hand_edited := [''schema.sql''], pl_state_changed := False\<rparr>"


lemma saved_plan_reads_back_witness:
  "\<exists>w1 saved w2. save_plan sample_env (\<lambda>_. ''plan'') edited_plan (quiet_world [(''out'', Dir)]) = (Inr (), w1) \<and>
     load_plan sample_hash (\<lambda>_. case new_saved_plan sample_env edited_plan of Inr s \<Rightarrow> Some s | Inl _ \<Rightarrow> None) w1 = (Inr saved, w2) \<and>
     still_applies sample_env saved edited_plan = None"
proof -
  let ?fs = "[(''out'', Dir)]" and ?decode = "\<lambda>_ :: string. case new_saved_plan sample_env edited_plan of Inr s \<Rightarrow> Some s | Inl _ \<Rightarrow> None"
  let ?w = "quiet_world ?fs"
  obtain saved where saved: "new_saved_plan sample_env edited_plan = Inr saved"
    by (simp add: new_saved_plan_def edited_plan_def sample_plan_def sample_new_state_def)
  have fs: "map_of ?fs transaction_path = None" "clear_path ?fs '''' transaction_path"
    "map_of ?fs saved_plan_path = None" "clear_path ?fs '''' saved_plan_path" "map_of ?fs ''.stego'' = None"
    by code_simp+
  have temps: "\<forall>q \<in> temps wa '''' saved_plan_path. map_of ?fs q = None" for wa
    by (auto simp: temps_def saved_plan_place(5) temp_path_def slash_def split: if_splits)
  have "wp (save_plan sample_env (\<lambda>_. ''plan'') edited_plan) (\<lambda>_ w1. calm w1) (\<lambda>_ _. False) ?w"
    unfolding save_plan_def saved Let_def
  proof (simp add: wp_bind max_document_bytes_def, rule wp_mono [OF pending_absent], goal_cases)
    case (4 a wa)
    note same = same_world_simps [OF 4]
    have cond: "root_path [] saved_plan_path \<notin> folders [] saved_plan_path"
      "root_path [] saved_plan_path \<notin> temps wa [] saved_plan_path" "folders [] saved_plan_path \<inter> temps wa [] saved_plan_path = {}"
      unfolding saved_plan_place(1) using saved_plan_place(2,3) [of wa] by (simp_all add: saved_plan_path_def)
    have "writable '''' saved_plan_path wa"
      unfolding writable_def using same(1,2) fs temps by (simp add: file_or_absent_def)
    then show ?case
      using goes_on_calm same(2) by (intro wp_mono [OF publish_spec [OF cond]]) (auto simp: written_def)
  qed (use fs in auto)
  then obtain w1 where run: "save_plan sample_env (\<lambda>_. ''plan'') edited_plan ?w = (Inr (), w1)" and c: "calm w1"
    by (auto simp: wp_def split: prod.splits sum.splits)
  have "\<exists>s w2. load_plan sample_hash ?decode w1 = (Inr s, w2) \<and> w_fs w2 = w_fs w1 \<and> still_applies sample_env s edited_plan = None"
    by (rule saved_plan_reads_back [OF run _ c]) (simp add: saved, simp add: quiet_world_def fs(4))
  then show ?thesis using run by blast
qed

end
