(* ===== verification/Declaration_Faults.thy ===== *)
theory Declaration_Faults
  imports Service_Types
begin

text \<open>
  The faults of \<open>internal/declaration/validate.go\<close>: their form, the paths they name, and the loops
  that collect them. A check gives the list of its faults in the order of the code. The sentence of a
  fault (its \<open>Message\<close>) is text for a person and is left out, save where \<open>locate\<close> reads it.
\<close>

record fault =
  fa_category :: string
  fa_rule :: string
  fa_path :: string
  fa_found :: string
  fa_allowed :: "string list"

definition fault :: "string \<Rightarrow> string \<Rightarrow> string \<Rightarrow> string \<Rightarrow> string list \<Rightarrow> fault" where
  "fault category rule path found allowed =
     \<lparr>fa_category = category, fa_rule = rule, fa_path = path, fa_found = found, fa_allowed = allowed\<rparr>"

text \<open>What the checks use of the standard library: regular expressions, floating point numbers as
  their text, quoting (\<open>%q\<close>) and \<open>strings.ToLower\<close>.\<close>

record rule_env =
  re_compiles :: "string \<Rightarrow> bool"
  re_matches :: "string \<Rightarrow> string \<Rightarrow> bool"
  re_finite :: "string \<Rightarrow> bool"
  re_greater :: "string \<Rightarrow> string \<Rightarrow> bool"
  re_quote :: "string \<Rightarrow> string"
  re_lower :: "string \<Rightarrow> string"

subsection \<open>Loops that collect\<close>

definition only_if :: "bool \<Rightarrow> 'a \<Rightarrow> 'a list" where
  "only_if b x = (if b then [x] else [])"

lemma only_if_Nil [simp]: "only_if b x = [] \<longleftrightarrow> \<not> b"
  by (simp add: only_if_def)

lemma collect_Nil: "concat (map f xs) = [] \<longleftrightarrow> (\<forall>x \<in> set xs. f x = [])"
  by (induction xs) auto

text \<open>A loop over a slice that collects: its body sees the index, the element, and whether the
  element came before (the \<open>seen\<close> map of the code).\<close>

fun each_from :: "nat \<Rightarrow> 'a list \<Rightarrow> (nat \<Rightarrow> 'a \<Rightarrow> bool \<Rightarrow> 'b list) \<Rightarrow> 'a list \<Rightarrow> 'b list" where
  "each_from i seen f [] = []"
| "each_from i seen f (x # xs) = f i x (x \<in> set seen) @ each_from (Suc i) (x # seen) f xs"

definition each :: "(nat \<Rightarrow> 'a \<Rightarrow> bool \<Rightarrow> 'b list) \<Rightarrow> 'a list \<Rightarrow> 'b list" where
  "each = each_from 0 []"

lemma each_from_cong [fundef_cong]:
  assumes "i = i'" "seen = seen'" "xs = xs'" "\<And>k x b. x \<in> set xs' \<Longrightarrow> f k x b = f' k x b"
  shows "each_from i seen f xs = each_from i' seen' f' xs'"
proof -
  have "each_from i seen f xs' = each_from i seen f' xs'"
    using assms(4) by (induction xs' arbitrary: i seen) auto
  then show ?thesis using assms(1-3) by simp
qed

lemma each_cong [fundef_cong]:
  "xs = xs' \<Longrightarrow> (\<And>k x b. x \<in> set xs' \<Longrightarrow> f k x b = f' k x b) \<Longrightarrow> each f xs = each f' xs'"
  unfolding each_def by (rule each_from_cong) auto

lemma each_from_Nil:
  "each_from i seen f xs = [] \<longleftrightarrow>
     (\<forall>k < length xs. f (i + k) (xs ! k) (xs ! k \<in> set seen \<union> set (take k xs)) = [])"
proof (induction xs arbitrary: i seen)
  case (Cons x xs)
  show ?case
    by (simp add: Cons.IH All_less_Suc2 disj_left_commute)
qed simp

lemma each_Nil: "each f xs = [] \<longleftrightarrow> (\<forall>k < length xs. f k (xs ! k) (xs ! k \<in> set (take k xs)) = [])"
  by (simp add: each_def each_from_Nil)

lemma nothing_repeats: "(\<forall>k < length xs. xs ! k \<notin> set (take k xs)) \<longleftrightarrow> distinct xs"
proof (induction xs rule: rev_induct)
  case (snoc x xs)
  have "(\<forall>k < length (xs @ [x]). (xs @ [x]) ! k \<notin> set (take k (xs @ [x]))) \<longleftrightarrow>
      (\<forall>k < length xs. xs ! k \<notin> set (take k xs)) \<and> x \<notin> set xs"
    by (auto simp: less_Suc_eq nth_append)
  then show ?case by (simp add: snoc.IH)
qed simp

text \<open>A loop is silent if and only if no element repeats where a repetition counts, and each element
  passes.\<close>

lemma each_seen_Nil:
  assumes "\<And>k x b. f k x b = [] \<longleftrightarrow> \<not> b \<and> P x"
  shows "each f xs = [] \<longleftrightarrow> distinct xs \<and> (\<forall>x \<in> set xs. P x)"
  unfolding each_Nil assms by (auto simp: nothing_repeats [symmetric] all_set_conv_all_nth)

lemma each_unseen_Nil:
  assumes "\<And>k x b. f k x b = [] \<longleftrightarrow> P x"
  shows "each f xs = [] \<longleftrightarrow> (\<forall>x \<in> set xs. P x)"
  unfolding each_Nil assms by (auto simp: all_set_conv_all_nth)

subsection \<open>Paths and names\<close>

definition index_text :: "string \<Rightarrow> nat \<Rightarrow> string" where
  "index_text name i = name @ ''['' @ show_nat i @ '']''"

definition entity_path :: "nat \<Rightarrow> string" where
  "entity_path i = index_text ''entities'' i"

definition field_path :: "nat \<Rightarrow> nat \<Rightarrow> string" where
  "field_path e f = index_text (entity_path e @ ''.fields'') f"

definition collection_path :: "string \<Rightarrow> string" where
  "collection_path name = ''collections.'' @ name"

definition slot_path :: "nat \<Rightarrow> string" where
  "slot_path i = index_text ''slots'' i"

definition slot_operators :: "string list" where
  "slot_operators = [''gate'', ''chain'', ''fan-out'']"

definition numeric_type_names :: "string list" where
  "numeric_type_names = [''int32'', ''int64'', ''float'', ''double'']"

definition entity_name_list :: "entity list \<Rightarrow> string list" where
  "entity_name_list es = map en_name es"

definition field_name_list :: "entity \<Rightarrow> string list" where
  "field_name_list e = map fd_name (en_fields e)"

definition field_type_names :: "string list" where
  "field_type_names = sort valid_field_types"

definition operation_names :: "string list" where
  "operation_names = sort valid_operations"

text \<open>\<open>fmt.Sprint\<close> of a value that YAML decoded; the keys of a map are printed in order.\<close>

fun any_text :: "any_value \<Rightarrow> string" where
  "any_text AnyNil = ''<nil>''"
| "any_text (AnyBool b) = (if b then ''true'' else ''false'')"
| "any_text (AnyInt i) = itoa i"
| "any_text (AnyFloat t) = t"
| "any_text (AnyString s) = s"
| "any_text (AnyList xs) = ''['' @ join_with '' '' (map any_text xs) @ '']''"
| "any_text (AnyOther t) = t"
| "any_text (AnyMap m) =
     ''map['' @ join_with '' '' (map snd (sort_key fst (map (\<lambda>(k, v). (k, k @ '':'' @ any_text v)) m))) @ '']''"

subsection \<open>Fields that the format does not declare\<close>

record undeclared_field =
  uf_path :: string
  uf_key :: string
  uf_line :: int
  uf_column :: int
  uf_declared :: "string list"

text \<open>The pattern \<open>slots[(digits)].(key)\<close>, where the key has neither a dot nor a bracket: the
  digits.\<close>

definition slot_binding_key :: "string \<Rightarrow> string option" where
  "slot_binding_key path =
     (if \<not> has_prefix path ''slots['' then None
      else (case cut_at CHR '']'' (trim_prefix path ''slots['') of
          None \<Rightarrow> None
        | Some (digits, rest) \<Rightarrow>
          if digits \<noteq> '''' \<and> list_all is_digit digits \<and> has_prefix rest ''.'' \<and> tl rest \<noteq> '''' \<and>
             CHR ''.'' \<notin> set (tl rest) \<and> CHR ''['' \<notin> set (tl rest)
          then Some digits else None))"

definition undeclared_faults :: "undeclared_field list \<Rightarrow> fault list" where
  "undeclared_faults undeclared = map (\<lambda>f.
     if slot_binding_key (uf_path f) \<noteq> None
     then fault ''slot'' ''slot-operator'' (uf_path f) (uf_key f) slot_operators
     else fault ''field'' ''undeclared-field'' (uf_path f) (uf_key f) (uf_declared f)) undeclared"

lemma undeclared_faults_Nil [simp]: "undeclared_faults undeclared = [] \<longleftrightarrow> undeclared = []"
  by (simp add: undeclared_faults_def)

subsection \<open>The base path, the archetype and the overrides\<close>

definition base_path_char :: "char \<Rightarrow> bool" where
  "base_path_char c \<longleftrightarrow> (CHR ''a'' \<le> c \<and> c \<le> CHR ''z'') \<or> (CHR ''A'' \<le> c \<and> c \<le> CHR ''Z'') \<or>
     (CHR ''0'' \<le> c \<and> c \<le> CHR ''9'') \<or> c \<in> {CHR ''-'', CHR ''.'', CHR ''_'', CHR ''~''}"

definition valid_base_path :: "string \<Rightarrow> bool" where
  "valid_base_path s \<longleftrightarrow>
     (case s of [] \<Rightarrow> True
      | c # cs \<Rightarrow> c = slash \<and> list_all (\<lambda>segment. segment \<notin> {'''', ''.'', ''..''} \<and> list_all base_path_char segment) (split_on slash cs))"

definition validate_archetype :: "string \<Rightarrow> fault list" where
  "validate_archetype archetype = only_if (archetype = '''') (fault ''archetype'' ''archetype'' ''archetype'' '''' [])"

definition valid_cors_override_values :: "string list" where
  "valid_cors_override_values = [''enabled'', ''disabled'']"

definition validate_convention_overrides :: "any_value gomap \<Rightarrow> fault list" where
  "validate_convention_overrides overrides =
     (case map_of overrides ''cors'' of
        None \<Rightarrow> []
      | Some (AnyString s) \<Rightarrow> only_if (s \<notin> set valid_cors_override_values)
          (fault ''override'' ''override-value'' ''overrides.cors'' s [''disabled'', ''enabled''])
      | Some v \<Rightarrow> [fault ''override'' ''override-value'' ''overrides.cors'' (any_text v) [''disabled'', ''enabled'']])"

definition is_convention_override_key :: "string \<Rightarrow> bool" where
  "is_convention_override_key key \<longleftrightarrow> key = ''cors''"

lemma convention_overrides_Nil:
  "validate_convention_overrides overrides = [] \<longleftrightarrow>
     map_of overrides ''cors'' \<in> {None, Some (AnyString ''enabled''), Some (AnyString ''disabled'')}"
  by (auto simp: validate_convention_overrides_def valid_cors_override_values_def
      split: option.splits any_value.splits)

end
