(* ===== verification/Entity_Rules.thy ===== *)
theory Entity_Rules
  imports Declaration_Faults
begin

text \<open>
  The rules of the entities and their fields: \<open>validateFieldTypes\<close> and \<open>validateFieldDefaults\<close> of
  \<open>internal/declaration/validate.go\<close>, and the entities that they accept.
\<close>

subsection \<open>Defaults\<close>

definition in_int32 :: "int \<Rightarrow> bool" where
  "in_int32 i \<longleftrightarrow> - (2 ^ 31) \<le> i \<and> i \<le> 2 ^ 31 - 1"

definition in_int64 :: "int \<Rightarrow> bool" where
  "in_int64 i \<longleftrightarrow> - (2 ^ 63) \<le> i \<and> i \<le> 2 ^ 63 - 1"

definition default_suits :: "rule_env \<Rightarrow> field \<Rightarrow> bool" where
  "default_suits env f =
     (if fd_type f = ''string'' then (case fd_default f of AnyString _ \<Rightarrow> True | _ \<Rightarrow> False)
      else if fd_type f = ''bool'' then (case fd_default f of AnyBool _ \<Rightarrow> True | _ \<Rightarrow> False)
      else if fd_type f = ''int32'' then (case fd_default f of AnyInt i \<Rightarrow> in_int32 i | _ \<Rightarrow> False)
      else if fd_type f = ''int64'' then (case fd_default f of AnyInt i \<Rightarrow> in_int64 i | _ \<Rightarrow> False)
      else if fd_type f = ''float'' \<or> fd_type f = ''double''
      then (case fd_default f of AnyInt _ \<Rightarrow> True | AnyFloat t \<Rightarrow> re_finite env t | _ \<Rightarrow> False)
      else if fd_type f = ''enum''
      then (case fd_default f of AnyString s \<Rightarrow> s \<in> set (fd_values f) | _ \<Rightarrow> False)
      else True)"

definition field_default_faults :: "rule_env \<Rightarrow> nat \<Rightarrow> nat \<Rightarrow> field \<Rightarrow> fault list" where
  "field_default_faults env ei fi f =
     only_if (fd_default f \<noteq> AnyNil \<and> \<not> default_suits env f)
       (fault ''field-type'' ''default-type'' (field_path ei fi @ ''.default'') (any_text (fd_default f))
         (if fd_type f = ''enum'' then fd_values f else [fd_type f]))"

definition validate_field_defaults :: "rule_env \<Rightarrow> entity list \<Rightarrow> fault list" where
  "validate_field_defaults env es =
     each (\<lambda>ei e _. each (\<lambda>fi f _. field_default_faults env ei fi f) (en_fields e)) es"

lemma field_defaults_Nil:
  "validate_field_defaults env es = [] \<longleftrightarrow>
     (\<forall>e \<in> set es. \<forall>f \<in> set (en_fields e). fd_default f \<noteq> AnyNil \<longrightarrow> default_suits env f)"
  unfolding validate_field_defaults_def
  by (intro each_unseen_Nil) (auto simp: field_default_faults_def)

subsection \<open>Field types\<close>

definition string_types :: "string list" where "string_types = [''string'']"
definition numeric_types :: "string list" where "numeric_types = numeric_type_names"

definition entity_name_faults :: "entity list \<Rightarrow> fault list" where
  "entity_name_faults es =
     each (\<lambda>ei name seen. only_if seen (fault ''entity'' ''unique-entity-name'' (entity_path ei @ ''.name'') name []))
       (entity_name_list es)"

definition field_name_faults :: "nat \<Rightarrow> entity \<Rightarrow> fault list" where
  "field_name_faults ei e =
     each (\<lambda>fi name seen. only_if seen (fault ''field-type'' ''unique-field-name'' (field_path ei fi @ ''.name'') name []))
       (field_name_list e)"

definition ref_faults :: "entity list \<Rightarrow> string \<Rightarrow> field \<Rightarrow> fault list" where
  "ref_faults es path f =
     (if fd_type f \<noteq> ''ref'' then []
      else if fd_to f = '''' then [fault ''field-type'' ''ref-target'' (path @ ''.to'') '''' []]
      else only_if (fd_to f \<notin> set (entity_name_list es))
        (fault ''field-type'' ''ref-target'' (path @ ''.to'') (fd_to f) (entity_name_list es)))"

definition enum_faults :: "string \<Rightarrow> field \<Rightarrow> fault list" where
  "enum_faults path f =
     only_if (fd_type f = ''enum'' \<and> fd_values f = []) (fault ''field-type'' ''enum-values'' (path @ ''.values'') '''' []) @
     each (\<lambda>vi v seen. only_if seen (fault ''field-type'' ''enum-values'' (index_text (path @ ''.values'') vi) v []))
       (fd_values f)"

definition constraint_fault :: "string \<Rightarrow> string \<Rightarrow> field \<Rightarrow> string list \<Rightarrow> fault" where
  "constraint_fault path attribute f allowed =
     fault ''field-type'' ''constraint-type'' (path @ ''.'' @ attribute) (fd_type f) allowed"

definition string_constraint_faults :: "rule_env \<Rightarrow> string \<Rightarrow> field \<Rightarrow> fault list" where
  "string_constraint_faults env path f =
     only_if (fd_min_length f \<noteq> None \<and> fd_type f \<notin> set string_types) (constraint_fault path ''min_length'' f [''string'']) @
     only_if (fd_max_length f \<noteq> None \<and> fd_type f \<notin> set string_types) (constraint_fault path ''max_length'' f [''string'']) @
     only_if (fd_pattern f \<noteq> '''' \<and> fd_type f \<notin> set string_types) (constraint_fault path ''pattern'' f [''string'']) @
     only_if (fd_pattern f \<noteq> '''' \<and> fd_type f \<in> set string_types \<and> \<not> re_compiles env (fd_pattern f))
       (fault ''field-type'' ''pattern'' (path @ ''.pattern'') (fd_pattern f) [])"

definition bound_faults :: "rule_env \<Rightarrow> string \<Rightarrow> field \<Rightarrow> fault list" where
  "bound_faults env path f =
     concat (map (\<lambda>bound. case bound of None \<Rightarrow> []
       | Some t \<Rightarrow> only_if (\<not> re_finite env t) (fault ''field-type'' ''numeric-bound'' path '''' [])) [fd_min f, fd_max f]) @
     only_if (fd_min f \<noteq> None \<and> fd_type f \<notin> set numeric_types) (constraint_fault path ''min'' f numeric_type_names) @
     only_if (fd_max f \<noteq> None \<and> fd_type f \<notin> set numeric_types) (constraint_fault path ''max'' f numeric_type_names)"

definition other_constraint_faults :: "string \<Rightarrow> field \<Rightarrow> fault list" where
  "other_constraint_faults path f =
     only_if (fd_values f \<noteq> [] \<and> fd_type f \<noteq> ''enum'') (constraint_fault path ''values'' f [''enum'']) @
     only_if (fd_to f \<noteq> '''' \<and> fd_type f \<noteq> ''ref'') (constraint_fault path ''to'' f [''ref''])"

definition range_faults :: "rule_env \<Rightarrow> string \<Rightarrow> field \<Rightarrow> fault list" where
  "range_faults env path f =
     (case (fd_min_length f, fd_max_length f) of
        (Some lo, Some hi) \<Rightarrow> only_if (lo > hi) (fault ''field-type'' ''length-range'' (path @ ''.min_length'') (itoa lo) [])
      | _ \<Rightarrow> []) @
     (case (fd_min f, fd_max f) of
        (Some lo, Some hi) \<Rightarrow> only_if (re_greater env lo hi) (fault ''field-type'' ''numeric-range'' (path @ ''.min'') lo [])
      | _ \<Rightarrow> [])"

definition composite_faults :: "entity \<Rightarrow> string \<Rightarrow> field \<Rightarrow> fault list" where
  "composite_faults e path f =
     each (\<lambda>ui name seen.
         only_if seen (fault ''field-type'' ''unique-composite'' (index_text (path @ ''.unique_composite'') ui) name []) @
         only_if (name \<notin> set (field_name_list e))
           (fault ''field-type'' ''unique-composite'' (index_text (path @ ''.unique_composite'') ui) name (field_name_list e)))
       (fd_unique_composite f)"

definition computed_faults :: "string \<Rightarrow> field \<Rightarrow> fault list" where
  "computed_faults path f =
     only_if (fd_computed f \<and> fd_filled_by f = '''') (fault ''field-type'' ''computed-fill'' (path @ ''.filled_by'') '''' []) @
     only_if (fd_filled_by f \<noteq> '''' \<and> \<not> fd_computed f) (fault ''field-type'' ''computed-fill'' (path @ ''.computed'') ''false'' [])"

definition field_faults :: "rule_env \<Rightarrow> entity list \<Rightarrow> nat \<Rightarrow> entity \<Rightarrow> nat \<Rightarrow> field \<Rightarrow> fault list" where
  "field_faults env es ei e fi f =
     (let path = field_path ei fi in
      if fd_type f \<notin> set valid_field_types
      then [fault ''field-type'' ''field-type'' (path @ ''.type'') (fd_type f) field_type_names]
      else ref_faults es path f @ enum_faults path f @ string_constraint_faults env path f @ bound_faults env path f @
        other_constraint_faults path f @ range_faults env path f @ composite_faults e path f @ computed_faults path f)"

definition validate_field_types :: "rule_env \<Rightarrow> entity list \<Rightarrow> fault list" where
  "validate_field_types env es =
     entity_name_faults es @
     each (\<lambda>ei e _. field_name_faults ei e @ each (\<lambda>fi f _. field_faults env es ei e fi f) (en_fields e)) es"

subsection \<open>What the rules accept\<close>

text \<open>A field that is well typed in its entity, among the declared entities.\<close>

definition bounds_ordered :: "rule_env \<Rightarrow> field \<Rightarrow> bool" where
  "bounds_ordered env f \<longleftrightarrow>
     (\<forall>lo hi. fd_min_length f = Some lo \<and> fd_max_length f = Some hi \<longrightarrow> lo \<le> hi) \<and>
     (\<forall>lo hi. fd_min f = Some lo \<and> fd_max f = Some hi \<longrightarrow> \<not> re_greater env lo hi)"

definition well_typed_field :: "rule_env \<Rightarrow> string set \<Rightarrow> string set \<Rightarrow> field \<Rightarrow> bool" where
  "well_typed_field env entities siblings f \<longleftrightarrow>
     fd_type f \<in> set valid_field_types \<and>
     (if fd_type f = ''ref'' then fd_to f \<noteq> '''' \<and> fd_to f \<in> entities else fd_to f = '''') \<and>
     (if fd_type f = ''enum'' then fd_values f \<noteq> [] \<and> distinct (fd_values f) else fd_values f = []) \<and>
     (if fd_type f = ''string'' then fd_pattern f = '''' \<or> re_compiles env (fd_pattern f)
      else fd_min_length f = None \<and> fd_max_length f = None \<and> fd_pattern f = '''') \<and>
     (if fd_type f \<in> {''int32'', ''int64'', ''float'', ''double''}
      then \<forall>t. fd_min f = Some t \<or> fd_max f = Some t \<longrightarrow> re_finite env t
      else fd_min f = None \<and> fd_max f = None) \<and>
     bounds_ordered env f \<and>
     distinct (fd_unique_composite f) \<and> set (fd_unique_composite f) \<subseteq> siblings \<and>
     (fd_computed f \<longleftrightarrow> fd_filled_by f \<noteq> '''')"

definition well_typed_entities :: "rule_env \<Rightarrow> entity list \<Rightarrow> bool" where
  "well_typed_entities env es \<longleftrightarrow> distinct (map en_name es) \<and>
     (\<forall>e \<in> set es. distinct (map fd_name (en_fields e)) \<and>
       (\<forall>f \<in> set (en_fields e).
          well_typed_field env (en_name ` set es) (fd_name ` set (en_fields e)) f))"

lemma entity_name_faults_Nil: "entity_name_faults es = [] \<longleftrightarrow> distinct (map en_name es)"
  unfolding entity_name_faults_def entity_name_list_def
  by (subst each_seen_Nil [where P = "\<lambda>_. True"]) simp_all

lemma field_name_faults_Nil: "field_name_faults ei e = [] \<longleftrightarrow> distinct (map fd_name (en_fields e))"
  unfolding field_name_faults_def field_name_list_def
  by (subst each_seen_Nil [where P = "\<lambda>_. True"]) simp_all

lemma enum_faults_Nil:
  "enum_faults path f = [] \<longleftrightarrow> (fd_type f = ''enum'' \<longrightarrow> fd_values f \<noteq> []) \<and> distinct (fd_values f)"
proof -
  have "each (\<lambda>vi v seen. only_if seen (fault ''field-type'' ''enum-values'' (index_text (path @ ''.values'') vi) v []))
       (fd_values f) = [] \<longleftrightarrow> distinct (fd_values f) \<and> (\<forall>v \<in> set (fd_values f). True)"
    by (rule each_seen_Nil) simp
  then show ?thesis by (auto simp: enum_faults_def)
qed

lemma composite_faults_Nil:
  "composite_faults e path f = [] \<longleftrightarrow>
     distinct (fd_unique_composite f) \<and> set (fd_unique_composite f) \<subseteq> fd_name ` set (en_fields e)"
proof -
  have "composite_faults e path f = [] \<longleftrightarrow>
      distinct (fd_unique_composite f) \<and> (\<forall>name \<in> set (fd_unique_composite f). name \<in> set (field_name_list e))"
    unfolding composite_faults_def by (rule each_seen_Nil) simp
  then show ?thesis by (auto simp: field_name_list_def)
qed

lemma range_faults_Nil: "range_faults env path f = [] \<longleftrightarrow> bounds_ordered env f"
  by (auto simp: range_faults_def bounds_ordered_def split: option.splits)

lemma bound_faults_Nil:
  "bound_faults env path f = [] \<longleftrightarrow>
     (\<forall>t. fd_min f = Some t \<or> fd_max f = Some t \<longrightarrow> re_finite env t) \<and>
     (fd_type f \<in> set numeric_types \<or> (fd_min f = None \<and> fd_max f = None))"
  by (auto simp: bound_faults_def split: option.splits)

lemma field_faults_Nil:
  "field_faults env es ei e fi f = [] \<longleftrightarrow>
     well_typed_field env (en_name ` set es) (fd_name ` set (en_fields e)) f"
proof (cases "fd_type f \<in> set valid_field_types")
  case True
  have "field_faults env es ei e fi f = [] \<longleftrightarrow>
      ref_faults es (field_path ei fi) f = [] \<and> enum_faults (field_path ei fi) f = [] \<and>
      string_constraint_faults env (field_path ei fi) f = [] \<and> bound_faults env (field_path ei fi) f = [] \<and>
      other_constraint_faults (field_path ei fi) f = [] \<and> bounds_ordered env f \<and>
      distinct (fd_unique_composite f) \<and> set (fd_unique_composite f) \<subseteq> fd_name ` set (en_fields e) \<and>
      computed_faults (field_path ei fi) f = []"
    using True by (simp add: field_faults_def Let_def composite_faults_Nil range_faults_Nil)
  moreover have "ref_faults es path f = [] \<and> enum_faults path f = [] \<and> string_constraint_faults env path f = [] \<and>
      bound_faults env path f = [] \<and> other_constraint_faults path f = [] \<longleftrightarrow>
      (if fd_type f = ''ref'' then fd_to f \<noteq> '''' \<and> fd_to f \<in> en_name ` set es else fd_to f = '''') \<and>
      (if fd_type f = ''enum'' then fd_values f \<noteq> [] \<and> distinct (fd_values f) else fd_values f = []) \<and>
      (if fd_type f = ''string'' then fd_pattern f = '''' \<or> re_compiles env (fd_pattern f)
       else fd_min_length f = None \<and> fd_max_length f = None \<and> fd_pattern f = '''') \<and>
      (if fd_type f \<in> {''int32'', ''int64'', ''float'', ''double''}
       then \<forall>t. fd_min f = Some t \<or> fd_max f = Some t \<longrightarrow> re_finite env t
       else fd_min f = None \<and> fd_max f = None)" for path
    by (auto simp: enum_faults_Nil bound_faults_Nil ref_faults_def string_constraint_faults_def
        other_constraint_faults_def string_types_def numeric_types_def numeric_type_names_def entity_name_list_def)
  moreover have "computed_faults path f = [] \<longleftrightarrow> (fd_computed f \<longleftrightarrow> fd_filled_by f \<noteq> '''')" for path
    by (auto simp: computed_faults_def)
  ultimately show ?thesis using True unfolding well_typed_field_def by blast
qed (simp add: field_faults_def well_typed_field_def)

lemma field_types_Nil: "validate_field_types env es = [] \<longleftrightarrow> well_typed_entities env es"
proof -
  have "each (\<lambda>ei e _. field_name_faults ei e @ each (\<lambda>fi f _. field_faults env es ei e fi f) (en_fields e)) es = [] \<longleftrightarrow>
      (\<forall>e \<in> set es. distinct (map fd_name (en_fields e)) \<and>
        (\<forall>f \<in> set (en_fields e). well_typed_field env (en_name ` set es) (fd_name ` set (en_fields e)) f))"
    by (rule each_unseen_Nil) (simp add: field_name_faults_Nil each_unseen_Nil [OF field_faults_Nil])
  then show ?thesis by (simp add: validate_field_types_def entity_name_faults_Nil well_typed_entities_def)
qed

end
