(* ===== verification/Versioned_Rules.thy ===== *)
theory Versioned_Rules
  imports Entity_Rules
begin

text \<open>
  \<open>internal/types/versioned.go\<close> and \<open>live_unique.go\<close>: the rules of versioned entities (generations,
  observations, conditions, cleanup) and of keys that are unique among live rows. These functions give
  their faults as sentences, since \<open>locate\<close> of the declaration check reads the name out of them.
\<close>

subsection \<open>Names and fields\<close>

definition ascii_upper_char :: "char \<Rightarrow> bool" where
  "ascii_upper_char c \<longleftrightarrow> CHR ''A'' \<le> c \<and> c \<le> CHR ''Z''"

definition ascii_lower_char :: "char \<Rightarrow> bool" where
  "ascii_lower_char c \<longleftrightarrow> CHR ''a'' \<le> c \<and> c \<le> CHR ''z''"

text \<open>The patterns \<open>conditionName\<close> and \<open>observationName\<close>.\<close>

definition condition_name :: "string \<Rightarrow> bool" where
  "condition_name s \<longleftrightarrow>
     (case s of [] \<Rightarrow> False
      | c # cs \<Rightarrow> ascii_upper_char c \<and> length cs \<le> 62 \<and>
          list_all (\<lambda>x. ascii_upper_char x \<or> ascii_lower_char x \<or> is_digit x) cs)"

definition observation_name :: "string \<Rightarrow> bool" where
  "observation_name s \<longleftrightarrow>
     (case s of [] \<Rightarrow> False
      | c # cs \<Rightarrow> ascii_lower_char c \<and> length cs \<le> 62 \<and>
          list_all (\<lambda>x. ascii_lower_char x \<or> is_digit x \<or> x = CHR ''_'') cs)"

text \<open>Of fields with one name, a Go map keeps the last.\<close>

definition fields_map :: "entity \<Rightarrow> string \<Rightarrow> field option" where
  "fields_map e = map_of (rev (map (\<lambda>f. (fd_name f, f)) (en_fields e)))"

definition owned_names :: "string list gomap \<Rightarrow> string \<Rightarrow> string list" where
  "owned_names m owner = (case map_of m owner of Some names \<Rightarrow> names | None \<Rightarrow> [])"

definition is_observation_field :: "entity \<Rightarrow> string \<Rightarrow> bool" where
  "is_observation_field e name \<longleftrightarrow>
     list_ex (\<lambda>owner. name \<in> set (owned_names (en_observations e) owner)) (sorted_keys (en_observations e))"

definition entity_message :: "entity \<Rightarrow> string \<Rightarrow> string" where
  "entity_message e text = ''entity '' @ en_name e @ '': '' @ text"

subsection \<open>ValidateVersioned\<close>

text \<open>\<open>utf8.RuneCountInString\<close> of a valid string: the bytes that do not continue a character. On an
  invalid string the count is not used.\<close>

definition rune_count :: "string \<Rightarrow> nat" where
  "rune_count s = length (filter (\<lambda>c. \<not> (128 \<le> (of_char c :: nat) \<and> (of_char c :: nat) \<le> 191)) s)"

definition fallback_valid :: "rule_env \<Rightarrow> entity \<Rightarrow> field \<Rightarrow> string \<Rightarrow> string \<Rightarrow> bool" where
  "fallback_valid env e f name value \<longleftrightarrow>
     is_observation_field e (fd_name f) \<and> fd_type f = ''string'' \<and> length value \<le> 8192 \<and> valid_string value \<and>
     CHR 0x00 \<notin> set value \<and>
     \<not> (name = ''deleting'' \<and> en_cleanup_owners e = []) \<and>
     (case fd_min_length f of None \<Rightarrow> True | Some n \<Rightarrow> n \<le> int (rune_count value)) \<and>
     (case fd_max_length f of None \<Rightarrow> True | Some n \<Rightarrow> int (rune_count value) \<le> n) \<and>
     (fd_pattern f = '''' \<or> (re_compiles env (fd_pattern f) \<and> re_matches env (fd_pattern f) value))"

definition fallback_errors :: "rule_env \<Rightarrow> entity \<Rightarrow> field \<Rightarrow> string list" where
  "fallback_errors env e f =
     concat (map (\<lambda>(name, fallback). case fallback of None \<Rightarrow> []
       | Some value \<Rightarrow> only_if (\<not> fallback_valid env e f name value)
           (entity_message e (''invalid '' @ name @ '' value for observation field '' @ fd_name f)))
       [(''unobserved'', fd_unobserved f), (''deleting'', fd_deleting f)])"

definition has_version_metadata :: "entity \<Rightarrow> bool" where
  "has_version_metadata e \<longleftrightarrow> en_generation_fields e \<noteq> [] \<or> en_observations e \<noteq> [] \<or> en_conditions e \<noteq> [] \<or>
     en_cleanup_owners e \<noteq> [] \<or> en_cleanup_targets e \<noteq> []"

definition condition_owner_errors :: "entity \<Rightarrow> string \<Rightarrow> string list" where
  "condition_owner_errors e owner =
     (let names = owned_names (en_conditions e) owner in
      only_if (\<not> observation_name owner \<or> names = []) (entity_message e (''invalid condition owner '' @ owner)) @
      each (\<lambda>_ name seen. only_if (\<not> condition_name name \<or> seen)
        (entity_message e (''invalid or repeated condition '' @ name))) names)"

definition condition_errors :: "entity \<Rightarrow> string list" where
  "condition_errors e =
     (if en_conditions e = [] then []
      else let owners = sorted_keys (en_conditions e) in
        only_if (en_generation_fields e = []) (entity_message e ''conditions require generation_fields'') @
        concat (map (condition_owner_errors e) owners) @
        only_if (length owners > 8 \<or> sum_list (map (\<lambda>o1. length (owned_names (en_conditions e) o1)) owners) > 32)
          (entity_message e ''conditions exceed 8 owners or 32 types''))"

definition cleanup_owner_errors :: "entity \<Rightarrow> string list" where
  "cleanup_owner_errors e =
     only_if (length (en_cleanup_owners e) > 32) (entity_message e ''at most 32 cleanup owners are supported'') @
     each (\<lambda>_ owner seen. only_if (\<not> observation_name owner \<or> seen)
       (entity_message e (''invalid or repeated cleanup owner '' @ owner))) (en_cleanup_owners e)"

definition cleanup_target_valid :: "entity \<Rightarrow> string \<Rightarrow> string \<Rightarrow> bool" where
  "cleanup_target_valid e owner name \<longleftrightarrow>
     owner \<in> set (en_cleanup_owners e) \<and> name \<in> set (field_name_list e) \<and>
     list_all (\<lambda>f. fd_name f = name \<longrightarrow> \<not> fd_optional f \<and> \<not> is_observation_field e name \<and>
       (fd_type f = ''string'' \<or> fd_type f = ''ref'')) (en_fields e)"

definition cleanup_target_errors :: "entity \<Rightarrow> string list" where
  "cleanup_target_errors e =
     concat (map (\<lambda>owner. only_if (\<not> cleanup_target_valid e owner (the (map_of (en_cleanup_targets e) owner)))
       (entity_message e (''cleanup target '' @ owner @
          '' requires a declared owner and a required string or reference field'')))
       (sorted_keys (en_cleanup_targets e)))"

definition cleanup_reserved :: "string list" where
  "cleanup_reserved = [''stegofinalizedat'', ''deletionfinalizedat'', ''stegocleanup'', ''cleanupstate'',
     ''cleanupobservations'', ''pendingcleanup'', ''cleanupcomplete'', ''stegocleanuptargets'',
     ''cleanuptargetstate'', ''cleanuptargets'']"

definition condition_reserved :: "string list" where
  "condition_reserved = [''conditionstate'', ''conditions'', ''currentconditions'']"

definition generation_reserved :: "string list" where
  "generation_reserved = [''stegogeneration'', ''resourcegeneration'', ''stegoobservations'',
     ''observedgenerations'', ''observedgeneration'', ''currentobservations'']"

definition bare_name :: "rule_env \<Rightarrow> string \<Rightarrow> string" where
  "bare_name env name = re_lower env (filter (\<lambda>c. c \<noteq> CHR ''_'') name)"

definition reserved_field_errors :: "rule_env \<Rightarrow> entity \<Rightarrow> field \<Rightarrow> string list" where
  "reserved_field_errors env e f =
     (let name = bare_name env (fd_name f) in
      only_if (en_cleanup_owners e \<noteq> [] \<and> name \<in> set cleanup_reserved)
        (entity_message e (''field '' @ fd_name f @ '' conflicts with cleanup metadata'')) @
      only_if (name = ''stegoconditions'' \<or> (en_conditions e \<noteq> [] \<and> name \<in> set condition_reserved))
        (entity_message e (''field '' @ fd_name f @ '' conflicts with condition metadata'')) @
      only_if (name = ''stegorevision'' \<or> name = ''resourceversion'' \<or>
          (en_generation_fields e \<noteq> [] \<and> name \<in> set generation_reserved))
        (entity_message e (''field '' @ fd_name f @ '' conflicts with resource version metadata'')))"

definition generation_errors :: "entity \<Rightarrow> string list" where
  "generation_errors e =
     each (\<lambda>_ name seen. only_if ((case fields_map e name of None \<Rightarrow> True | Some f \<Rightarrow> fd_computed f) \<or> seen)
       (entity_message e (''invalid or repeated generation field '' @ name))) (en_generation_fields e)"

definition observation_candidate :: "entity \<Rightarrow> string \<Rightarrow> bool" where
  "observation_candidate e name \<longleftrightarrow>
     (case fields_map e name of None \<Rightarrow> False
      | Some f \<Rightarrow> \<not> fd_computed f \<and> fd_optional f \<and> fd_default f = AnyNil \<and> fd_filled_by f = '''')"

fun observed_errors :: "entity \<Rightarrow> string list \<Rightarrow> string list \<Rightarrow> string list" where
  "observed_errors e used [] = []"
| "observed_errors e used (name # names) =
     only_if (name \<in> set used \<or> \<not> observation_candidate e name)
       (entity_message e (''observation field '' @ name @ '' must be unique, optional, writable, and have no default'')) @
     observed_errors e (name # used) names"

fun observation_group_errors :: "entity \<Rightarrow> string list \<Rightarrow> string list \<Rightarrow> string list" where
  "observation_group_errors e used [] = []"
| "observation_group_errors e used (owner # owners) =
     (let names = owned_names (en_observations e) owner in
      only_if (\<not> observation_name owner \<or> names = []) (entity_message e (''invalid observation group '' @ owner)) @
      observed_errors e used names @ observation_group_errors e (rev names @ used) owners)"

definition observation_errors :: "entity \<Rightarrow> string list" where
  "observation_errors e =
     only_if (en_observations e \<noteq> [] \<and> en_generation_fields e = [])
       (entity_message e ''observations require generation_fields'') @
     observation_group_errors e (en_generation_fields e) (sorted_keys (en_observations e))"

definition entity_version_errors :: "rule_env \<Rightarrow> entity \<Rightarrow> string list" where
  "entity_version_errors env e =
     concat (map (fallback_errors env e) (en_fields e)) @
     only_if (has_version_metadata e \<and> \<not> en_versioned e)
       (entity_message e ''generations, observations, and cleanup owners require versioned'') @
     condition_errors e @ cleanup_owner_errors e @ cleanup_target_errors e @
     (if \<not> en_versioned e then []
      else concat (map (reserved_field_errors env e) (en_fields e)) @ generation_errors e @ observation_errors e)"

text \<open>Of entities with one name, the last counts; a collection of an unknown entity reads the empty one.\<close>

definition entity_named :: "entity list \<Rightarrow> string \<Rightarrow> entity option" where
  "entity_named es = map_of (rev (map (\<lambda>e. (en_name e, e)) es))"

definition collection_version_errors :: "entity list \<Rightarrow> collection \<Rightarrow> string list" where
  "collection_version_errors es c =
     concat (map (\<lambda>name. only_if (case entity_named es (cl_entity c) of None \<Rightarrow> False | Some e \<Rightarrow> is_observation_field e name)
       (''collection '' @ cl_name c @ '': observation field '' @ name @ '' cannot be an upsert key or patchable field''))
       (cl_upsert_key c @ cl_patchable c))"

definition validate_versioned :: "rule_env \<Rightarrow> entity list \<Rightarrow> collection list \<Rightarrow> string list" where
  "validate_versioned env es cs =
     concat (map (entity_version_errors env) es) @ concat (map (collection_version_errors es) cs)"

subsection \<open>ValidateLiveUnique\<close>

fun composite_consistent :: "entity \<Rightarrow> field \<Rightarrow> string list \<Rightarrow> string list \<Rightarrow> bool" where
  "composite_consistent e f seen [] = True"
| "composite_consistent e f seen (name # names) \<longleftrightarrow>
     name \<notin> set seen \<and>
     (case fields_map e name of None \<Rightarrow> False
      | Some m \<Rightarrow> fd_unique_when_live m \<and> \<not> fd_computed m \<and> fd_unique_composite m = fd_unique_composite f) \<and>
     composite_consistent e f (name # seen) names"

definition live_field_errors :: "rule_env \<Rightarrow> entity \<Rightarrow> field \<Rightarrow> string list" where
  "live_field_errors env e f =
     (let fail = (\<lambda>reason. ''entity '' @ re_quote env (en_name e) @ '' field '' @ re_quote env (fd_name f) @
            '': unique_when_live '' @ reason)
      in if \<not> fd_unique_when_live f then []
         else only_if (\<not> fd_unique f \<and> fd_unique_composite f = []) (fail ''requires unique or unique_composite'') @
           only_if (fd_unique f \<and> fd_unique_composite f \<noteq> []) (fail ''cannot combine unique and unique_composite'') @
           only_if (fd_computed f) (fail ''cannot apply to a computed field'') @
           (if fd_unique_composite f = [] then []
            else only_if (fd_name f \<notin> set (fd_unique_composite f)) (fail ''requires this field in its composite key'') @
              only_if (\<not> composite_consistent e f [] (fd_unique_composite f))
                (fail ''requires the same ordered composite key on each live member'')))"

definition live_collection_errors :: "rule_env \<Rightarrow> entity \<Rightarrow> collection \<Rightarrow> string list" where
  "live_collection_errors env e c =
     (if cl_entity c \<noteq> en_name e then []
      else concat (map (\<lambda>name.
        only_if (case fields_map e name of None \<Rightarrow> False | Some f \<Rightarrow> fd_unique_when_live f)
          (''collection '' @ re_quote env (cl_name c) @ '': upsert_key cannot include unique_when_live field '' @
             re_quote env name)) (cl_upsert_key c)))"

definition validate_live_unique :: "rule_env \<Rightarrow> entity list \<Rightarrow> collection list \<Rightarrow> string list" where
  "validate_live_unique env es cs =
     concat (map (\<lambda>e. concat (map (live_field_errors env e) (en_fields e)) @
       concat (map (live_collection_errors env e) cs)) es)"

subsection \<open>What the rules accept\<close>

lemma observed_errors_Nil:
  "observed_errors e used names = [] \<longleftrightarrow>
     distinct names \<and> set names \<inter> set used = {} \<and> (\<forall>name \<in> set names. observation_candidate e name)"
  by (induction names arbitrary: used) auto

definition observed_names :: "entity \<Rightarrow> string list" where
  "observed_names e = concat (map (owned_names (en_observations e)) (sorted_keys (en_observations e)))"

lemma observation_group_errors_Nil:
  "observation_group_errors e used owners = [] \<longleftrightarrow>
     (\<forall>owner \<in> set owners. observation_name owner \<and> owned_names (en_observations e) owner \<noteq> []) \<and>
     (let names = concat (map (owned_names (en_observations e)) owners) in
      distinct names \<and> set names \<inter> set used = {} \<and> (\<forall>name \<in> set names. observation_candidate e name))"
proof (induction owners arbitrary: used)
  case (Cons owner owners)
  show ?case
    by (auto simp: Let_def Cons.IH observed_errors_Nil)
qed simp

text \<open>The conditions, the cleanup owners and the version fields of an entity that are in order.\<close>

definition conditions_in_order :: "entity \<Rightarrow> bool" where
  "conditions_in_order e \<longleftrightarrow>
     (let owners = sorted_keys (en_conditions e); types = concat (map (owned_names (en_conditions e)) owners) in
      (owners \<noteq> [] \<longrightarrow> en_generation_fields e \<noteq> []) \<and> length owners \<le> 8 \<and> length types \<le> 32 \<and>
      (\<forall>owner \<in> set owners. observation_name owner \<and> owned_names (en_conditions e) owner \<noteq> [] \<and>
         distinct (owned_names (en_conditions e) owner) \<and> list_all condition_name (owned_names (en_conditions e) owner)))"

definition cleanup_in_order :: "entity \<Rightarrow> bool" where
  "cleanup_in_order e \<longleftrightarrow>
     length (en_cleanup_owners e) \<le> 32 \<and> distinct (en_cleanup_owners e) \<and> list_all observation_name (en_cleanup_owners e) \<and>
     (\<forall>owner name. map_of (en_cleanup_targets e) owner = Some name \<longrightarrow> cleanup_target_valid e owner name)"

definition versions_in_order :: "rule_env \<Rightarrow> entity \<Rightarrow> bool" where
  "versions_in_order env e \<longleftrightarrow>
     (\<forall>f \<in> set (en_fields e). reserved_field_errors env e f = []) \<and>
     distinct (en_generation_fields e @ observed_names e) \<and>
     (\<forall>name \<in> set (en_generation_fields e). \<exists>f. fields_map e name = Some f \<and> \<not> fd_computed f) \<and>
     (\<forall>name \<in> set (observed_names e). observation_candidate e name) \<and>
     (en_observations e \<noteq> [] \<longrightarrow> en_generation_fields e \<noteq> []) \<and>
     (\<forall>owner \<in> keys_of (en_observations e). observation_name owner \<and> owned_names (en_observations e) owner \<noteq> [])"

definition versioned_entity :: "rule_env \<Rightarrow> entity \<Rightarrow> bool" where
  "versioned_entity env e \<longleftrightarrow>
     (\<forall>f \<in> set (en_fields e). (\<forall>v. fd_unobserved f = Some v \<longrightarrow> fallback_valid env e f ''unobserved'' v) \<and>
        (\<forall>v. fd_deleting f = Some v \<longrightarrow> fallback_valid env e f ''deleting'' v)) \<and>
     (has_version_metadata e \<longrightarrow> en_versioned e) \<and> conditions_in_order e \<and> cleanup_in_order e \<and>
     (en_versioned e \<longrightarrow> versions_in_order env e)"

lemma condition_errors_Nil: "condition_errors e = [] \<longleftrightarrow> conditions_in_order e"
proof (cases "en_conditions e = []")
  case False
  then have "sorted_keys (en_conditions e) \<noteq> []" using set_sorted_keys [of "en_conditions e"] by (metis set_empty image_is_empty)
  moreover have "each (\<lambda>_ name seen. only_if (\<not> condition_name name \<or> seen) (m name)) names = [] \<longleftrightarrow>
      distinct names \<and> (\<forall>name \<in> set names. condition_name name)" for m :: "string \<Rightarrow> string" and names
    by (rule each_seen_Nil) auto
  then have "condition_owner_errors e owner = [] \<longleftrightarrow> observation_name owner \<and> owned_names (en_conditions e) owner \<noteq> [] \<and>
      distinct (owned_names (en_conditions e) owner) \<and> list_all condition_name (owned_names (en_conditions e) owner)" for owner
    by (auto simp: condition_owner_errors_def Let_def list_all_iff)
  ultimately show ?thesis
    using False unfolding condition_errors_def conditions_in_order_def Let_def length_concat map_map
    by (auto simp: collect_Nil comp_def not_less simp del: concat_eq_Nil_conv)
qed (simp add: condition_errors_def conditions_in_order_def sorted_keys_def)

lemma cleanup_errors_Nil: "cleanup_owner_errors e = [] \<and> cleanup_target_errors e = [] \<longleftrightarrow> cleanup_in_order e"
proof -
  have "each (\<lambda>_ owner seen. only_if (\<not> observation_name owner \<or> seen) (m owner)) owners = [] \<longleftrightarrow>
      distinct owners \<and> (\<forall>owner \<in> set owners. observation_name owner)" for m :: "string \<Rightarrow> string" and owners
    by (rule each_seen_Nil) auto
  moreover have "cleanup_target_errors e = [] \<longleftrightarrow>
      (\<forall>owner \<in> dom (map_of (en_cleanup_targets e)). cleanup_target_valid e owner (the (map_of (en_cleanup_targets e) owner)))"
    unfolding cleanup_target_errors_def collect_Nil only_if_Nil not_not sorted_keys_dom ..
  ultimately show ?thesis
    unfolding cleanup_in_order_def cleanup_owner_errors_def by (force simp: list_all_iff dom_def)
qed

lemma version_errors_Nil:
  "concat (map (reserved_field_errors env e) (en_fields e)) @ generation_errors e @ observation_errors e = [] \<longleftrightarrow>
     versions_in_order env e"
proof -
  have "generation_errors e = [] \<longleftrightarrow> distinct (en_generation_fields e) \<and>
      (\<forall>name \<in> set (en_generation_fields e). \<exists>f. fields_map e name = Some f \<and> \<not> fd_computed f)"
    unfolding generation_errors_def by (rule each_seen_Nil) (auto split: option.splits)
  then show ?thesis
    unfolding versions_in_order_def observation_errors_def
    by (auto simp: collect_Nil observation_group_errors_Nil Let_def observed_names_def keys_of_def
        simp del: concat_eq_Nil_conv)
qed

lemma entity_version_errors_Nil: "entity_version_errors env e = [] \<longleftrightarrow> versioned_entity env e"
proof -
  have "concat (map (fallback_errors env e) (en_fields e)) = [] \<longleftrightarrow>
      (\<forall>f \<in> set (en_fields e). (\<forall>v. fd_unobserved f = Some v \<longrightarrow> fallback_valid env e f ''unobserved'' v) \<and>
        (\<forall>v. fd_deleting f = Some v \<longrightarrow> fallback_valid env e f ''deleting'' v))"
    unfolding collect_Nil fallback_errors_def by (intro ball_cong refl) (auto split: option.splits)
  then show ?thesis
    unfolding versioned_entity_def condition_errors_Nil [symmetric] cleanup_errors_Nil [symmetric] version_errors_Nil [symmetric]
      entity_version_errors_def by simp
qed

text \<open>A collection does not write the fields that belong to observers.\<close>

definition spares_observations :: "entity list \<Rightarrow> collection \<Rightarrow> bool" where
  "spares_observations es c \<longleftrightarrow>
     (\<forall>e. entity_named es (cl_entity c) = Some e \<longrightarrow>
        set (cl_upsert_key c @ cl_patchable c) \<inter> set (observed_names e) = {})"

lemma is_observation_field_iff: "is_observation_field e name \<longleftrightarrow> name \<in> set (observed_names e)"
  by (auto simp: is_observation_field_def observed_names_def list_ex_iff)

lemma versioned_Nil:
  "validate_versioned env es cs = [] \<longleftrightarrow>
     (\<forall>e \<in> set es. versioned_entity env e) \<and> (\<forall>c \<in> set cs. spares_observations es c)"
proof -
  have "collection_version_errors es c = [] \<longleftrightarrow> spares_observations es c" for c
    unfolding collection_version_errors_def spares_observations_def collect_Nil
    by (auto simp: is_observation_field_iff split: option.splits)
  then show ?thesis by (simp add: validate_versioned_def collect_Nil entity_version_errors_Nil del: concat_eq_Nil_conv)
qed

text \<open>The keys that are unique among live rows.\<close>

lemma composite_consistent_iff:
  "composite_consistent e f seen names \<longleftrightarrow> distinct names \<and> set names \<inter> set seen = {} \<and>
     (\<forall>name \<in> set names. \<exists>m. fields_map e name = Some m \<and> fd_unique_when_live m \<and> \<not> fd_computed m \<and>
        fd_unique_composite m = fd_unique_composite f)"
  by (induction names arbitrary: seen) (auto split: option.splits)

definition live_key :: "entity \<Rightarrow> field \<Rightarrow> bool" where
  "live_key e f \<longleftrightarrow> \<not> fd_computed f \<and>
     (if fd_unique_composite f = [] then fd_unique f
      else \<not> fd_unique f \<and> fd_name f \<in> set (fd_unique_composite f) \<and> distinct (fd_unique_composite f) \<and>
        (\<forall>name \<in> set (fd_unique_composite f). \<exists>m. fields_map e name = Some m \<and> fd_unique_when_live m \<and>
           \<not> fd_computed m \<and> fd_unique_composite m = fd_unique_composite f))"

definition live_unique_in_order :: "entity list \<Rightarrow> collection list \<Rightarrow> bool" where
  "live_unique_in_order es cs \<longleftrightarrow> (\<forall>e \<in> set es.
     (\<forall>f \<in> set (en_fields e). fd_unique_when_live f \<longrightarrow> live_key e f) \<and>
     (\<forall>c \<in> set cs. cl_entity c = en_name e \<longrightarrow>
        (\<forall>name \<in> set (cl_upsert_key c). \<forall>f. fields_map e name = Some f \<longrightarrow> \<not> fd_unique_when_live f)))"

lemma live_unique_Nil: "validate_live_unique env es cs = [] \<longleftrightarrow> live_unique_in_order es cs"
proof -
  have "live_field_errors env e f = [] \<longleftrightarrow> (fd_unique_when_live f \<longrightarrow> live_key e f)" for e f
    by (auto simp: live_field_errors_def live_key_def composite_consistent_iff Let_def)
  moreover have "live_collection_errors env e c = [] \<longleftrightarrow> (cl_entity c = en_name e \<longrightarrow>
        (\<forall>name \<in> set (cl_upsert_key c). \<forall>f. fields_map e name = Some f \<longrightarrow> \<not> fd_unique_when_live f))" for e c
    by (auto simp: live_collection_errors_def split: option.splits)
  ultimately show ?thesis
    unfolding validate_live_unique_def live_unique_in_order_def collect_Nil by (simp add: collect_Nil del: concat_eq_Nil_conv)
qed

end
