(* ===== verification/Collection_Rules.thy ===== *)
theory Collection_Rules
  imports Versioned_Rules
begin

text \<open>
  The rules of the collections: \<open>validateCollectionReferences\<close> and \<open>validateCollectionOps\<close> of
  \<open>internal/declaration/validate.go\<close>.
\<close>

subsection \<open>Lookups\<close>

text \<open>\<open>entityFields\<close> keeps the fields of the last entity of a name, \<open>entityFieldMap\<close> is made of the
  first one.\<close>

definition first_entity :: "entity list \<Rightarrow> string \<Rightarrow> entity option" where
  "first_entity es name = find (\<lambda>e. en_name e = name) es"

definition entity_has_field :: "entity list \<Rightarrow> string \<Rightarrow> string \<Rightarrow> bool" where
  "entity_has_field es entity name =
     (case entity_named es entity of None \<Rightarrow> False | Some e \<Rightarrow> name \<in> set (field_name_list e))"

definition entity_field :: "entity list \<Rightarrow> string \<Rightarrow> string \<Rightarrow> field option" where
  "entity_field es entity name = (case first_entity es entity of None \<Rightarrow> None | Some e \<Rightarrow> fields_map e name)"

definition field_is_computed :: "entity list \<Rightarrow> string \<Rightarrow> string \<Rightarrow> bool" where
  "field_is_computed es entity name =
     (case entity_field es entity name of None \<Rightarrow> False | Some f \<Rightarrow> fd_computed f)"

abbreviation coll_fault :: "string \<Rightarrow> string \<Rightarrow> string \<Rightarrow> string list \<Rightarrow> fault" where
  "coll_fault \<equiv> fault ''collection''"

subsection \<open>Faults of one collection\<close>

definition duplicate_collection_faults :: "collection list \<Rightarrow> fault list" where
  "duplicate_collection_faults cs =
     (let names = map cl_name cs in
      map (\<lambda>name. coll_fault ''unique-collection-name'' (collection_path name) name [])
        (sort (filter (\<lambda>name. count_list names name > 1) (remdups names))))"

definition scope_faults :: "entity list \<Rightarrow> collection \<Rightarrow> fault list" where
  "scope_faults es c =
     concat (map (\<lambda>name. let target = the (map_of (cl_scope c) name); path = collection_path (cl_name c) @ ''.scope.'' @ name in
       only_if (\<not> entity_has_field es (cl_entity c) name) (coll_fault ''collection-scope'' path name []) @
       only_if (target \<notin> set (entity_name_list es)) (coll_fault ''collection-scope'' path target (entity_name_list es)))
       (sorted_keys (cl_scope c)))"

definition implicit_faults :: "entity list \<Rightarrow> collection \<Rightarrow> fault list" where
  "implicit_faults es c =
     concat (map (\<lambda>name. let path = collection_path (cl_name c) @ ''.implicit.'' @ name in
       if \<not> entity_has_field es (cl_entity c) name then [coll_fault ''collection-implicit'' path name []]
       else only_if (the (map_of (cl_implicit c) name) = '''') (coll_fault ''collection-implicit'' path '''' []) @
         only_if (field_is_computed es (cl_entity c) name) (coll_fault ''collection-implicit'' path name []) @
         only_if (map_of (cl_scope c) name \<noteq> None) (coll_fault ''collection-implicit'' path name []))
       (sorted_keys (cl_implicit c)))"

definition upsert_key_faults :: "entity list \<Rightarrow> collection \<Rightarrow> fault list" where
  "upsert_key_faults es c =
     each (\<lambda>ki name seen. let path = index_text (collection_path (cl_name c) @ ''.upsert_key'') ki in
       only_if seen (coll_fault ''upsert-key'' path name []) @
       (if \<not> entity_has_field es (cl_entity c) name then [coll_fault ''upsert-key'' path name []]
        else only_if (field_is_computed es (cl_entity c) name) (coll_fault ''upsert-key'' path name [])))
       (cl_upsert_key c)"

definition upsert_dependency_faults :: "collection \<Rightarrow> fault list" where
  "upsert_dependency_faults c =
     (let upserts = ''upsert'' \<in> set (cl_operations c); path = collection_path (cl_name c) in
      only_if (cl_upsert_key c \<noteq> [] \<and> \<not> upserts) (coll_fault ''upsert-key'' (path @ ''.operations'') '''' [''upsert'']) @
      only_if (upserts \<and> cl_upsert_key c = []) (coll_fault ''upsert-key'' (path @ ''.upsert_key'') '''' []) @
      only_if (cl_concurrency c \<noteq> '''' \<and> \<not> upserts) (coll_fault ''concurrency'' (path @ ''.concurrency'') (cl_concurrency c) []) @
      only_if (cl_concurrency c \<noteq> '''' \<and> cl_concurrency c \<notin> set valid_concurrency_modes)
        (coll_fault ''concurrency'' (path @ ''.concurrency'') (cl_concurrency c) (sort valid_concurrency_modes)))"

definition patch_dependency_faults :: "collection \<Rightarrow> fault list" where
  "patch_dependency_faults c =
     (let patches = ''patch'' \<in> set (cl_operations c); path = collection_path (cl_name c) in
      only_if (cl_patchable c \<noteq> [] \<and> \<not> patches) (coll_fault ''patchable'' (path @ ''.operations'') '''' [''patch'']) @
      only_if (patches \<and> cl_patchable c = []) (coll_fault ''patchable'' (path @ ''.patchable'') '''' []))"

definition patchable_faults :: "entity list \<Rightarrow> collection \<Rightarrow> fault list" where
  "patchable_faults es c =
     each (\<lambda>pi name seen. let path = index_text (collection_path (cl_name c) @ ''.patchable'') pi;
           has = (\<lambda>P. case entity_field es (cl_entity c) name of None \<Rightarrow> False | Some f \<Rightarrow> P f) in
       only_if seen (coll_fault ''patchable'' path name []) @
       (if \<not> entity_has_field es (cl_entity c) name then [coll_fault ''patchable'' path name []]
        else only_if (has fd_computed) (coll_fault ''patchable'' path name []) @
          only_if (has (\<lambda>f. fd_type f = ''ref'')) (coll_fault ''patchable'' path name [])))
       (cl_patchable c)"

definition collection_faults :: "entity list \<Rightarrow> collection \<Rightarrow> fault list" where
  "collection_faults es c =
     (if cl_entity c \<notin> set (entity_name_list es)
      then [coll_fault ''collection-entity'' (collection_path (cl_name c) @ ''.entity'') (cl_entity c) (entity_name_list es)]
      else scope_faults es c @ implicit_faults es c @ upsert_key_faults es c @ upsert_dependency_faults c @
        patch_dependency_faults c @ patchable_faults es c)"

definition validate_collection_references :: "collection list \<Rightarrow> entity list \<Rightarrow> fault list" where
  "validate_collection_references cs es =
     duplicate_collection_faults cs @ concat (map (collection_faults es) cs)"

definition operation_faults :: "collection \<Rightarrow> fault list" where
  "operation_faults c =
     (let path = collection_path (cl_name c) @ ''.operations'' in
      only_if (cl_operations c = []) (fault ''operation'' ''operation'' path '''' operation_names) @
      each (\<lambda>oi op seen.
          only_if seen (fault ''operation'' ''operation'' (index_text path oi) op []) @
          only_if (op \<notin> set valid_operations) (fault ''operation'' ''operation'' (index_text path oi) op operation_names))
        (cl_operations c))"

definition validate_collection_ops :: "collection list \<Rightarrow> fault list" where
  "validate_collection_ops cs = concat (map operation_faults cs)"

subsection \<open>What the rules accept\<close>

text \<open>A collection that is well formed over an entity.\<close>

definition writable_field :: "entity \<Rightarrow> string \<Rightarrow> bool" where
  "writable_field e name \<longleftrightarrow> (\<exists>f \<in> set (en_fields e). fd_name f = name \<and> \<not> fd_computed f)"

definition collection_over :: "entity list \<Rightarrow> entity \<Rightarrow> collection \<Rightarrow> bool" where
  "collection_over es e c \<longleftrightarrow> cl_entity c = en_name e \<and>
     (\<forall>k v. map_of (cl_scope c) k = Some v \<longrightarrow> k \<in> fd_name ` set (en_fields e) \<and> v \<in> en_name ` set es) \<and>
     (\<forall>k v. map_of (cl_implicit c) k = Some v \<longrightarrow> v \<noteq> '''' \<and> writable_field e k \<and> map_of (cl_scope c) k = None) \<and>
     distinct (cl_upsert_key c) \<and> (\<forall>k \<in> set (cl_upsert_key c). writable_field e k) \<and>
     (cl_upsert_key c \<noteq> [] \<longleftrightarrow> ''upsert'' \<in> set (cl_operations c)) \<and>
     (cl_concurrency c = '''' \<or> (''upsert'' \<in> set (cl_operations c) \<and> cl_concurrency c \<in> set valid_concurrency_modes)) \<and>
     (cl_patchable c \<noteq> [] \<longleftrightarrow> ''patch'' \<in> set (cl_operations c)) \<and> distinct (cl_patchable c) \<and>
     (\<forall>k \<in> set (cl_patchable c). \<exists>f \<in> set (en_fields e). fd_name f = k \<and> \<not> fd_computed f \<and> fd_type f \<noteq> ''ref'') \<and>
     cl_operations c \<noteq> [] \<and> distinct (cl_operations c) \<and> set (cl_operations c) \<subseteq> set valid_operations"

definition well_formed_collections :: "entity list \<Rightarrow> collection list \<Rightarrow> bool" where
  "well_formed_collections es cs \<longleftrightarrow> distinct (map cl_name cs) \<and> (\<forall>c \<in> set cs. \<exists>e \<in> set es. collection_over es e c)"

lemma duplicate_collection_faults_Nil: "duplicate_collection_faults cs = [] \<longleftrightarrow> distinct (map cl_name cs)"
proof -
  have "(\<forall>x \<in> set xs. \<not> count_list xs x > 1) \<longleftrightarrow> distinct xs" for xs :: "string list"
  proof (induction xs)
    case (Cons y ys)
    have "(\<forall>x \<in> set (y # ys). \<not> count_list (y # ys) x > 1) \<longleftrightarrow>
        y \<notin> set ys \<and> (\<forall>x \<in> set ys. \<not> count_list ys x > 1)"
      by (auto simp: count_list_0_iff not_less_eq [symmetric] Suc_le_eq)
    then show ?case unfolding Cons.IH by simp
  qed simp
  from this [of "map cl_name cs"] have "(\<forall>c \<in> set cs. \<not> count_list (map cl_name cs) (cl_name c) > 1) \<longleftrightarrow> distinct (map cl_name cs)" by simp
  moreover have "sort xs = [] \<longleftrightarrow> xs = []" for xs :: "string list" by (metis length_0_conv length_sort)
  ultimately show ?thesis by (simp add: duplicate_collection_faults_def Let_def filter_empty_conv)
qed

lemma named_entity:
  assumes "distinct (map en_name es)" "e \<in> set es"
  shows "entity_named es (en_name e) = Some e" "first_entity es (en_name e) = Some e"
proof -
  have "distinct (map fst (rev (map (\<lambda>e. (en_name e, e)) es)))" using assms(1) by (simp add: rev_map [symmetric] comp_def)
  then show "entity_named es (en_name e) = Some e"
    unfolding entity_named_def using assms(2) by (intro map_of_is_SomeI) auto
  show "first_entity es (en_name e) = Some e"
    using assms unfolding first_entity_def
    by (induction es) (auto simp: image_iff)
qed

lemma named_field:
  assumes "distinct (map fd_name (en_fields e))"
  shows "fields_map e name = Some f \<longleftrightarrow> f \<in> set (en_fields e) \<and> fd_name f = name"
proof -
  have "distinct (map fst (rev (map (\<lambda>f. (fd_name f, f)) (en_fields e))))" using assms by (simp add: rev_map [symmetric] comp_def)
  then have "map_of (rev (map (\<lambda>f. (fd_name f, f)) (en_fields e))) name = Some f \<longleftrightarrow>
      (name, f) \<in> set (rev (map (\<lambda>f. (fd_name f, f)) (en_fields e)))" by simp
  then show ?thesis by (auto simp: fields_map_def)
qed

text \<open>A collection's entity, in a declaration whose names do not repeat.\<close>

definition names_entity :: "entity list \<Rightarrow> entity \<Rightarrow> collection \<Rightarrow> bool" where
  "names_entity es e c \<longleftrightarrow> distinct (map en_name es) \<and> e \<in> set es \<and> distinct (map fd_name (en_fields e)) \<and>
     cl_entity c = en_name e"

lemma has_field:
  assumes "names_entity es e c"
  shows "entity_has_field es (cl_entity c) k \<longleftrightarrow> k \<in> fd_name ` set (en_fields e)"
  using assms by (simp add: names_entity_def entity_has_field_def named_entity field_name_list_def)

lemma the_field:
  assumes "names_entity es e c"
  shows "entity_field es (cl_entity c) k = Some f \<longleftrightarrow> f \<in> set (en_fields e) \<and> fd_name f = k"
  using assms by (simp add: names_entity_def entity_field_def named_entity named_field)

lemma one_field:
  assumes "distinct (map fd_name (en_fields e))" "f \<in> set (en_fields e)" "g \<in> set (en_fields e)" "fd_name f = fd_name g"
  shows "f = g"
  using assms by (auto simp: distinct_map dest: inj_onD)

lemma some_field:
  assumes n: "names_entity es e c"
  shows "entity_has_field es (cl_entity c) k \<and> \<not> (case entity_field es (cl_entity c) k of None \<Rightarrow> False | Some f \<Rightarrow> P f) \<longleftrightarrow>
     (\<exists>f \<in> set (en_fields e). fd_name f = k \<and> \<not> P f)"
proof (cases "entity_field es (cl_entity c) k")
  case None
  then have "\<not> (\<exists>f \<in> set (en_fields e). fd_name f = k)" using the_field [OF n] by (metis option.distinct(1))
  then show ?thesis by (auto simp: has_field [OF n])
next
  case (Some f)
  then have f: "f \<in> set (en_fields e)" "fd_name f = k" by (simp_all add: the_field [OF n])
  have d: "distinct (map fd_name (en_fields e))" using n by (simp add: names_entity_def)
  have "(\<exists>g \<in> set (en_fields e). fd_name g = k \<and> \<not> P g) \<longleftrightarrow> \<not> P f"
    using f one_field [OF d f(1)] by metis
  then show ?thesis using f by (auto simp: Some has_field [OF n])
qed

lemma writable_field_iff:
  assumes "names_entity es e c"
  shows "writable_field e k \<longleftrightarrow> entity_has_field es (cl_entity c) k \<and> \<not> field_is_computed es (cl_entity c) k"
  unfolding writable_field_def field_is_computed_def some_field [OF assms] ..

lemma scope_faults_Nil:
  assumes "names_entity es e c"
  shows "scope_faults es c = [] \<longleftrightarrow>
     (\<forall>k v. map_of (cl_scope c) k = Some v \<longrightarrow> k \<in> fd_name ` set (en_fields e) \<and> v \<in> en_name ` set es)"
proof -
  have "scope_faults es c = [] \<longleftrightarrow> (\<forall>k \<in> dom (map_of (cl_scope c)).
      k \<in> fd_name ` set (en_fields e) \<and> the (map_of (cl_scope c) k) \<in> en_name ` set es)"
    by (simp add: scope_faults_def Let_def has_field [OF assms] entity_name_list_def sorted_keys_dom del: set_sorted_keys)
  then show ?thesis by (force simp: dom_def)
qed

lemma guarded_Nil: "(if \<not> b then [x] else only_if p y @ only_if q z @ only_if r u) = [] \<longleftrightarrow> b \<and> \<not> p \<and> \<not> q \<and> \<not> r"
  by simp

lemma implicit_faults_Nil:
  assumes "names_entity es e c"
  shows "implicit_faults es c = [] \<longleftrightarrow>
     (\<forall>k v. map_of (cl_implicit c) k = Some v \<longrightarrow> v \<noteq> '''' \<and> writable_field e k \<and> map_of (cl_scope c) k = None)"
proof -
  have "implicit_faults es c = [] \<longleftrightarrow> (\<forall>k \<in> set (sorted_keys (cl_implicit c)).
      the (map_of (cl_implicit c) k) \<noteq> '''' \<and> writable_field e k \<and> map_of (cl_scope c) k = None)"
    unfolding implicit_faults_def collect_Nil Let_def guarded_Nil writable_field_iff [OF assms] not_not by blast
  also have "... \<longleftrightarrow> (\<forall>k v. map_of (cl_implicit c) k = Some v \<longrightarrow>
      v \<noteq> '''' \<and> writable_field e k \<and> map_of (cl_scope c) k = None)"
    unfolding sorted_keys_dom by (force simp: dom_def)
  finally show ?thesis .
qed

lemma upsert_key_faults_Nil:
  assumes "names_entity es e c"
  shows "upsert_key_faults es c = [] \<longleftrightarrow> distinct (cl_upsert_key c) \<and> (\<forall>k \<in> set (cl_upsert_key c). writable_field e k)"
  unfolding upsert_key_faults_def by (rule each_seen_Nil) (auto simp: writable_field_iff [OF assms] Let_def)

lemma patchable_faults_Nil:
  assumes "names_entity es e c"
  shows "patchable_faults es c = [] \<longleftrightarrow> distinct (cl_patchable c) \<and>
     (\<forall>k \<in> set (cl_patchable c). \<exists>f \<in> set (en_fields e). fd_name f = k \<and> \<not> fd_computed f \<and> fd_type f \<noteq> ''ref'')"
proof -
  have "patchable_faults es c = [] \<longleftrightarrow> distinct (cl_patchable c) \<and>
     (\<forall>k \<in> set (cl_patchable c). entity_has_field es (cl_entity c) k \<and>
       \<not> (case entity_field es (cl_entity c) k of None \<Rightarrow> False | Some f \<Rightarrow> fd_computed f \<or> fd_type f = ''ref''))"
    unfolding patchable_faults_def by (rule each_seen_Nil) (auto simp: Let_def split: option.splits)
  then show ?thesis by (simp add: some_field [OF assms])
qed

lemma operation_faults_Nil:
  "operation_faults c = [] \<longleftrightarrow> cl_operations c \<noteq> [] \<and> distinct (cl_operations c) \<and> set (cl_operations c) \<subseteq> set valid_operations"
proof -
  have "each (\<lambda>oi op seen.
          only_if seen (fault ''operation'' ''operation'' (index_text path oi) op []) @
          only_if (op \<notin> set valid_operations) (fault ''operation'' ''operation'' (index_text path oi) op operation_names))
        (cl_operations c) = [] \<longleftrightarrow> distinct (cl_operations c) \<and> (\<forall>op \<in> set (cl_operations c). op \<in> set valid_operations)" for path
    by (rule each_seen_Nil) simp
  then show ?thesis by (auto simp: operation_faults_def Let_def)
qed

lemma collection_faults_Nil:
  assumes n: "names_entity es e c"
  shows "collection_faults es c = [] \<and> operation_faults c = [] \<longleftrightarrow> collection_over es e c"
proof -
  have "cl_entity c \<in> set (entity_name_list es)" "cl_entity c = en_name e"
    using n by (auto simp: names_entity_def entity_name_list_def)
  then show ?thesis
    unfolding collection_over_def
    by (auto simp: collection_faults_def scope_faults_Nil [OF n] implicit_faults_Nil [OF n] upsert_key_faults_Nil [OF n]
        patchable_faults_Nil [OF n] operation_faults_Nil upsert_dependency_faults_def patch_dependency_faults_def Let_def)
qed

lemma collections_Nil:
  assumes names: "distinct (map en_name es)" and fields: "\<forall>e \<in> set es. distinct (map fd_name (en_fields e))"
  shows "validate_collection_references cs es = [] \<and> validate_collection_ops cs = [] \<longleftrightarrow> well_formed_collections es cs"
proof -
  have "collection_faults es c = [] \<and> operation_faults c = [] \<longleftrightarrow> (\<exists>e \<in> set es. collection_over es e c)" for c
  proof (cases "cl_entity c \<in> en_name ` set es")
    case True
    then obtain e where e: "e \<in> set es" "cl_entity c = en_name e" by auto
    then have n: "names_entity es e c" using names fields by (simp add: names_entity_def)
    have "e' = e" if "e' \<in> set es" "collection_over es e' c" for e'
      using that names e by (auto simp: collection_over_def distinct_map dest: inj_onD)
    then show ?thesis using collection_faults_Nil [OF n] e(1) by metis
  next
    case False
    then show ?thesis by (auto simp: collection_faults_def entity_name_list_def collection_over_def)
  qed
  moreover have "validate_collection_references cs es = [] \<and> validate_collection_ops cs = [] \<longleftrightarrow>
      distinct (map cl_name cs) \<and> (\<forall>c \<in> set cs. collection_faults es c = [] \<and> operation_faults c = [])"
    by (auto simp: validate_collection_references_def validate_collection_ops_def duplicate_collection_faults_Nil)
  ultimately show ?thesis unfolding well_formed_collections_def by simp
qed

end
