(* ===== verification/Slot_Rules.thy ===== *)
theory Slot_Rules
  imports Collection_Rules
begin

text \<open>
  The rules of the slot bindings and the mixins, and the whole check of a declaration: \<open>Validate\<close> of
  \<open>internal/declaration/validate.go\<close>, with the declarations that it accepts.
\<close>

subsection \<open>Slot bindings\<close>

definition operators_of :: "slot_declaration \<Rightarrow> string list" where
  "operators_of sb = (if sd_gate sb \<noteq> [] then [''gate''] else []) @ (if sd_chain sb \<noteq> [] then [''chain''] else []) @
     (if sd_fan_out sb \<noteq> [] then [''fan-out''] else [])"

definition validate_slot_binding_collections :: "slot_declaration list \<Rightarrow> collection list \<Rightarrow> fault list" where
  "validate_slot_binding_collections slots cs =
     each (\<lambda>si sb _. only_if (sd_collection sb \<noteq> '''' \<and> sd_collection sb \<notin> set (map cl_name cs))
       (fault ''slot'' ''slot-collection'' (slot_path si @ ''.collection'') (sd_collection sb) (map cl_name cs))) slots"

definition validate_slot_binding_short_circuit :: "slot_declaration list \<Rightarrow> fault list" where
  "validate_slot_binding_short_circuit slots =
     each (\<lambda>si sb _. only_if (sd_short_circuit sb \<and> sd_chain sb = [])
       (fault ''slot'' ''short-circuit'' (slot_path si @ ''.short_circuit'') ''true'' [])) slots"

definition unknown_operators :: "undeclared_field list \<Rightarrow> string list" where
  "unknown_operators undeclared = List.map_filter (\<lambda>f. slot_binding_key (uf_path f)) undeclared"

definition validate_slot_binding_operator_presence :: "slot_declaration list \<Rightarrow> undeclared_field list \<Rightarrow> fault list" where
  "validate_slot_binding_operator_presence slots undeclared =
     each (\<lambda>si sb _. only_if (show_nat si \<notin> set (unknown_operators undeclared) \<and>
         sd_gate sb = [] \<and> sd_chain sb = [] \<and> sd_fan_out sb = [])
       (fault ''slot'' ''slot-operator'' (slot_path si) '''' slot_operators)) slots"

definition validate_slot_binding_operator_exclusivity :: "slot_declaration list \<Rightarrow> fault list" where
  "validate_slot_binding_operator_exclusivity slots =
     each (\<lambda>si sb _. only_if (length (operators_of sb) > 1)
       (fault ''slot'' ''slot-operator'' (slot_path si) (join_with '', '' (operators_of sb)) slot_operators)) slots"

definition validate_slot_binding_fill_uniqueness :: "slot_declaration list \<Rightarrow> fault list" where
  "validate_slot_binding_fill_uniqueness slots =
     each (\<lambda>si sb _. concat (map (\<lambda>(operator, fills).
         each (\<lambda>_ fill seen. only_if seen (fault ''slot'' ''unique-fill'' (slot_path si @ ''.'' @ operator) fill [])) fills)
       [(''gate'', sd_gate sb), (''chain'', sd_chain sb), (''fan-out'', sd_fan_out sb)])) slots"

definition binding_keys :: "slot_declaration \<Rightarrow> (string \<times> string \<times> string) list" where
  "binding_keys sb = map (\<lambda>operator. (sd_slot sb, sd_collection sb, operator)) (operators_of sb)"

fun binding_key_faults :: "(string \<times> string \<times> string) list \<Rightarrow> nat \<Rightarrow> slot_declaration list \<Rightarrow> fault list" where
  "binding_key_faults seen si [] = []"
| "binding_key_faults seen si (sb # slots) =
     concat (map (\<lambda>(slot, collection, operator). only_if ((slot, collection, operator) \<in> set seen)
       (fault ''slot'' ''unique-slot-binding'' (slot_path si @ ''.'' @ operator) operator [])) (binding_keys sb)) @
     binding_key_faults (binding_keys sb @ seen) (Suc si) slots"

definition validate_slot_binding_uniqueness_collect :: "slot_declaration list \<Rightarrow> fault list" where
  "validate_slot_binding_uniqueness_collect slots = binding_key_faults [] 0 slots"

definition validate_mixin_uniqueness :: "string list \<Rightarrow> fault list" where
  "validate_mixin_uniqueness mixins =
     each (\<lambda>mi name seen. only_if seen (fault ''mixin'' ''unique-mixin'' (index_text ''mixins'' mi) name [])) mixins"

subsection \<open>The check of a declaration\<close>

record faults =
  fs_undeclared :: "fault list"
  fs_service :: "fault list"
  fs_entities :: "fault list"
  fs_collections :: "fault list"
  fs_slots :: "fault list"

definition all_faults :: "faults \<Rightarrow> fault list" where
  "all_faults f = fs_undeclared f @ fs_service f @ fs_entities f @ fs_collections f @ fs_slots f"

definition starts_with_name :: "rule_env \<Rightarrow> string \<Rightarrow> string \<Rightarrow> string \<Rightarrow> bool" where
  "starts_with_name env message kind name \<longleftrightarrow>
     has_prefix message (kind @ '' '' @ name @ '':'') \<or> has_prefix message (kind @ '' '' @ re_quote env name)"

fun locate_entity :: "rule_env \<Rightarrow> string \<Rightarrow> nat \<Rightarrow> entity list \<Rightarrow> string option" where
  "locate_entity env message i [] = None"
| "locate_entity env message i (e # es) =
     (if starts_with_name env message ''entity'' (en_name e) then Some (entity_path i)
      else locate_entity env message (Suc i) es)"

definition locate :: "rule_env \<Rightarrow> service_declaration \<Rightarrow> string \<Rightarrow> string" where
  "locate env sv message =
     (case locate_entity env message 0 (sv_entities sv) of
        Some path \<Rightarrow> path
      | None \<Rightarrow>
        (case find (\<lambda>c. starts_with_name env message ''collection'' (cl_name c)) (sv_collections sv) of
           Some c \<Rightarrow> collection_path (cl_name c) | None \<Rightarrow> ''entities''))"

definition validate_declaration :: "rule_env \<Rightarrow> service_declaration \<Rightarrow> undeclared_field list \<Rightarrow> faults" where
  "validate_declaration env sv undeclared =
     \<lparr>fs_undeclared = undeclared_faults undeclared,
      fs_service =
        only_if (\<not> valid_base_path (sv_base_path sv)) (fault ''service'' ''base-path'' ''base_path'' (sv_base_path sv) []) @
        validate_convention_overrides (sv_overrides sv) @ validate_archetype (sv_archetype sv),
      fs_entities =
        validate_field_types env (sv_entities sv) @ validate_field_defaults env (sv_entities sv) @
        map (\<lambda>m. fault ''field-type'' ''versioned-metadata'' (locate env sv m) '''' [])
          (validate_versioned env (sv_entities sv) (sv_collections sv)),
      fs_collections =
        map (\<lambda>m. fault ''field-type'' ''unique-when-live'' (locate env sv m) '''' [])
          (validate_live_unique env (sv_entities sv) (sv_collections sv)) @
        validate_collection_references (sv_collections sv) (sv_entities sv) @
        validate_collection_ops (sv_collections sv) @ validate_mixin_uniqueness (sv_mixins sv),
      fs_slots =
        validate_slot_binding_collections (sv_slots sv) (sv_collections sv) @
        validate_slot_binding_short_circuit (sv_slots sv) @
        validate_slot_binding_operator_presence (sv_slots sv) undeclared @
        validate_slot_binding_operator_exclusivity (sv_slots sv) @
        validate_slot_binding_fill_uniqueness (sv_slots sv) @
        validate_slot_binding_uniqueness_collect (sv_slots sv)\<rparr>"

subsection \<open>What the check accepts\<close>

definition well_formed_slot :: "collection list \<Rightarrow> slot_declaration \<Rightarrow> bool" where
  "well_formed_slot cs sb \<longleftrightarrow>
     (sd_collection sb = '''' \<or> sd_collection sb \<in> cl_name ` set cs) \<and>
     (sd_short_circuit sb \<longrightarrow> sd_chain sb \<noteq> []) \<and> length (operators_of sb) = 1 \<and>
     distinct (sd_gate sb) \<and> distinct (sd_chain sb) \<and> distinct (sd_fan_out sb)"

definition well_formed_slots :: "collection list \<Rightarrow> slot_declaration list \<Rightarrow> bool" where
  "well_formed_slots cs slots \<longleftrightarrow> list_all (well_formed_slot cs) slots \<and> distinct (concat (map binding_keys slots))"

definition well_formed_declaration :: "rule_env \<Rightarrow> service_declaration \<Rightarrow> bool" where
  "well_formed_declaration env sv \<longleftrightarrow>
     valid_base_path (sv_base_path sv) \<and> sv_archetype sv \<noteq> '''' \<and>
     map_of (sv_overrides sv) ''cors'' \<in> {None, Some (AnyString ''enabled''), Some (AnyString ''disabled'')} \<and>
     well_typed_entities env (sv_entities sv) \<and>
     (\<forall>e \<in> set (sv_entities sv). \<forall>f \<in> set (en_fields e). fd_default f \<noteq> AnyNil \<longrightarrow> default_suits env f) \<and>
     (\<forall>e \<in> set (sv_entities sv). versioned_entity env e) \<and>
     (\<forall>c \<in> set (sv_collections sv). spares_observations (sv_entities sv) c) \<and>
     live_unique_in_order (sv_entities sv) (sv_collections sv) \<and>
     well_formed_collections (sv_entities sv) (sv_collections sv) \<and> distinct (sv_mixins sv) \<and>
     well_formed_slots (sv_collections sv) (sv_slots sv)"

lemma distinct_operators [simp]: "distinct (operators_of sb)"
  by (simp add: operators_of_def)

lemma distinct_binding_keys [simp]: "distinct (binding_keys sb)"
  by (simp add: binding_keys_def distinct_map inj_on_def)

lemma binding_key_faults_Nil:
  "binding_key_faults seen si slots = [] \<longleftrightarrow>
     distinct (concat (map binding_keys slots)) \<and> set (concat (map binding_keys slots)) \<inter> set seen = {}"
proof (induction slots arbitrary: seen si)
  case (Cons sb slots)
  have "concat (map (\<lambda>(slot, collection, operator). only_if ((slot, collection, operator) \<in> set seen)
       (m operator)) (binding_keys sb)) = [] \<longleftrightarrow> set (binding_keys sb) \<inter> set seen = {}" for m :: "string \<Rightarrow> fault"
    unfolding collect_Nil by auto
  then show ?case by (auto simp: Cons.IH)
qed simp

lemma fill_uniqueness_Nil:
  "validate_slot_binding_fill_uniqueness slots = [] \<longleftrightarrow>
     (\<forall>sb \<in> set slots. distinct (sd_gate sb) \<and> distinct (sd_chain sb) \<and> distinct (sd_fan_out sb))"
proof -
  have "each (\<lambda>_ fill seen. only_if seen (m fill)) fills = [] \<longleftrightarrow> distinct fills \<and> (\<forall>fill \<in> set fills. True)"
    for m :: "string \<Rightarrow> fault" and fills
    by (rule each_seen_Nil) simp
  then show ?thesis
    unfolding validate_slot_binding_fill_uniqueness_def by (intro each_unseen_Nil) simp
qed

lemma slots_Nil:
  "validate_slot_binding_collections slots cs = [] \<and> validate_slot_binding_short_circuit slots = [] \<and>
   validate_slot_binding_operator_presence slots [] = [] \<and> validate_slot_binding_operator_exclusivity slots = [] \<and>
   validate_slot_binding_fill_uniqueness slots = [] \<and> validate_slot_binding_uniqueness_collect slots = [] \<longleftrightarrow>
     well_formed_slots cs slots"
proof -
  have c: "validate_slot_binding_collections slots cs = [] \<longleftrightarrow>
      (\<forall>sb \<in> set slots. sd_collection sb = '''' \<or> sd_collection sb \<in> cl_name ` set cs)"
    unfolding validate_slot_binding_collections_def by (rule each_unseen_Nil) auto
  have s: "validate_slot_binding_short_circuit slots = [] \<longleftrightarrow> (\<forall>sb \<in> set slots. sd_short_circuit sb \<longrightarrow> sd_chain sb \<noteq> [])"
    unfolding validate_slot_binding_short_circuit_def by (rule each_unseen_Nil) auto
  have p: "validate_slot_binding_operator_presence slots [] = [] \<longleftrightarrow> (\<forall>sb \<in> set slots. operators_of sb \<noteq> [])"
    unfolding validate_slot_binding_operator_presence_def
    by (rule each_unseen_Nil) (auto simp: operators_of_def unknown_operators_def map_filter_simps)
  have x: "validate_slot_binding_operator_exclusivity slots = [] \<longleftrightarrow> (\<forall>sb \<in> set slots. length (operators_of sb) \<le> 1)"
    unfolding validate_slot_binding_operator_exclusivity_def by (rule each_unseen_Nil) auto
  have one: "operators_of sb \<noteq> [] \<and> length (operators_of sb) \<le> 1 \<longleftrightarrow> length (operators_of sb) = 1" for sb
    by (cases "operators_of sb") auto
  show ?thesis
    unfolding well_formed_slots_def well_formed_slot_def list_all_iff one [symmetric] c s p x fill_uniqueness_Nil
      validate_slot_binding_uniqueness_collect_def binding_key_faults_Nil by auto
qed

lemma mixins_Nil: "validate_mixin_uniqueness mixins = [] \<longleftrightarrow> distinct mixins"
  unfolding validate_mixin_uniqueness_def by (subst each_seen_Nil [where P = "\<lambda>_. True"]) simp_all

lemma declaration_Nil:
  "all_faults (validate_declaration env sv undeclared) = [] \<longleftrightarrow> undeclared = [] \<and> well_formed_declaration env sv"
proof (cases "undeclared = [] \<and> well_typed_entities env (sv_entities sv)")
  case True
  then have names: "distinct (map en_name (sv_entities sv))" "\<forall>e \<in> set (sv_entities sv). distinct (map fd_name (en_fields e))"
    by (simp_all add: well_typed_entities_def)
  show ?thesis
    using True unfolding well_formed_declaration_def
      collections_Nil [OF names, of "sv_collections sv", symmetric] slots_Nil [symmetric]
    by (simp add: all_faults_def validate_declaration_def convention_overrides_Nil validate_archetype_def
        field_types_Nil field_defaults_Nil versioned_Nil live_unique_Nil mixins_Nil, argo)
next
  case False
  then show ?thesis
    by (auto simp: all_faults_def validate_declaration_def well_formed_declaration_def field_types_Nil)
qed

text \<open>C5. The check of a declaration finds no fault exactly in a well-formed declaration: names do not
  repeat, every reference resolves (fields, entities, collections), constraints and defaults fit the
  field types, versioned entities and live keys are in order, each operation has what it needs, and
  each slot binding composes distinct fills with exactly one operator.\<close>

theorem declaration_accepts_iff:
  "all_faults (validate_declaration env sv undeclared) = [] \<longleftrightarrow> undeclared = [] \<and> well_formed_declaration env sv"
  by (rule declaration_Nil)

end
