(* ===== verification/Declaration_Laws.thy ===== *)
theory Declaration_Laws
  imports Slot_Rules
begin

text \<open>
  What an accepted declaration guarantees: who writes a field of an entity. With a concrete declaration
  that the check accepts.
\<close>

subsection \<open>A field has one writer\<close>

text \<open>The parties that a declaration names as writers of a field: the client, through an upsert key or
  a patch; an observer, through its observation group; and the fill that computes it.\<close>

datatype writer = Client | Observer string | Fill string

definition writers :: "service_declaration \<Rightarrow> entity \<Rightarrow> string \<Rightarrow> writer set" where
  "writers sv e name =
     {Client | c. c \<in> set (sv_collections sv) \<and> cl_entity c = en_name e \<and> name \<in> set (cl_upsert_key c @ cl_patchable c)} \<union>
     {Observer owner | owner. name \<in> set (owned_names (en_observations e) owner)} \<union>
     {Fill (fd_filled_by f) | f. f \<in> set (en_fields e) \<and> fd_name f = name \<and> fd_computed f}"

lemma concat_owner_unique:
  assumes "distinct (concat (map f owners))" "distinct owners" "o1 \<in> set owners" "o2 \<in> set owners" "x \<in> set (f o1)" "x \<in> set (f o2)"
  shows "o1 = o2"
  using assms by (induction owners) auto

lemma owned_key: "name \<in> set (owned_names m owner) \<Longrightarrow> owner \<in> set (sorted_keys m)"
  by (cases "map_of m owner") (auto simp: owned_names_def sorted_keys_dom dom_def simp del: set_sorted_keys)

lemma one_observer:
  assumes "distinct (observed_names e)" "name \<in> set (owned_names (en_observations e) o1)"
    "name \<in> set (owned_names (en_observations e) o2)"
  shows "o1 = o2"
  using concat_owner_unique [OF assms(1) [unfolded observed_names_def] _ owned_key owned_key assms(2,3)] assms(2,3) by simp

lemma observed_entity:
  assumes "versioned_entity env e" "name \<in> set (owned_names (en_observations e) owner)"
  shows "versions_in_order env e" "name \<in> set (observed_names e)"
proof -
  have "owner \<in> set (sorted_keys (en_observations e))" by (rule owned_key [OF assms(2)])
  then show "name \<in> set (observed_names e)" using assms(2) by (auto simp: observed_names_def)
  have "en_observations e \<noteq> []" using assms(2) by (auto simp: owned_names_def)
  then show "versions_in_order env e" using assms(1) by (auto simp: versioned_entity_def has_version_metadata_def)
qed

text \<open>C6. In a declaration without faults each field of an entity has at most one writer: a client does
  not write what an observer reports or a fill computes, and two observers do not share a field.\<close>

theorem field_has_one_writer:
  assumes ok: "all_faults (validate_declaration env sv undeclared) = []" and e: "e \<in> set (sv_entities sv)"
    and "v \<in> writers sv e name" "w \<in> writers sv e name"
  shows "v = w"
proof -
  have typed: "well_typed_entities env (sv_entities sv)"
    using ok by (simp add: all_faults_def validate_declaration_def field_types_Nil)
  then have names: "distinct (map en_name (sv_entities sv))"
    and fields: "\<forall>e \<in> set (sv_entities sv). distinct (map fd_name (en_fields e))" by (simp_all add: well_typed_entities_def)
  have v: "versioned_entity env e" and s: "\<And>c. c \<in> set (sv_collections sv) \<Longrightarrow> spares_observations (sv_entities sv) c"
    using ok e by (simp_all add: all_faults_def validate_declaration_def versioned_Nil)
  have coll: "\<exists>e' \<in> set (sv_entities sv). collection_over (sv_entities sv) e' c" if "c \<in> set (sv_collections sv)" for c
    using ok collections_Nil [OF names fields, of "sv_collections sv"] that
    by (simp add: all_faults_def validate_declaration_def well_formed_collections_def)
  have d: "distinct (map fd_name (en_fields e))" using fields e by blast
  have client: "(\<exists>f \<in> set (en_fields e). fd_name f = name \<and> \<not> fd_computed f) \<and> name \<notin> set (observed_names e)"
    if "c \<in> set (sv_collections sv)" "cl_entity c = en_name e" "name \<in> set (cl_upsert_key c @ cl_patchable c)" for c
  proof -
    note c = that
    obtain e' where e': "e' \<in> set (sv_entities sv)" "collection_over (sv_entities sv) e' c" using coll [OF c(1)] by blast
    then have "e' = e" using names e c(2) by (auto simp: collection_over_def distinct_map dest: inj_onD)
    then show ?thesis
      using e'(2) c s [OF c(1)] named_entity(1) [OF names e]
      by (auto simp: collection_over_def writable_field_def spares_observations_def)
  qed
  have observer: "\<exists>f \<in> set (en_fields e). fd_name f = name \<and> \<not> fd_computed f"
    if "name \<in> set (owned_names (en_observations e) owner)" for owner
    using observed_entity [OF v that] named_field [OF d]
    by (fastforce simp: versions_in_order_def observation_candidate_def split: option.splits)
  have shared: "o1 = o2" if "name \<in> set (owned_names (en_observations e) o1)" "name \<in> set (owned_names (en_observations e) o2)" for o1 o2
    using observed_entity(1) [OF v that(1)] one_observer [OF _ that] by (simp add: versions_in_order_def)
  have one: "f = g" if "f \<in> set (en_fields e)" "g \<in> set (en_fields e)" "fd_name f = name" "fd_name g = name" for f g
    using one_field [OF d] that by blast
  show ?thesis
    using assms(3,4) client observer shared observed_entity(2) [OF v] one unfolding writers_def by blast
qed

subsection \<open>A declaration that is accepted\<close>

definition plain_field :: "string \<Rightarrow> string \<Rightarrow> field" where
  "plain_field name type =
     \<lparr>fd_name = name, fd_type = type, fd_min_length = None, fd_max_length = None, fd_pattern = '''', fd_min = None,
      fd_max = None, fd_unique = False, fd_unique_composite = [], fd_unique_when_live = False, fd_optional = False,
      fd_default = AnyNil, fd_values = [], fd_computed = False, fd_filled_by = '''', fd_to = '''',
      fd_unobserved = None, fd_deleting = None\<rparr>"

definition cluster_entity :: entity where
  "cluster_entity =
     \<lparr>en_name = ''Cluster'',
      en_fields = [plain_field ''name'' ''string'', (plain_field ''size'' ''int32'')\<lparr>fd_default := AnyInt 3\<rparr>,
        (plain_field ''phase'' ''string'')\<lparr>fd_optional := True, fd_unobserved := Some ''unknown''\<rparr>,
        (plain_field ''owner'' ''ref'')\<lparr>fd_to := ''Team''\<rparr>],
      en_versioned = True, en_generation_fields = [''size''], en_observations = [(''controller'', [''phase''])],
      en_conditions = [(''controller'', [''Ready''])], en_cleanup_targets = [(''controller'', ''name'')],
      en_cleanup_owners = [''controller'']\<rparr>"

definition team_entity :: entity where
  "team_entity =
     \<lparr>en_name = ''Team'', en_fields = [(plain_field ''name'' ''string'')\<lparr>fd_unique := True, fd_unique_when_live := True\<rparr>],
      en_versioned = False, en_generation_fields = [], en_observations = [], en_conditions = [],
      en_cleanup_targets = [], en_cleanup_owners = []\<rparr>"

definition clusters :: collection where
  "clusters =
     \<lparr>cl_name = ''clusters'', cl_entity = ''Cluster'', cl_operations = [''create'', ''read'', ''patch''],
      cl_scope = [(''owner'', ''Team'')], cl_implicit = [], cl_path_prefix = '''', cl_upsert_key = [],
      cl_concurrency = '''', cl_patchable = [''size'']\<rparr>"

definition cluster_service :: service_declaration where
  "cluster_service =
     \<lparr>sv_component_namespaces = [], sv_kind = ''service'', sv_name = ''clusters'', sv_archetype = ''rest-crud'',
      sv_language = ''go'', sv_base_path = ''/api/v1'', sv_error_type_base = '''',
      sv_entities = [cluster_entity, team_entity], sv_collections = [clusters],
      sv_slots = [\<lparr>sd_slot = ''before_create'', sd_collection = ''clusters'', sd_gate = [''quota'', ''policy''],
        sd_chain = [], sd_fan_out = [], sd_short_circuit = False\<rparr>],
      sv_mixins = [], sv_overrides = [(''cors'', AnyString ''enabled'')], sv_fill_modules = []\<rparr>"

definition sample_rules :: rule_env where
  "sample_rules = \<lparr>re_compiles = \<lambda>_. True, re_matches = \<lambda>_ _. True, re_finite = \<lambda>_. True, re_greater = \<lambda>_ _. False,
     re_quote = \<lambda>s. CHR 0x22 # s @ [CHR 0x22], re_lower = lower_ascii\<rparr>"

lemma cluster_service_accepted: "all_faults (validate_declaration sample_rules cluster_service []) = []"
  by code_simp

lemma field_has_one_writer_witness:
  "Observer ''controller'' \<in> writers cluster_service cluster_entity ''phase'' \<and>
   Client \<notin> writers cluster_service cluster_entity ''phase'' \<and> Client \<in> writers cluster_service cluster_entity ''size''"
proof -
  have e: "cluster_entity \<in> set (sv_entities cluster_service)" by (simp add: cluster_service_def)
  have o: "Observer ''controller'' \<in> writers cluster_service cluster_entity ''phase''"
    by (simp add: writers_def owned_names_def cluster_entity_def)
  have "Client \<in> writers cluster_service cluster_entity ''size''"
    by (simp add: writers_def cluster_service_def clusters_def cluster_entity_def)
  then show ?thesis using o field_has_one_writer [OF cluster_service_accepted e o] by blast
qed

end
