(* ===== verification/Settings.thy ===== *)
theory Settings
  imports Slot_Rules
begin

text \<open>
  \<open>internal/declaration/settings.go\<close> and \<open>internal/compiler/config.go\<close>: the settings that a
  declaration gives a component against the schema of the component, and the defaults of the schema
  itself. A schema and a value are both trees: a list has a schema for its items, which is a single
  field or a map of named fields. Whether a number's text is finite is the argument \<open>re_finite\<close>.
\<close>

definition config_error :: "string \<Rightarrow> string \<Rightarrow> string list \<Rightarrow> fault" where
  "config_error path found allowed = fault ''config'' ''config'' path found allowed"

definition setting_type :: "config_field \<Rightarrow> string" where
  "setting_type f = (if cf_type f = '''' \<and> cf_enum f \<noteq> [] then ''string'' else cf_type f)"

definition setting_types :: "string list" where
  "setting_types = [''string'', ''entity-ref'', ''field-ref'', ''bool'', ''int'', ''float'', ''number'', ''list'']"

definition has_setting_type :: "rule_env \<Rightarrow> string \<Rightarrow> any_value \<Rightarrow> bool" where
  "has_setting_type env t v =
     (if t \<in> {''string'', ''entity-ref'', ''field-ref''} then (case v of AnyString _ \<Rightarrow> True | _ \<Rightarrow> False)
      else if t = ''bool'' then (case v of AnyBool _ \<Rightarrow> True | _ \<Rightarrow> False)
      else if t = ''int'' then (case v of AnyInt _ \<Rightarrow> True | _ \<Rightarrow> False)
      else if t \<in> {''float'', ''number''}
      then (case v of AnyFloat s \<Rightarrow> re_finite env s | AnyInt _ \<Rightarrow> True | _ \<Rightarrow> False)
      else (case v of AnyList _ \<Rightarrow> True | _ \<Rightarrow> False))"

definition in_enum :: "config_field \<Rightarrow> any_value \<Rightarrow> bool" where
  "in_enum f v \<longleftrightarrow> (case v of AnyString s \<Rightarrow> s \<in> set (cf_enum f) | _ \<Rightarrow> False)"

definition list_items :: "any_value \<Rightarrow> any_value list" where
  "list_items v = (case v of AnyList vs \<Rightarrow> vs | _ \<Rightarrow> [])"

text \<open>The faults that the value alone has, before its items are read: at most one.\<close>

definition setting_fault :: "rule_env \<Rightarrow> string \<Rightarrow> any_value \<Rightarrow> config_field \<Rightarrow> fault list" where
  "setting_fault env path v f =
     (if v = AnyNil \<or> setting_type f \<notin> set setting_types then [config_error path '''' []]
      else if \<not> has_setting_type env (setting_type f) v then [config_error path (any_text v) [setting_type f]]
      else only_if (cf_enum f \<noteq> [] \<and> \<not> in_enum f v) (config_error path (any_text v) (cf_enum f)))"

definition missing_settings :: "string \<Rightarrow> any_value gomap \<Rightarrow> config_field gomap \<Rightarrow> fault list" where
  "missing_settings path given schema =
     concat (map (\<lambda>key. case map_of schema key of
         None \<Rightarrow> []
       | Some f \<Rightarrow> only_if (map_of given key = None \<and> \<not> cf_optional f \<and> cf_default f = AnyNil)
                    (config_error (path @ ''.'' @ key) '''' []))
       (sorted_keys schema))"

lemma size_map_of: "map_of m k = Some v \<Longrightarrow> size v < size (AnyMap m)"
  by (induction m) (auto split: if_splits)

lemma size_list_items: "v \<in> set (list_items w) \<Longrightarrow> size v < size w"
  by (cases w) (auto simp: list_items_def less_Suc_eq_le intro: size_list_estimation')

lemma size_list_item:
  "i < length (list_items w) \<Longrightarrow> size (list_items w ! i) < size w"
  "i < length (list_items w) \<Longrightarrow> AnyMap m = list_items w ! i \<Longrightarrow>
     Suc (size_list (size_prod (\<lambda>x. 0) size) m) < size w"
proof -
  show *: "size (list_items w ! i) < size w" if "i < length (list_items w)"
    using size_list_items [OF nth_mem] that by blast
  show "Suc (size_list (size_prod (\<lambda>x. 0) size) m) < size w"
    if "i < length (list_items w)" "AnyMap m = list_items w ! i"
    using * [OF that(1)] by (simp add: that(2) [symmetric])
qed

function validate_setting_value :: "rule_env \<Rightarrow> string \<Rightarrow> any_value \<Rightarrow> config_field \<Rightarrow> fault list"
  and validate_settings :: "rule_env \<Rightarrow> string \<Rightarrow> any_value gomap \<Rightarrow> config_field gomap \<Rightarrow> bool \<Rightarrow> fault list"
where
  "validate_setting_value env path v f =
     (if setting_fault env path v f \<noteq> [] then setting_fault env path v f
      else if setting_type f \<noteq> ''list'' then []
      else (case cf_items f of
          None \<Rightarrow> []
        | Some items \<Rightarrow>
          concat (map (\<lambda>i. let item = list_items v ! i; item_path = index_text path i in
              case (ci_fields items, ci_inline items) of
                (Some named, _) \<Rightarrow>
                  (case item of
                     AnyMap object \<Rightarrow> validate_settings env item_path object named True
                   | _ \<Rightarrow> [config_error item_path '''' []])
              | (None, Some inline) \<Rightarrow> validate_setting_value env item_path item inline
              | (None, None) \<Rightarrow> [])
            [0..<length (list_items v)])))"
| "validate_settings env path given schema required =
     concat (map (\<lambda>key. case map_of given key of
         None \<Rightarrow> []
       | Some v \<Rightarrow>
         (case map_of schema key of
            None \<Rightarrow> [config_error (path @ ''.'' @ key) key (sorted_keys schema)]
          | Some f \<Rightarrow> validate_setting_value env (path @ ''.'' @ key) v f))
       (sorted_keys given)) @
     (if required then missing_settings path given schema else [])"
  by pat_completeness auto
termination
  by (relation "measure (\<lambda>x. case x of Inl (env, path, v, f) \<Rightarrow> size v
      | Inr (env, path, given, schema, required) \<Rightarrow> size (AnyMap given))")
    (auto dest: size_map_of intro: size_list_item)

text \<open>What the schema promises about a value, without the paths and the order of the checks.\<close>

definition scalar_suits :: "rule_env \<Rightarrow> config_field \<Rightarrow> any_value \<Rightarrow> bool" where
  "scalar_suits env f v \<longleftrightarrow>
     v \<noteq> AnyNil \<and> setting_type f \<in> set setting_types \<and> has_setting_type env (setting_type f) v \<and>
     (cf_enum f \<noteq> [] \<longrightarrow> (\<exists>s. v = AnyString s \<and> s \<in> set (cf_enum f)))"

definition required_present :: "config_field gomap \<Rightarrow> any_value gomap \<Rightarrow> bool" where
  "required_present schema given \<longleftrightarrow>
     (\<forall>key f. map_of schema key = Some f \<and> \<not> cf_optional f \<and> cf_default f = AnyNil \<longrightarrow> map_of given key \<noteq> None)"

inductive suits :: "rule_env \<Rightarrow> config_field \<Rightarrow> any_value \<Rightarrow> bool"
  and settings_suit :: "rule_env \<Rightarrow> config_field gomap \<Rightarrow> any_value gomap \<Rightarrow> bool"
  for env :: rule_env
where
  plain: "scalar_suits env f v \<Longrightarrow> setting_type f \<noteq> ''list'' \<Longrightarrow> suits env f v"
| any_list: "scalar_suits env f v \<Longrightarrow> setting_type f = ''list'' \<Longrightarrow>
     cf_items f = None \<or> cf_items f = Some (Config_Items None None) \<Longrightarrow> suits env f v"
| list_of: "scalar_suits env f (AnyList vs) \<Longrightarrow> setting_type f = ''list'' \<Longrightarrow>
     cf_items f = Some (Config_Items None (Some inline)) \<Longrightarrow>
     (\<And>v. v \<in> set vs \<Longrightarrow> suits env inline v) \<Longrightarrow> suits env f (AnyList vs)"
| list_of_maps: "scalar_suits env f (AnyList vs) \<Longrightarrow> setting_type f = ''list'' \<Longrightarrow>
     cf_items f = Some (Config_Items (Some named) inline) \<Longrightarrow>
     (\<And>v. v \<in> set vs \<Longrightarrow> \<exists>object. v = AnyMap object \<and> settings_suit env named object \<and> required_present named object) \<Longrightarrow>
     suits env f (AnyList vs)"
| settings: "(\<And>key v. map_of given key = Some v \<Longrightarrow> \<exists>f. map_of schema key = Some f \<and> suits env f v) \<Longrightarrow>
     settings_suit env schema given"

inductive_simps settings_suit_iff: "settings_suit env schema given"
inductive_cases suitsE: "suits env f v"

lemma setting_fault_Nil: "setting_fault env path v f = [] \<longleftrightarrow> scalar_suits env f v"
  by (auto simp: setting_fault_def scalar_suits_def in_enum_def split: any_value.splits)

lemma missing_settings_Nil: "missing_settings path given schema = [] \<longleftrightarrow> required_present schema given"
  unfolding missing_settings_def collect_Nil required_present_def
  by (auto simp: dom_map_of_conv_image_fst [symmetric] sorted_keys_dom simp del: set_sorted_keys split: option.splits)

lemma list_value: "scalar_suits env f v \<Longrightarrow> setting_type f = ''list'' \<Longrightarrow> \<exists>vs. v = AnyList vs"
  by (auto simp: scalar_suits_def has_setting_type_def split: any_value.splits)

declare validate_setting_value.simps [simp del] validate_settings.simps [simp del]

definition items_suit :: "rule_env \<Rightarrow> config_items \<Rightarrow> any_value \<Rightarrow> bool" where
  "items_suit env items v \<longleftrightarrow>
     (case items of
        Config_Items (Some named) _ \<Rightarrow>
          \<exists>object. v = AnyMap object \<and> settings_suit env named object \<and> required_present named object
      | Config_Items None (Some inline) \<Rightarrow> suits env inline v
      | Config_Items None None \<Rightarrow> True)"

lemma suits_iff:
  "suits env f v \<longleftrightarrow> scalar_suits env f v \<and>
     (setting_type f = ''list'' \<longrightarrow>
       (case cf_items f of None \<Rightarrow> True | Some items \<Rightarrow> \<forall>item \<in> set (list_items v). items_suit env items item))"
  (is "?l \<longleftrightarrow> ?r")
proof
  assume ?l
  then show ?r by (cases rule: suitsE) (auto simp: list_items_def items_suit_def)
next
  assume r: ?r
  show ?l
  proof (cases "setting_type f = ''list''")
    case True
    then obtain vs where v: "v = AnyList vs" using r list_value by blast
    consider (free) "cf_items f = None \<or> cf_items f = Some (Config_Items None None)"
      | (inline) inline where "cf_items f = Some (Config_Items None (Some inline))"
      | (named) named inline where "cf_items f = Some (Config_Items (Some named) inline)"
      by (metis config_items.exhaust option.exhaust)
    then show ?thesis
      using r True unfolding v
      by cases (auto simp: list_items_def items_suit_def intro: any_list list_of list_of_maps)
  qed (use r plain in blast)
qed

lemma settings_Nil_iff:
  "validate_setting_value env path v f = [] \<longleftrightarrow> suits env f v"
  "validate_settings env path' given schema required = [] \<longleftrightarrow>
     settings_suit env schema given \<and> (required \<longrightarrow> required_present schema given)"
proof (induction env path v f and env path' given schema required
    rule: validate_setting_value_validate_settings.induct)
  case (1 env path v f)
  show ?case
  proof (cases "scalar_suits env f v \<and> setting_type f = ''list''")
    case True
    have "(case (ci_fields items, ci_inline items) of
            (Some named, _) \<Rightarrow>
              (case list_items v ! i of
                 AnyMap object \<Rightarrow> validate_settings env (index_text path i) object named True
               | _ \<Rightarrow> [config_error (index_text path i) '''' []])
          | (None, Some inline) \<Rightarrow> validate_setting_value env (index_text path i) (list_items v ! i) inline
          | (None, None) \<Rightarrow> []) = [] \<longleftrightarrow> items_suit env items (list_items v ! i)"
      if "cf_items f = Some items" "i < length (list_items v)" for items i
      using True that 1 by (cases items) (auto simp: setting_fault_Nil items_suit_def split: option.splits any_value.splits)
    with True show ?thesis
      unfolding suits_iff [of env f v] validate_setting_value.simps [of env path v f]
      by (auto simp: setting_fault_Nil collect_Nil all_set_conv_all_nth Let_def split: option.splits)
  qed (auto simp: suits_iff [of env f v] validate_setting_value.simps [of env path v f] setting_fault_Nil)
next
  case (2 env path given schema required)
  have "(case map_of given key of None \<Rightarrow> []
          | Some v \<Rightarrow> (case map_of schema key of
              None \<Rightarrow> [config_error (path @ ''.'' @ key) key (sorted_keys schema)]
            | Some f \<Rightarrow> validate_setting_value env (path @ ''.'' @ key) v f)) = [] \<longleftrightarrow>
      (\<forall>v. map_of given key = Some v \<longrightarrow> (\<exists>f. map_of schema key = Some f \<and> suits env f v))"
    if "key \<in> set (sorted_keys given)" for key
    using 2 that by (auto split: option.splits)
  then show ?case
    unfolding validate_settings.simps settings_suit_iff append_is_Nil_conv collect_Nil
    by (auto simp: missing_settings_Nil simp del: set_sorted_keys dest: map_of_Some_sorted_keys)
qed

subsection \<open>The settings of the active components\<close>

definition override_config_faults ::
    "rule_env \<Rightarrow> component gomap \<Rightarrow> string \<Rightarrow> any_value \<Rightarrow> fault list" where
  "override_config_faults env components name v =
     (let path = ''overrides.'' @ name in
      if is_convention_override_key name then []
      else case v of
          AnyString _ \<Rightarrow> []
        | AnyMap config \<Rightarrow>
          (case map_of components name of
             None \<Rightarrow> [config_error path '''' []]
           | Some c \<Rightarrow> validate_settings env path config (comp_config c) False)
        | _ \<Rightarrow> [config_error path '''' []])"

definition schema_default_faults :: "rule_env \<Rightarrow> string \<Rightarrow> component \<Rightarrow> fault list" where
  "schema_default_faults env name c =
     concat (map (\<lambda>key. case map_of (comp_config c) key of
         None \<Rightarrow> []
       | Some f \<Rightarrow>
         if cf_default f = AnyNil then []
         else validate_setting_value env (''components.'' @ name @ ''.config.'' @ key @ ''.default'') (cf_default f) f)
       (sorted_keys (comp_config c)))"

definition validate_component_config ::
    "rule_env \<Rightarrow> any_value gomap \<Rightarrow> component gomap \<Rightarrow> fault list" where
  "validate_component_config env overrides components =
     concat (map (\<lambda>name. case map_of overrides name of
         None \<Rightarrow> [] | Some v \<Rightarrow> override_config_faults env components name v) (sorted_keys overrides)) @
     concat (map (\<lambda>name. case map_of components name of
         None \<Rightarrow> [] | Some c \<Rightarrow> schema_default_faults env name c) (sorted_keys components))"

text \<open>\<open>resolveComponentConfig\<close>: what a generator is given. A setting of the declaration wins over the
  schema's default.\<close>

definition schema_defaults :: "component \<Rightarrow> any_value gomap" where
  "schema_defaults c =
     concat (map (\<lambda>key. case map_of (comp_config c) key of
         None \<Rightarrow> [] | Some f \<Rightarrow> if cf_default f = AnyNil then [] else [(key, cf_default f)])
       (sorted_keys (comp_config c)))"

definition resolve_component_config :: "component \<Rightarrow> any_value gomap \<Rightarrow> any_value gomap" where
  "resolve_component_config c overrides =
     (case map_of overrides (comp_name c) of
        Some (AnyMap m) \<Rightarrow> m @ schema_defaults c
      | _ \<Rightarrow> schema_defaults c)"

text \<open>What the check promises: the declared settings and the schema defaults suit the schema.\<close>

definition override_in_order :: "rule_env \<Rightarrow> component gomap \<Rightarrow> string \<Rightarrow> any_value \<Rightarrow> bool" where
  "override_in_order env components name v \<longleftrightarrow>
     is_convention_override_key name \<or> (\<exists>s. v = AnyString s) \<or>
     (\<exists>config c. v = AnyMap config \<and> map_of components name = Some c \<and> settings_suit env (comp_config c) config)"

definition defaults_in_order :: "rule_env \<Rightarrow> component \<Rightarrow> bool" where
  "defaults_in_order env c \<longleftrightarrow>
     (\<forall>key f. map_of (comp_config c) key = Some f \<longrightarrow> cf_default f \<noteq> AnyNil \<longrightarrow> suits env f (cf_default f))"

lemma over_keys_Nil:
  "concat (map (\<lambda>key. case map_of m key of None \<Rightarrow> [] | Some v \<Rightarrow> body key v) (sorted_keys m)) = [] \<longleftrightarrow>
     (\<forall>key v. map_of m key = Some v \<longrightarrow> body key v = [])"
  unfolding collect_Nil by (auto simp del: set_sorted_keys dest: map_of_Some_sorted_keys split: option.splits)

lemma override_config_Nil:
  "override_config_faults env components name v = [] \<longleftrightarrow> override_in_order env components name v"
  by (auto simp: override_config_faults_def override_in_order_def settings_Nil_iff Let_def
    split: any_value.splits option.splits)

lemma schema_default_Nil: "schema_default_faults env name c = [] \<longleftrightarrow> defaults_in_order env c"
  unfolding schema_default_faults_def over_keys_Nil defaults_in_order_def by (auto simp: settings_Nil_iff)

lemma validate_component_config_Nil:
  "validate_component_config env overrides components = [] \<longleftrightarrow>
     (\<forall>name v. map_of overrides name = Some v \<longrightarrow> override_in_order env components name v) \<and>
     (\<forall>name c. map_of components name = Some c \<longrightarrow> defaults_in_order env c)"
  unfolding validate_component_config_def append_is_Nil_conv over_keys_Nil
  by (simp add: override_config_Nil schema_default_Nil)

lemma map_of_over_keys:
  "map_of (concat (map (\<lambda>key. case map_of m key of None \<Rightarrow> [] | Some v \<Rightarrow> if p v then [] else [(key, g v)]) ks)) key =
     (if key \<in> set ks then (case map_of m key of None \<Rightarrow> None | Some v \<Rightarrow> if p v then None else Some (g v)) else None)"
  by (induction ks) (auto split: option.splits)

lemma map_of_schema_defaults:
  "map_of (schema_defaults c) key =
     (case map_of (comp_config c) key of
        None \<Rightarrow> None | Some f \<Rightarrow> if cf_default f = AnyNil then None else Some (cf_default f))"
  unfolding schema_defaults_def map_of_over_keys
  by (auto simp del: set_sorted_keys dest: map_of_Some_sorted_keys split: option.splits)

text \<open>Every setting a generator is given suits the schema of its component.\<close>

lemma resolved_config_suits:
  assumes "validate_component_config env overrides components = []"
    and "map_of components (comp_name c) = Some c" and "\<not> is_convention_override_key (comp_name c)"
  shows "settings_suit env (comp_config c) (resolve_component_config c overrides)"
proof -
  have d: "defaults_in_order env c" using assms(1,2) unfolding validate_component_config_Nil by blast
  have "override_in_order env components (comp_name c) v" if "map_of overrides (comp_name c) = Some v" for v
    using assms(1) that unfolding validate_component_config_Nil by blast
  then have o: "settings_suit env (comp_config c) m" if "map_of overrides (comp_name c) = Some (AnyMap m)" for m
    using that assms(2,3) by (fastforce simp: override_in_order_def)
  show ?thesis
    unfolding settings_suit_iff
    using d o by (auto simp: resolve_component_config_def map_of_schema_defaults defaults_in_order_def settings_suit_iff
      split: option.splits any_value.splits if_splits)
qed

end
