(* ===== verification/Registry_Capture.thy ===== *)
theory Registry_Capture
  imports Settings Input_Manifest
begin

text \<open>
  \<open>internal/registry/snapshot.go\<close>: one bounded read of a registry folder, its digest, and the check that
  the folder still holds the same inputs. A folder is a tree of nodes in the order in which the operating
  system lists them; an entry whose metadata or content cannot be read is \<open>Unreadable\<close>. SHA-256 is an
  argument that gives the bytes of a sum.
\<close>

datatype node =
    Directory "(string \<times> node) list"
  | Regular string
  | Symlink
  | Special
  | Unreadable

record registry_file =
  rf_data :: string
  rf_hash :: string
  rf_size :: nat

record registry_snapshot =
  rs_dir :: string
  rs_files :: "registry_file gomap"
  rs_directories :: "string list"
  rs_hash :: string

datatype capture_error =
    RootNotDirectory
  | TooDeep
  | TooManyEntries
  | PathTooLong
  | InvalidEntryPath path_error
  | UnreadableEntry string
  | SymlinkEntry string
  | CategoryNotDirectory string
  | NotRegularEntry string
  | TooManyFiles
  | InputTooLarge string

definition max_registry_bytes :: nat where "max_registry_bytes = 64 * 2 ^ 20"
definition max_registry_files :: nat where "max_registry_files = 4096"
definition max_registry_sources :: nat where "max_registry_sources = 8"
definition max_registry_entries :: nat where "max_registry_entries = 16384"
definition max_registry_depth :: nat where "max_registry_depth = 16"
definition max_registry_document :: nat where "max_registry_document = 4 * 2 ^ 20"

text \<open>What a walk is given (\<open>captureRegistryBounded\<close>) and what it has seen.\<close>

record walk_config =
  wc_sum :: "string \<Rightarrow> string"
  wc_keep :: bool
  wc_bytes :: nat
  wc_files :: nat

record walked =
  wk_entries :: nat
  wk_total :: nat
  wk_files :: "registry_file gomap"
  wk_directories :: "string list"

definition registry_file_of :: "walk_config \<Rightarrow> string \<Rightarrow> registry_file" where
  "registry_file_of cfg data =
     \<lparr>rf_data = (if wc_keep cfg then data else ''''), rf_hash = wc_sum cfg data, rf_size = length data\<rparr>"

definition read_registry_file :: "walk_config \<Rightarrow> nat \<Rightarrow> string \<Rightarrow> registry_file option" where
  "read_registry_file cfg limit data =
     (if length data > limit then None else Some (registry_file_of cfg data))"

definition is_category :: "string \<Rightarrow> string \<Rightarrow> bool" where
  "is_category name relative \<longleftrightarrow> name = ''.'' \<and> relative \<in> {''components'', ''archetypes'', ''mixins''}"

definition is_input_name :: "string \<Rightarrow> bool" where
  "is_input_name relative \<longleftrightarrow> path_ext relative = ''.yaml'' \<or> path_ext relative = ''.proto''"

definition skipped_entry :: "string \<Rightarrow> string \<Rightarrow> bool" where
  "skipped_entry name entry \<longleftrightarrow> name = ''.'' \<and> entry = ''.git''"

text \<open>The guards that an entry passes before its kind is looked at.\<close>

definition entry_fault :: "string \<Rightarrow> node \<Rightarrow> string \<Rightarrow> capture_error option" where
  "entry_fault name n relative =
     (if length relative > 1024 then Some PathTooLong
      else case validate_path relative of
          Some e \<Rightarrow> Some (InvalidEntryPath e)
        | None \<Rightarrow>
          if n = Unreadable then Some (UnreadableEntry relative)
          else if n = Symlink then Some (SymlinkEntry relative)
          else if is_category name relative \<and> (case n of Directory _ \<Rightarrow> False | _ \<Rightarrow> True)
          then Some (CategoryNotDirectory relative)
          else if n = Special then Some (NotRegularEntry relative)
          else None)"

definition add_file :: "walk_config \<Rightarrow> string \<Rightarrow> string \<Rightarrow> walked \<Rightarrow> (capture_error, walked) result" where
  "add_file cfg relative data w =
     (if \<not> is_input_name relative then Inr w
      else if length (wk_files w) \<ge> wc_files cfg then Inl TooManyFiles
      else case read_registry_file cfg (min max_registry_document (wc_bytes cfg - wk_total w)) data of
          None \<Rightarrow> Inl (InputTooLarge relative)
        | Some file \<Rightarrow> Inr (w\<lparr>wk_total := wk_total w + rf_size file, wk_files := wk_files w @ [(relative, file)]\<rparr>))"

fun walk :: "walk_config \<Rightarrow> string \<Rightarrow> nat \<Rightarrow> node \<Rightarrow> walked \<Rightarrow> (capture_error, walked) result"
  and walk_entries :: "walk_config \<Rightarrow> string \<Rightarrow> nat \<Rightarrow> (string \<times> node) list \<Rightarrow> walked \<Rightarrow> (capture_error, walked) result"
where
  "walk cfg name depth (Directory entries) w =
     (if depth > max_registry_depth then Inl TooDeep else walk_entries cfg name depth entries w)"
| "walk cfg name depth n w = Inl RootNotDirectory"
| "walk_entries cfg name depth [] w = Inr w"
| "walk_entries cfg name depth ((entry, n) # rest) w =
     (let w = w\<lparr>wk_entries := wk_entries w + 1\<rparr>; relative = path_join [name, entry] in
      if wk_entries w > max_registry_entries then Inl TooManyEntries
      else if skipped_entry name entry then walk_entries cfg name depth rest w
      else after (entry_fault name n relative)
        (bind_result
           (case n of
              Directory _ \<Rightarrow> walk cfg relative (depth + 1) n (w\<lparr>wk_directories := wk_directories w @ [relative]\<rparr>)
            | Regular data \<Rightarrow> add_file cfg relative data w
            | _ \<Rightarrow> Inr w)
           (\<lambda>w. walk_entries cfg name depth rest w)))"

subsection \<open>The digest of the inputs\<close>

definition registry_prefix :: string where
  "registry_prefix = ''stego-registry-content-v1'' @ [CHR 0x00]"

definition registry_entry :: "string \<Rightarrow> registry_file \<Rightarrow> string" where
  "registry_entry name file = digest_field name @ be_bytes 8 (rf_size file) @ rf_hash file"

definition registry_bytes :: "registry_file gomap \<Rightarrow> string" where
  "registry_bytes files =
     registry_prefix @ concat (map (\<lambda>name. registry_entry name (the (map_of files name))) (sorted_keys files))"

definition hex_digit :: "nat \<Rightarrow> char" where
  "hex_digit n = ''0123456789abcdef'' ! (n mod 16)"

definition hex_text :: "string \<Rightarrow> string" where
  "hex_text s = concat (map (\<lambda>c. [hex_digit (of_char c div 16), hex_digit (of_char c)]) s)"

definition registry_digest :: "(string \<Rightarrow> string) \<Rightarrow> registry_file gomap \<Rightarrow> string" where
  "registry_digest sum256 files = hex_text (sum256 (registry_bytes files))"

definition unwalked :: walked where
  "unwalked = \<lparr>wk_entries = 0, wk_total = 0, wk_files = [], wk_directories = []\<rparr>"

definition capture_registry_bounded ::
    "walk_config \<Rightarrow> string \<Rightarrow> node \<Rightarrow> (capture_error, registry_snapshot) result" where
  "capture_registry_bounded cfg dir root =
     bind_result (walk cfg ''.'' 0 root unwalked)
       (\<lambda>w. Inr \<lparr>rs_dir = dir, rs_files = wk_files w, rs_directories = wk_directories w,
                 rs_hash = registry_digest (wc_sum cfg) (wk_files w)\<rparr>)"

definition capture_registry ::
    "(string \<Rightarrow> string) \<Rightarrow> bool \<Rightarrow> string \<Rightarrow> node \<Rightarrow> (capture_error, registry_snapshot) result" where
  "capture_registry sum256 keep dir root =
     capture_registry_bounded \<lparr>wc_sum = sum256, wc_keep = keep, wc_bytes = max_registry_bytes,
       wc_files = max_registry_files\<rparr> dir root"

definition capture_input_files ::
    "(string \<Rightarrow> string) \<Rightarrow> string \<Rightarrow> node \<Rightarrow> (capture_error, string gomap) result" where
  "capture_input_files sum256 dir root =
     bind_result (capture_registry sum256 True dir root)
       (\<lambda>s. Inr (map (\<lambda>(name, file). (name, rf_data file)) (rs_files s)))"

text \<open>\<open>Verify\<close>: every captured source is read again, and its digest and its folders are compared. The
  argument gives the folder that is on disk now under a name.\<close>

datatype verify_error = NoCapturedSource | RegistryUnreadable capture_error | RegistryChanged

definition source_changed :: "(string \<Rightarrow> string) \<Rightarrow> (string \<Rightarrow> node) \<Rightarrow> registry_snapshot \<Rightarrow> verify_error option" where
  "source_changed sum256 disk s =
     (case capture_registry sum256 False (rs_dir s) (disk (rs_dir s)) of
        Inl e \<Rightarrow> Some (RegistryUnreadable e)
      | Inr current \<Rightarrow>
        if rs_hash current \<noteq> rs_hash s \<or> set (rs_directories current) \<noteq> set (rs_directories s)
        then Some RegistryChanged else None)"

definition verify_captured :: "(string \<Rightarrow> string) \<Rightarrow> (string \<Rightarrow> node) \<Rightarrow> registry_snapshot list \<Rightarrow> verify_error option" where
  "verify_captured sum256 disk captured =
     (if captured = [] then Some NoCapturedSource else first_error (source_changed sum256 disk) captured)"

subsection \<open>What a captured folder holds\<close>

text \<open>The inputs of a tree: its YAML and protobuf files by their paths, and its folders.\<close>

fun tree_files :: "string \<Rightarrow> node \<Rightarrow> string gomap"
  and entries_files :: "string \<Rightarrow> (string \<times> node) list \<Rightarrow> string gomap"
where
  "tree_files name (Directory entries) = entries_files name entries"
| "tree_files name n = []"
| "entries_files name [] = []"
| "entries_files name ((entry, n) # rest) =
     (if skipped_entry name entry then []
      else case n of
          Directory _ \<Rightarrow> tree_files (path_join [name, entry]) n
        | Regular data \<Rightarrow>
          if is_input_name (path_join [name, entry]) then [(path_join [name, entry], data)] else []
        | _ \<Rightarrow> []) @ entries_files name rest"

fun tree_directories :: "string \<Rightarrow> node \<Rightarrow> string list"
  and entries_directories :: "string \<Rightarrow> (string \<times> node) list \<Rightarrow> string list"
where
  "tree_directories name (Directory entries) = entries_directories name entries"
| "tree_directories name n = []"
| "entries_directories name [] = []"
| "entries_directories name ((entry, n) # rest) =
     (if skipped_entry name entry then []
      else case n of
          Directory _ \<Rightarrow> path_join [name, entry] # tree_directories (path_join [name, entry]) n
        | _ \<Rightarrow> []) @ entries_directories name rest"

definition files_as :: "walk_config \<Rightarrow> string gomap \<Rightarrow> registry_file gomap" where
  "files_as cfg fs = map (\<lambda>(name, data). (name, registry_file_of cfg data)) fs"

lemma map_of_files_as: "map_of (files_as cfg fs) name = map_option (registry_file_of cfg) (map_of fs name)"
  by (simp add: files_as_def map_of_map)

lemma files_as_append [simp]: "files_as cfg (fs @ gs) = files_as cfg fs @ files_as cfg gs"
  by (simp add: files_as_def)

lemma files_as_simps [simp]: "files_as cfg [] = []"
    "files_as cfg ((name, data) # fs) = (name, registry_file_of cfg data) # files_as cfg fs"
  by (simp_all add: files_as_def)

lemma add_file_Inr:
  "add_file cfg relative data w = Inr w' \<longleftrightarrow>
     (if \<not> is_input_name relative then w' = w
      else length (wk_files w) < wc_files cfg \<and> length data \<le> min max_registry_document (wc_bytes cfg - wk_total w) \<and>
        w' = w\<lparr>wk_total := wk_total w + length data, wk_files := wk_files w @ [(relative, registry_file_of cfg data)]\<rparr>)"
  by (auto simp: add_file_def read_registry_file_def registry_file_of_def)

text \<open>A step of the walk that goes on: what it does with the entry, and the rest of the folder.\<close>

definition counted :: "walked \<Rightarrow> walked" where
  "counted w = w\<lparr>wk_entries := wk_entries w + 1\<rparr>"

lemma counted_simps [simp]: "wk_total (counted w) = wk_total w" "wk_files (counted w) = wk_files w"
    "wk_directories (counted w) = wk_directories w"
  by (simp_all add: counted_def)

lemma walk_entries_step:
  assumes "walk_entries cfg name depth ((entry, n) # rest) w = Inr w'"
  obtains (skipped) "skipped_entry name entry" "walk_entries cfg name depth rest (counted w) = Inr w'"
  | (folder) entries w1 where "\<not> skipped_entry name entry" "n = Directory entries"
      "entry_fault name n (path_join [name, entry]) = None"
      "walk cfg (path_join [name, entry]) (depth + 1) n
         (counted w\<lparr>wk_directories := wk_directories w @ [path_join [name, entry]]\<rparr>) = Inr w1"
      "walk_entries cfg name depth rest w1 = Inr w'"
  | (input) data w1 where "\<not> skipped_entry name entry" "n = Regular data"
      "entry_fault name n (path_join [name, entry]) = None"
      "add_file cfg (path_join [name, entry]) data (counted w) = Inr w1"
      "walk_entries cfg name depth rest w1 = Inr w'"
proof -
  have c: "w\<lparr>wk_entries := Suc (wk_entries w)\<rparr> = counted w" by (simp add: counted_def)
  consider "skipped_entry name entry" | entries where "n = Directory entries" | data where "n = Regular data"
    | "n \<in> {Symlink, Special, Unreadable}" by (cases n) auto
  then show thesis
  proof cases
    case 1
    then show thesis using assms by (intro skipped) (auto simp: Let_def c split: if_splits)
  next
    case (2 entries)
    then show thesis
      using assms folder skipped by (auto simp: Let_def c go_errors simp del: walk.simps path_join.simps split: if_splits)
  next
    case (3 data)
    then show thesis
      using assms input skipped by (auto simp: Let_def c go_errors simp del: path_join.simps split: if_splits)
  next
    case 4
    then have "entry_fault name n (path_join [name, entry]) \<noteq> None"
      by (auto simp: entry_fault_def split: option.splits)
    then show thesis
      using assms skipped by (auto simp: Let_def c go_errors simp del: path_join.simps split: if_splits)
  qed
qed

lemma walk_reads_tree:
  "walk cfg name depth n w = Inr w' \<Longrightarrow>
     wk_files w' = wk_files w @ files_as cfg (tree_files name n) \<and>
     wk_directories w' = wk_directories w @ tree_directories name n"
  "walk_entries cfg name depth entries w = Inr w' \<Longrightarrow>
     wk_files w' = wk_files w @ files_as cfg (entries_files name entries) \<and>
     wk_directories w' = wk_directories w @ entries_directories name entries"
proof (induction name n and name entries arbitrary: depth w w' and depth w w'
    rule: tree_files_entries_files.induct)
  case (1 name entries)
  then show ?case by (auto split: if_splits)
next
  case (4 name entry n rest)
  from 4(3) show ?case
  proof (cases rule: walk_entries_step)
    case skipped
    then show ?thesis using 4(2) by simp
  next
    case (folder entries w1)
    then show ?thesis using 4(1) [OF folder(1,2) folder(4)] 4(2) [OF folder(5)] by simp
  next
    case (input data w1)
    then show ?thesis using 4(2) [OF input(5)] by (simp add: add_file_Inr split: if_splits)
  qed
qed simp_all

text \<open>The bounds that a walk keeps: the number of its files, the bytes of each and of all, and the
  length of each path.\<close>

definition within_bounds :: "walk_config \<Rightarrow> walked \<Rightarrow> bool" where
  "within_bounds cfg w \<longleftrightarrow>
     wk_total w = sum_list (map (rf_size \<circ> snd) (wk_files w)) \<and> wk_total w \<le> wc_bytes cfg \<and>
     length (wk_files w) \<le> wc_files cfg \<and>
     (\<forall>(name, file) \<in> set (wk_files w). length name \<le> 1024 \<and> valid_path name \<and> is_input_name name \<and>
        rf_size file \<le> max_registry_document)"

lemma entry_fault_None:
  "entry_fault name n relative = None \<Longrightarrow> length relative \<le> 1024 \<and> valid_path relative"
  by (auto simp: entry_fault_def split: if_splits option.splits)

lemma add_file_bounds:
  assumes "add_file cfg relative data w = Inr w'" "within_bounds cfg w" "length relative \<le> 1024" "valid_path relative"
  shows "within_bounds cfg w'"
  using assms by (auto simp: add_file_Inr within_bounds_def registry_file_of_def split: if_splits)

lemma walk_bounds:
  "walk cfg name depth n w = Inr w' \<Longrightarrow> within_bounds cfg w \<Longrightarrow> within_bounds cfg w'"
  "walk_entries cfg name depth entries w = Inr w' \<Longrightarrow> within_bounds cfg w \<Longrightarrow> within_bounds cfg w'"
proof (induction name n and name entries arbitrary: depth w w' and depth w w'
    rule: tree_files_entries_files.induct)
  case (1 name entries)
  then show ?case by (auto split: if_splits)
next
  case (4 name entry n rest)
  have w: "within_bounds cfg (counted w)" "within_bounds cfg (counted w\<lparr>wk_directories := ds\<rparr>)" for ds
    using 4(4) by (simp_all add: within_bounds_def)
  from 4(3) show ?case
  proof (cases rule: walk_entries_step)
    case skipped
    then show ?thesis using 4(2) w(1) by simp
  next
    case (folder entries w1)
    then show ?thesis using 4(1) [OF folder(1,2) folder(4)] 4(2) [OF folder(5)] w(2) by simp
  next
    case (input data w1)
    have "within_bounds cfg w1"
      using add_file_bounds [OF input(4) w(1)] entry_fault_None [OF input(3)] by simp
    then show ?thesis using 4(2) [OF input(5)] by simp
  qed
qed simp_all

lemma capture_Inr:
  assumes "capture_registry_bounded cfg dir root = Inr s"
  shows "rs_dir s = dir" "rs_files s = files_as cfg (tree_files ''.'' root)"
    "rs_directories s = tree_directories ''.'' root"
    "rs_hash s = registry_digest (wc_sum cfg) (rs_files s)"
    "within_bounds cfg \<lparr>wk_entries = 0, wk_total = sum_list (map (rf_size \<circ> snd) (rs_files s)), wk_files = rs_files s, wk_directories = []\<rparr>"
proof -
  obtain w where w: "walk cfg ''.'' 0 root unwalked = Inr w"
    and s: "s = \<lparr>rs_dir = dir, rs_files = wk_files w, rs_directories = wk_directories w,
                 rs_hash = registry_digest (wc_sum cfg) (wk_files w)\<rparr>"
    using assms by (auto simp: capture_registry_bounded_def go_errors)
  have u: "within_bounds cfg unwalked" by (simp add: within_bounds_def unwalked_def)
  show "rs_dir s = dir" "rs_files s = files_as cfg (tree_files ''.'' root)"
    "rs_directories s = tree_directories ''.'' root" "rs_hash s = registry_digest (wc_sum cfg) (rs_files s)"
    using walk_reads_tree(1) [OF w] by (simp_all add: s unwalked_def)
  show "within_bounds cfg \<lparr>wk_entries = 0, wk_total = sum_list (map (rf_size \<circ> snd) (rs_files s)), wk_files = rs_files s, wk_directories = []\<rparr>"
    using walk_bounds(1) [OF w u] by (simp add: s within_bounds_def)
qed

subsection \<open>The digest determines the inputs\<close>

lemma hex_digit_inject: "hex_digit m = hex_digit n \<longleftrightarrow> m mod 16 = n mod 16"
proof -
  have d: "distinct ''0123456789abcdef''" and l: "length ''0123456789abcdef'' = 16" by simp_all
  have "m mod 16 < length ''0123456789abcdef''" "n mod 16 < length ''0123456789abcdef''"
    unfolding l by simp_all
  from nth_eq_iff_index_eq [OF d this] show ?thesis by (simp only: hex_digit_def)
qed

lemma hex_text_inject: "hex_text s = hex_text t \<Longrightarrow> s = t"
proof (induction s arbitrary: t)
  case Nil
  then show ?case by (cases t) (simp_all add: hex_text_def)
next
  case (Cons c s)
  then obtain d t' where t: "t = d # t'" by (cases t) (auto simp: hex_text_def)
  have h: "hex_digit (of_char c div 16) = hex_digit (of_char d div 16)" "hex_digit (of_char c) = hex_digit (of_char d)"
    and r: "hex_text s = hex_text t'"
    using Cons.prems by (simp_all add: t hex_text_def)
  have b: "(of_char x :: nat) div 16 < 16" for x
    using nat_of_char_less_256 [of x] by (simp add: less_mult_imp_div_less)
  have "(of_char c :: nat) div 16 = of_char d div 16" "(of_char c :: nat) mod 16 = of_char d mod 16"
    using h b unfolding hex_digit_inject by (simp_all add: mod_less)
  then have "(of_char c :: nat) = of_char d" by (metis div_mult_mod_eq)
  then show ?case using Cons.IH [OF r] by (simp add: t)
qed

definition sums_of_32 :: "(string \<Rightarrow> string) \<Rightarrow> bool" where
  "sums_of_32 sum256 \<longleftrightarrow> (\<forall>s. length (sum256 s) = 32)"

definition short_entry :: "string \<times> registry_file \<Rightarrow> bool" where
  "short_entry e \<longleftrightarrow> short (fst e) \<and> rf_size (snd e) < 256 ^ 8 \<and> length (rf_hash (snd e)) = 32"

lemma registry_entry_inject:
  assumes "short_entry (n, f)" "short_entry (n', f')" "registry_entry n f @ x = registry_entry n' f' @ y"
  shows "n = n' \<and> rf_size f = rf_size f' \<and> rf_hash f = rf_hash f' \<and> x = y"
proof -
  have s: "short n" "short n'" and b: "rf_size f < 256 ^ 8" "rf_size f' < 256 ^ 8"
    and l: "length (rf_hash f) = length (rf_hash f')"
    using assms(1,2) by (simp_all add: short_entry_def)
  have n: "n = n'" and r: "be_bytes 8 (rf_size f) @ rf_hash f @ x = be_bytes 8 (rf_size f') @ rf_hash f' @ y"
    using digest_field_inject [OF s assms(3) [unfolded registry_entry_def append_assoc]] by auto
  have "rf_size f = rf_size f'"
    by (rule be_bytes_inject [OF b be_bytes_append [OF r, THEN conjunct1]])
  moreover have "rf_hash f = rf_hash f' \<and> x = y"
    using be_bytes_append [OF r, THEN conjunct2] l by simp
  ultimately show ?thesis using n by simp
qed

lemma registry_entry_not_Nil [simp]: "registry_entry n f \<noteq> []"
  by (auto simp: registry_entry_def digest_field_def dest: arg_cong [where f = length])

lemma registry_entries_inject:
  assumes "list_all short_entry es" "list_all short_entry es'"
    and "concat (map (\<lambda>(n, f). registry_entry n f) es) = concat (map (\<lambda>(n, f). registry_entry n f) es')"
  shows "map (\<lambda>(n, f). (n, rf_size f, rf_hash f)) es = map (\<lambda>(n, f). (n, rf_size f, rf_hash f)) es'"
  using assms
proof (induction es arbitrary: es')
  case Nil
  then show ?case by (cases es') auto
next
  case (Cons e es)
  obtain n f where e: "e = (n, f)" by (cases e)
  from Cons.prems(3) obtain n' f' es'' where e': "es' = (n', f') # es''"
    by (cases es') (auto simp: e)
  have "n = n' \<and> rf_size f = rf_size f' \<and> rf_hash f = rf_hash f' \<and>
      concat (map (\<lambda>(n, f). registry_entry n f) es) = concat (map (\<lambda>(n, f). registry_entry n f) es'')"
    by (rule registry_entry_inject) (use Cons.prems in \<open>simp_all add: e e'\<close>)
  with Cons.IH [of es''] Cons.prems(1,2) show ?case by (simp add: e e')
qed

definition sorted_files :: "registry_file gomap \<Rightarrow> registry_file gomap" where
  "sorted_files files = map (\<lambda>name. (name, the (map_of files name))) (sorted_keys files)"

lemma map_of_sorted_files: "map_of (sorted_files files) = map_of files"
proof
  fix name
  show "map_of (sorted_files files) name = map_of files name"
    unfolding sorted_files_def map_of_map_restrict
    by (cases "map_of files name") (auto simp: restrict_map_def sorted_keys_dom simp del: set_sorted_keys)
qed

lemma registry_bytes_inject:
  assumes "list_all short_entry (sorted_files fs)" "list_all short_entry (sorted_files gs)"
    and "registry_bytes fs = registry_bytes gs"
  shows "map_option (\<lambda>f. (rf_size f, rf_hash f)) (map_of fs name) = map_option (\<lambda>f. (rf_size f, rf_hash f)) (map_of gs name)"
proof -
  have "concat (map (\<lambda>(n, f). registry_entry n f) (sorted_files fs)) = concat (map (\<lambda>(n, f). registry_entry n f) (sorted_files gs))"
    using assms(3) by (simp add: registry_bytes_def sorted_files_def comp_def)
  from registry_entries_inject [OF assms(1,2) this]
  have "map_of (map (\<lambda>(n, f). (n, rf_size f, rf_hash f)) (sorted_files fs)) name =
      map_of (map (\<lambda>(n, f). (n, rf_size f, rf_hash f)) (sorted_files gs)) name" by simp
  then show ?thesis by (simp add: map_of_map map_of_sorted_files)
qed

definition collision :: "(string \<Rightarrow> string) \<Rightarrow> string \<Rightarrow> string \<Rightarrow> bool" where
  "collision sum256 x y \<longleftrightarrow> x \<noteq> y \<and> sum256 x = sum256 y"

definition same_tree :: "node \<Rightarrow> node \<Rightarrow> bool" where
  "same_tree t t' \<longleftrightarrow> map_of (tree_files ''.'' t) = map_of (tree_files ''.'' t') \<and>
     set (tree_directories ''.'' t) = set (tree_directories ''.'' t')"

text \<open>The inputs of one registry folder: what the digest is over.\<close>

definition tree_bytes :: "(string \<Rightarrow> string) \<Rightarrow> node \<Rightarrow> string" where
  "tree_bytes sum256 t =
     registry_bytes (files_as \<lparr>wc_sum = sum256, wc_keep = False, wc_bytes = 0, wc_files = 0\<rparr> (tree_files ''.'' t))"

lemma files_as_keys [simp]: "sorted_keys (files_as cfg fs) = sorted_keys fs"
  by (rule sorted_keys_cong) (auto simp: map_of_files_as)

lemma registry_bytes_files_as:
  "wc_sum cfg = wc_sum cfg' \<Longrightarrow> registry_bytes (files_as cfg fs) = registry_bytes (files_as cfg' fs)"
  unfolding registry_bytes_def files_as_keys
  by (intro arg_cong [where f = concat] arg_cong2 [where f = append] refl map_cong)
    (auto simp: map_of_files_as registry_entry_def registry_file_of_def simp del: set_sorted_keys dest: sorted_keys_get)

lemma captured_short:
  assumes "capture_registry_bounded cfg dir root = Inr s" "sums_of_32 (wc_sum cfg)"
  shows "list_all short_entry (sorted_files (rs_files s))"
proof -
  have s: "short_entry (name, entry)" if "map_of (rs_files s) name = Some entry" for name entry
  proof -
    have m: "(name, entry) \<in> set (rs_files s)" using that by (rule map_of_SomeD)
    then have "length name \<le> 1024 \<and> rf_size entry \<le> max_registry_document"
      using capture_Inr(5) [OF assms(1)] by (auto simp: within_bounds_def)
    moreover have "length (rf_hash entry) = 32"
      using m assms(2) unfolding capture_Inr(2) [OF assms(1)]
      by (auto simp: files_as_def registry_file_of_def sums_of_32_def)
    ultimately show ?thesis
      by (simp add: short_entry_def short_le max_registry_document_def)
  qed
  then show ?thesis
    by (auto simp: list_all_iff sorted_files_def simp del: set_sorted_keys dest!: sorted_keys_get)
qed

text \<open>The only ways in which two folders could pass for one another: their digests are over different
  bytes with one sum, or one input has different contents with one sum.\<close>

definition tree_collision :: "(string \<Rightarrow> string) \<Rightarrow> node \<Rightarrow> node \<Rightarrow> bool" where
  "tree_collision sum256 t t' \<longleftrightarrow>
     collision sum256 (tree_bytes sum256 t) (tree_bytes sum256 t') \<or>
     (\<exists>name d d'. map_of (tree_files ''.'' t) name = Some d \<and> map_of (tree_files ''.'' t') name = Some d' \<and>
        collision sum256 d d')"

lemma tree_bytes_as: "wc_sum cfg = sum256 \<Longrightarrow> registry_bytes (files_as cfg (tree_files ''.'' t)) = tree_bytes sum256 t"
  unfolding tree_bytes_def by (rule registry_bytes_files_as) simp

lemma captured_hash:
  assumes "capture_registry_bounded cfg dir t = Inr s" "wc_sum cfg = sum256"
  shows "rs_hash s = hex_text (sum256 (tree_bytes sum256 t))"
  unfolding capture_Inr(4) [OF assms(1)] capture_Inr(2) [OF assms(1)] registry_digest_def tree_bytes_as [OF assms(2)] assms(2) ..

lemma same_hash_same_files:
  assumes "capture_registry_bounded cfg dir t = Inr s" "capture_registry_bounded cfg' dir' t' = Inr s'"
    and "wc_sum cfg = sum256" "wc_sum cfg' = sum256" "sums_of_32 sum256"
    and "rs_hash s = rs_hash s'" "\<not> tree_collision sum256 t t'"
  shows "map_of (tree_files ''.'' t) = map_of (tree_files ''.'' t')"
proof
  fix name
  let ?f = "files_as cfg (tree_files ''.'' t)" and ?g = "files_as cfg' (tree_files ''.'' t')"
  have "sum256 (tree_bytes sum256 t) = sum256 (tree_bytes sum256 t')"
    using assms(6) unfolding captured_hash [OF assms(1,3)] captured_hash [OF assms(2,4)] by (rule hex_text_inject)
  then have "tree_bytes sum256 t = tree_bytes sum256 t'"
    using assms(7) by (auto simp: tree_collision_def collision_def)
  then have "registry_bytes ?f = registry_bytes ?g"
    unfolding tree_bytes_as [OF assms(3)] tree_bytes_as [OF assms(4)] .
  moreover have "list_all short_entry (sorted_files ?f)" "list_all short_entry (sorted_files ?g)"
    using captured_short [OF assms(1)] captured_short [OF assms(2)] assms(3-5)
    by (simp_all add: capture_Inr(2) [OF assms(1)] capture_Inr(2) [OF assms(2)])
  ultimately have "map_option (\<lambda>f. (rf_size f, rf_hash f)) (map_of ?f name) = map_option (\<lambda>f. (rf_size f, rf_hash f)) (map_of ?g name)"
    by (intro registry_bytes_inject)
  then show "map_of (tree_files ''.'' t) name = map_of (tree_files ''.'' t') name"
    using assms(3,4,7)
    by (cases "map_of (tree_files ''.'' t) name"; cases "map_of (tree_files ''.'' t') name")
      (auto simp: map_of_files_as registry_file_of_def tree_collision_def collision_def)
qed

lemma same_files_same_bytes:
  assumes "map_of (tree_files ''.'' t) = map_of (tree_files ''.'' t')"
  shows "tree_bytes sum256 t = tree_bytes sum256 t'"
  unfolding tree_bytes_def registry_bytes_def files_as_keys sorted_keys_map_of_cong [OF assms] map_of_files_as assms ..

lemma source_changed_None:
  assumes s: "capture_registry_bounded cfg dir t = Inr s" "wc_sum cfg = sum256"
    and sums: "sums_of_32 sum256" and apart: "\<not> tree_collision sum256 t (disk dir)"
  shows "source_changed sum256 disk s = None \<longleftrightarrow>
    (\<exists>c. capture_registry sum256 False dir (disk dir) = Inr c) \<and> same_tree t (disk dir)"
proof (cases "capture_registry sum256 False dir (disk dir)")
  case (Inl e)
  then show ?thesis by (simp add: source_changed_def capture_Inr(1) [OF s(1)])
next
  case (Inr c)
  note c = Inr [unfolded capture_registry_def]
  have h: "rs_hash c = hex_text (sum256 (tree_bytes sum256 (disk dir)))" by (rule captured_hash [OF c]) simp
  have d: "rs_directories c = tree_directories ''.'' (disk dir)" "rs_directories s = tree_directories ''.'' t"
    by (rule capture_Inr(3) [OF c], rule capture_Inr(3) [OF s(1)])
  have "rs_hash c = rs_hash s \<longleftrightarrow> map_of (tree_files ''.'' t) = map_of (tree_files ''.'' (disk dir))"
  proof
    assume "rs_hash c = rs_hash s"
    from same_hash_same_files [OF s(1) c s(2) _ sums this [symmetric] apart]
    show "map_of (tree_files ''.'' t) = map_of (tree_files ''.'' (disk dir))" by simp
  next
    assume "map_of (tree_files ''.'' t) = map_of (tree_files ''.'' (disk dir))"
    then show "rs_hash c = rs_hash s"
      unfolding h captured_hash [OF s] using same_files_same_bytes by metis
  qed
  then show ?thesis
    using Inr d by (auto simp: source_changed_def capture_Inr(1) [OF s(1)] same_tree_def)
qed

end
