(* ===== verification/Registry_Load.thy ===== *)
theory Registry_Load
  imports Registry_Capture Lifecycle Ports
begin

text \<open>
  \<open>internal/registry\<close>: \<open>stage.go\<close>, the maturity of a component and what it allows; \<open>trust.go\<close>; and
  \<open>registry.go\<close>, how several sources become one registry. Decoding one YAML document of the registry is an
  argument (\<open>registry_parsers\<close>). The text of an error message is not modelled; an error names the parts that
  it is about.
\<close>

subsection \<open>Stages\<close>

definition fit_for_golden_path :: "component option \<Rightarrow> bool" where
  "fit_for_golden_path c = (case c of None \<Rightarrow> False | Some c \<Rightarrow> comp_stage c = ''ga'')"

text \<open>\<open>today\<close> is an instant in UTC.\<close>

definition past_sunset :: "component option \<Rightarrow> time \<Rightarrow> bool" where
  "past_sunset c today =
     (case c of
        None \<Rightarrow> False
      | Some c \<Rightarrow>
        if comp_stage c \<noteq> ''alpha'' \<and> comp_stage c \<noteq> ''beta'' then False
        else (case parse_date (comp_sunset c) of None \<Rightarrow> False | Some sunset \<Rightarrow> sunset < Day today))"

datatype load_error =
    SourceCount nat
  | SourceUnreadable string capture_error
  | PartSuppliedTwice string string string string
  | InputSuppliedTwice string string string
  | BadRegistryPath path_error
  | InputNotFound string
  | NotParsed string
  | NameMismatch string string string
  | ProtoMissing string string string
  | StageInvalid string string
  | SunsetOfGA string string
  | SunsetMissing string string
  | SunsetInvalid string string
  | GoldenPathFaults "(string \<times> string \<times> (string \<times> string) list) list"
  | ExperimentPortFaults "(string \<times> string \<times> string \<times> string list) list"

definition check_stage :: "component \<Rightarrow> load_error option" where
  "check_stage c =
     (case parse_stage (comp_stage c) of
        None \<Rightarrow> Some (StageInvalid (comp_name c) (comp_stage c))
      | Some _ \<Rightarrow>
        if comp_stage c = ''ga''
        then (if comp_sunset c \<noteq> '''' then Some (SunsetOfGA (comp_name c) (comp_sunset c)) else None)
        else if comp_sunset c = '''' then Some (SunsetMissing (comp_name c) (comp_stage c))
        else (case parse_date (comp_sunset c) of
            None \<Rightarrow> Some (SunsetInvalid (comp_name c) (comp_sunset c))
          | Some _ \<Rightarrow> None))"

text \<open>The components of a list that the registry holds and that are not fit for a golden path.\<close>

definition below_ga :: "component gomap \<Rightarrow> string list \<Rightarrow> (string \<times> string) list" where
  "below_ga components names =
     concat (map (\<lambda>included. case map_of components included of
         None \<Rightarrow> []
       | Some c \<Rightarrow> if fit_for_golden_path (Some c) then [] else [(included, comp_stage c)]) names)"

definition golden_path_faults ::
    "component gomap \<Rightarrow> string \<Rightarrow> (string \<times> string list) list \<Rightarrow> (string \<times> string \<times> (string \<times> string) list) list" where
  "golden_path_faults components kind included =
     concat (map (\<lambda>(name, names). if below_ga components names = [] then [] else [(kind, name, below_ga components names)])
       included)"

definition in_key_order :: "'v gomap \<Rightarrow> (string \<times> 'v) list" where
  "in_key_order m = map (\<lambda>key. (key, the (map_of m key))) (sorted_keys m)"

definition check_golden_paths :: "archetype gomap \<Rightarrow> component gomap \<Rightarrow> mixin gomap \<Rightarrow> load_error option" where
  "check_golden_paths archetypes components mixins =
     (let faults =
        golden_path_faults components ''archetype'' (map (\<lambda>(name, a). (name, ar_components a)) (in_key_order archetypes)) @
        golden_path_faults components ''mixin'' (map (\<lambda>(name, m). (name, mx_adds_components m)) (in_key_order mixins))
      in if faults = [] then None else Some (GoldenPathFaults faults))"

definition ga_providers :: "component gomap \<Rightarrow> string \<Rightarrow> string list" where
  "ga_providers components port =
     concat (map (\<lambda>(name, c). if comp_stage c = ''ga''
         then map (\<lambda>_. name) (filter (\<lambda>p. port_name p = port) (comp_provides c)) else [])
       (in_key_order components))"

definition experiment_port_faults :: "component gomap \<Rightarrow> (string \<times> string \<times> string \<times> string list) list" where
  "experiment_port_faults components =
     concat (map (\<lambda>(name, c). if comp_stage c = ''ga'' then []
         else concat (map (\<lambda>p. let providers = ga_providers components (port_name p) in
             if providers = [] then [] else [(name, comp_stage c, port_name p, providers)]) (comp_provides c)))
       (in_key_order components))"

definition check_experiment_ports :: "component gomap \<Rightarrow> load_error option" where
  "check_experiment_ports components =
     (let faults = experiment_port_faults components
      in if faults = [] then None else Some (ExperimentPortFaults faults))"

subsection \<open>Trust\<close>

definition parse_trust :: "string \<Rightarrow> string option" where
  "parse_trust v = (if v = ''common'' \<or> v = ''local'' then Some v else None)"

definition trust_of :: "nat \<Rightarrow> string" where
  "trust_of position = (if position = 0 then ''common'' else ''local'')"

subsection \<open>The sources of one registry\<close>

record source =
  so_name :: string
  so_dir :: string

record source_parts =
  pa_name :: string
  pa_trust :: string
  pa_parts :: "string list"

definition part_categories :: "string gomap" where
  "part_categories = [(''components'', ''component''), (''archetypes'', ''archetype''), (''mixins'', ''mixin''), (''ports'', ''port'')]"

definition part_kind :: "string \<Rightarrow> string option" where
  "part_kind name = map_of part_categories (path_dir name)"

fun capture_sources ::
    "(string \<Rightarrow> string) \<Rightarrow> (string \<Rightarrow> node) \<Rightarrow> nat \<Rightarrow> nat \<Rightarrow> source list \<Rightarrow> (load_error, registry_snapshot list) result" where
  "capture_sources sum256 disk bytes number [] = Inr []"
| "capture_sources sum256 disk bytes number (src # rest) =
     (case capture_registry_bounded
         \<lparr>wc_sum = sum256, wc_keep = True, wc_bytes = max_registry_bytes - bytes, wc_files = max_registry_files - number\<rparr>
         (so_dir src) (disk (so_dir src)) of
        Inl e \<Rightarrow> Inl (SourceUnreadable (so_name src) e)
      | Inr current \<Rightarrow>
        bind_result
          (capture_sources sum256 disk (bytes + sum_list (map (rf_size \<circ> snd) (rs_files current)))
            (number + length (rs_files current)) rest)
          (\<lambda>captured. Inr (current # captured)))"

text \<open>Names that only one source may supply. \<open>fault\<close> is the refusal, given the name and the two sources.\<close>

fun claim_names ::
    "(string \<Rightarrow> nat \<Rightarrow> nat \<Rightarrow> load_error) \<Rightarrow> nat \<Rightarrow> string list \<Rightarrow> nat gomap \<Rightarrow> (load_error, nat gomap) result" where
  "claim_names refusal i [] owners = Inr owners"
| "claim_names refusal i (name # names) owners =
     (case map_of owners name of
        Some first \<Rightarrow> Inl (refusal name first i)
      | None \<Rightarrow> claim_names refusal i names (owners @ [(name, i)]))"

definition part_refusal :: "source list \<Rightarrow> string \<Rightarrow> nat \<Rightarrow> nat \<Rightarrow> load_error" where
  "part_refusal sources name first i =
     PartSuppliedTwice (the (part_kind name)) (path_base name) (so_name (sources ! first)) (so_name (sources ! i))"

definition input_refusal :: "source list \<Rightarrow> string \<Rightarrow> nat \<Rightarrow> nat \<Rightarrow> load_error" where
  "input_refusal sources name first i = InputSuppliedTwice name (so_name (sources ! first)) (so_name (sources ! i))"

record merged =
  mg_parts :: "nat gomap"
  mg_inputs :: "nat gomap"
  mg_files :: "registry_file gomap"
  mg_directories :: "string list"

definition sorted_set :: "string list \<Rightarrow> string list" where
  "sorted_set names = sort (remdups names)"

fun merge_sources ::
    "source list \<Rightarrow> nat \<Rightarrow> registry_snapshot list \<Rightarrow> merged \<Rightarrow> (load_error, merged) result" where
  "merge_sources sources i [] g = Inr g"
| "merge_sources sources i (current # rest) g =
     bind_result (claim_names (part_refusal sources) i
         (filter (\<lambda>name. part_kind name \<noteq> None) (sorted_set (rs_directories current))) (mg_parts g)) (\<lambda>parts.
       bind_result (claim_names (input_refusal sources) i (sorted_keys (rs_files current)) (mg_inputs g)) (\<lambda>inputs.
         merge_sources sources (i + 1) rest
           \<lparr>mg_parts = parts, mg_inputs = inputs, mg_files = mg_files g @ in_key_order (rs_files current),
            mg_directories = mg_directories g @ sorted_set (rs_directories current)\<rparr>))"

definition unmerged :: merged where
  "unmerged = \<lparr>mg_parts = [], mg_inputs = [], mg_files = [], mg_directories = []\<rparr>"

definition part_label :: "string \<Rightarrow> string" where
  "part_label name = the (part_kind name) @ '' '' @ path_base name"

definition parts_of_source :: "nat gomap \<Rightarrow> nat \<Rightarrow> source \<Rightarrow> source_parts" where
  "parts_of_source owners i src =
     \<lparr>pa_name = so_name src, pa_trust = trust_of i,
      pa_parts = sort (map (\<lambda>(name, _). part_label name) (filter (\<lambda>(_, owner). owner = i) owners))\<rparr>"

subsection \<open>The loaded registry\<close>

record registry =
  rg_files :: "registry_file gomap"
  rg_directories :: "string list"
  rg_hash :: string
  rg_captured :: "registry_snapshot list"
  rg_archetypes :: "archetype gomap"
  rg_components :: "component gomap"
  rg_mixins :: "mixin gomap"
  rg_sources :: "source_parts list"

record registry_parsers =
  ps_archetype :: "string \<Rightarrow> archetype option"
  ps_component :: "string \<Rightarrow> component option"
  ps_mixin :: "string \<Rightarrow> mixin option"

definition read_file :: "registry_file gomap \<Rightarrow> string \<Rightarrow> (load_error, string) result" where
  "read_file contents name =
     (case validate_path name of
        Some e \<Rightarrow> Inl (BadRegistryPath e)
      | None \<Rightarrow> (case map_of contents name of None \<Rightarrow> Inl (InputNotFound name) | Some entry \<Rightarrow> Inr (rf_data entry)))"

definition read_proto_import :: "registry_file gomap \<Rightarrow> string \<Rightarrow> (load_error, string) result" where
  "read_proto_import contents name =
     (case validate_path name of
        Some e \<Rightarrow> Inl (BadRegistryPath e)
      | None \<Rightarrow>
        if path_ext name \<noteq> ''.proto'' then Inl (BadRegistryPath (BadPath name))
        else let trimmed = trim_prefix name ''stego/'' in
          if map_of contents trimmed \<noteq> None then read_file contents trimmed else read_file contents name)"

definition child_directories :: "string list \<Rightarrow> string \<Rightarrow> string list" where
  "child_directories directories category =
     sort (map path_base (filter (\<lambda>name. path_dir name = category) (remdups directories)))"

definition check_slots ::
    "registry_file gomap \<Rightarrow> string \<Rightarrow> string \<Rightarrow> slot_definition list \<Rightarrow> load_error option" where
  "check_slots contents category name slots =
     first_error (\<lambda>slot. let path = category @ ''/'' @ name @ ''/slots/'' @ sd_name slot @ ''.proto'' in
       case validate_path path of
         Some e \<Rightarrow> Some (BadRegistryPath e)
       | None \<Rightarrow> if map_of contents path = None then Some (ProtoMissing category name (sd_name slot)) else None) slots"

text \<open>One part of the registry: its document is read and decoded, states the name of its folder, and
  passes the checks of its kind.\<close>

definition load_part ::
    "registry_file gomap \<Rightarrow> string \<Rightarrow> string \<Rightarrow> (string \<Rightarrow> 'a option) \<Rightarrow> ('a \<Rightarrow> string) \<Rightarrow> ('a \<Rightarrow> load_error option) \<Rightarrow>
     string \<Rightarrow> (load_error, 'a) result" where
  "load_part contents category document parse name_of check name =
     (let path = path_join [category, name, document] in
      bind_result (read_file contents path) (\<lambda>data.
        case parse data of
          None \<Rightarrow> Inl (NotParsed path)
        | Some item \<Rightarrow>
          if name_of item \<noteq> name then Inl (NameMismatch name (name_of item) path)
          else after (check item) (Inr item)))"

fun load_parts :: "(string \<Rightarrow> (load_error, 'a) result) \<Rightarrow> string list \<Rightarrow> 'a gomap \<Rightarrow> (load_error, 'a gomap) result" where
  "load_parts load [] m = Inr m"
| "load_parts load (name # names) m =
     bind_result (load name) (\<lambda>item. load_parts load names (AList.update name item m))"

definition load_archetype :: "registry_parsers \<Rightarrow> registry_file gomap \<Rightarrow> string \<Rightarrow> (load_error, archetype) result" where
  "load_archetype parsers contents =
     load_part contents ''archetypes'' ''archetype.yaml'' (ps_archetype parsers) ar_name (\<lambda>_. None)"

definition load_component :: "registry_parsers \<Rightarrow> registry_file gomap \<Rightarrow> string \<Rightarrow> (load_error, component) result" where
  "load_component parsers contents =
     load_part contents ''components'' ''component.yaml'' (ps_component parsers) comp_name
       (\<lambda>c. or_else (check_slots contents ''components'' (comp_name c) (comp_slots c)) (check_stage c))"

definition load_mixin :: "registry_parsers \<Rightarrow> registry_file gomap \<Rightarrow> string \<Rightarrow> (load_error, mixin) result" where
  "load_mixin parsers contents =
     load_part contents ''mixins'' ''mixin.yaml'' (ps_mixin parsers) mx_name
       (\<lambda>m. check_slots contents ''mixins'' (mx_name m) (mx_adds_slots m))"

definition load_sources ::
    "(string \<Rightarrow> string) \<Rightarrow> registry_parsers \<Rightarrow> (string \<Rightarrow> node) \<Rightarrow> source list \<Rightarrow> (load_error, registry) result" where
  "load_sources sum256 parsers disk sources =
     (if length sources < 1 \<or> length sources > max_registry_sources then Inl (SourceCount (length sources))
      else
        bind_result (capture_sources sum256 disk 0 0 sources) (\<lambda>captured.
        bind_result (merge_sources sources 0 captured unmerged) (\<lambda>g.
        bind_result (load_parts (load_archetype parsers (mg_files g)) (child_directories (mg_directories g) ''archetypes'') []) (\<lambda>archetypes.
        bind_result (load_parts (load_component parsers (mg_files g)) (child_directories (mg_directories g) ''components'') []) (\<lambda>components.
        bind_result (load_parts (load_mixin parsers (mg_files g)) (child_directories (mg_directories g) ''mixins'') []) (\<lambda>mixins.
        after (check_golden_paths archetypes components mixins)
          (after (check_experiment_ports components)
            (Inr \<lparr>rg_files = mg_files g, rg_directories = mg_directories g,
                  rg_hash = registry_digest sum256 (mg_files g), rg_captured = captured,
                  rg_archetypes = archetypes, rg_components = components, rg_mixins = mixins,
                  rg_sources = map (\<lambda>(i, src). parts_of_source (mg_parts g) i src) (enumerate 0 sources)\<rparr>))))))))"

definition load_directories ::
    "(string \<Rightarrow> string) \<Rightarrow> registry_parsers \<Rightarrow> (string \<Rightarrow> node) \<Rightarrow> string list \<Rightarrow> (load_error, registry) result" where
  "load_directories sum256 parsers disk dirs =
     load_sources sum256 parsers disk (map (\<lambda>dir. \<lparr>so_name = dir, so_dir = dir\<rparr>) dirs)"

definition input_files :: "registry \<Rightarrow> string gomap" where
  "input_files r = map (\<lambda>(name, entry). (name, rf_data entry)) (rg_files r)"

definition verify_loaded :: "(string \<Rightarrow> string) \<Rightarrow> (string \<Rightarrow> node) \<Rightarrow> registry option \<Rightarrow> verify_error option" where
  "verify_loaded sum256 disk r =
     (case r of None \<Rightarrow> Some NoCapturedSource | Some r \<Rightarrow> verify_captured sum256 disk (rg_captured r))"

subsection \<open>Reading the configuration\<close>

record registry_source =
  sr_url :: string
  sr_ref :: string
  sr_path :: string
  sr_vendor :: string

record registry_config =
  rc_registry :: "registry_source list"
  rc_pins :: "string gomap"

datatype config_fault =
    PinsNotSupported "string list"
  | NoSources
  | TooManySources nat
  | SettingTooLong nat
  | BadVendor nat
  | BadSubfolder nat path_error
  | UrlMissing nat
  | RefMissing nat

definition commit_id :: "string \<Rightarrow> bool" where
  "commit_id s \<longleftrightarrow> (length s = 40 \<or> length s = 64) \<and> list_all hex_lower s"

definition source_config_fault :: "nat \<Rightarrow> registry_source \<Rightarrow> config_fault option" where
  "source_config_fault i src =
     (if length (sr_url src) > 2048 \<or> length (sr_ref src) > 128 \<or> length (sr_path src) > 1024 \<or> length (sr_vendor src) > 1024
      then Some (SettingTooLong i)
      else if sr_vendor src \<noteq> '''' \<and> (validate_path (sr_vendor src) \<noteq> None \<or> \<not> commit_id (sr_ref src)) then Some (BadVendor i)
      else if sr_path src \<noteq> '''' \<and> validate_path (sr_path src) \<noteq> None then Some (BadSubfolder i (the (validate_path (sr_path src))))
      else if sr_url src = '''' then Some (UrlMissing i)
      else if sr_ref src = '''' then Some (RefMissing i)
      else None)"

definition validate_config :: "registry_config \<Rightarrow> config_fault option" where
  "validate_config cfg =
     (if sorted_keys (rc_pins cfg) \<noteq> [] then Some (PinsNotSupported (sorted_keys (rc_pins cfg)))
      else if rc_registry cfg = [] then Some NoSources
      else if length (rc_registry cfg) > max_registry_sources then Some (TooManySources (length (rc_registry cfg)))
      else first_error (\<lambda>(i, src). source_config_fault i src) (enumerate 0 (rc_registry cfg)))"

subsection \<open>What loading promises\<close>

definition golden_paths_hold :: "registry \<Rightarrow> bool" where
  "golden_paths_hold r \<longleftrightarrow>
     (\<forall>name a included c. map_of (rg_archetypes r) name = Some a \<longrightarrow> included \<in> set (ar_components a) \<longrightarrow>
        map_of (rg_components r) included = Some c \<longrightarrow> comp_stage c = ''ga'') \<and>
     (\<forall>name m included c. map_of (rg_mixins r) name = Some m \<longrightarrow> included \<in> set (mx_adds_components m) \<longrightarrow>
        map_of (rg_components r) included = Some c \<longrightarrow> comp_stage c = ''ga'')"

definition experiments_own_their_ports :: "registry \<Rightarrow> bool" where
  "experiments_own_their_ports r \<longleftrightarrow>
     (\<forall>name c name' c' port. map_of (rg_components r) name = Some c \<longrightarrow> comp_stage c \<noteq> ''ga'' \<longrightarrow>
        map_of (rg_components r) name' = Some c' \<longrightarrow> comp_stage c' = ''ga'' \<longrightarrow>
        comp_provides_port c port \<longrightarrow> \<not> comp_provides_port c' port)"

definition stage_in_order :: "component \<Rightarrow> bool" where
  "stage_in_order c \<longleftrightarrow>
     comp_stage c = ''ga'' \<and> comp_sunset c = '''' \<or>
     comp_stage c \<in> {''alpha'', ''beta''} \<and> (\<exists>sunset. parse_date (comp_sunset c) = Some sunset)"

definition slots_have_contracts :: "registry \<Rightarrow> string \<Rightarrow> string \<Rightarrow> slot_definition list \<Rightarrow> bool" where
  "slots_have_contracts r category name slots \<longleftrightarrow>
     (\<forall>slot \<in> set slots. map_of (rg_files r) (category @ ''/'' @ name @ ''/slots/'' @ sd_name slot @ ''.proto'') \<noteq> None)"

definition parts_in_order :: "registry \<Rightarrow> bool" where
  "parts_in_order r \<longleftrightarrow>
     (\<forall>name a. map_of (rg_archetypes r) name = Some a \<longrightarrow> ar_name a = name) \<and>
     (\<forall>name c. map_of (rg_components r) name = Some c \<longrightarrow>
        comp_name c = name \<and> stage_in_order c \<and> slots_have_contracts r ''components'' name (comp_slots c)) \<and>
     (\<forall>name m. map_of (rg_mixins r) name = Some m \<longrightarrow>
        mx_name m = name \<and> slots_have_contracts r ''mixins'' name (mx_adds_slots m))"

definition parts_of :: "registry_snapshot \<Rightarrow> string set" where
  "parts_of s = {name \<in> set (rs_directories s). part_kind name \<noteq> None}"

definition sources_apart :: "registry_snapshot list \<Rightarrow> bool" where
  "sources_apart captured \<longleftrightarrow>
     (\<forall>j < length captured. \<forall>i < j.
        parts_of (captured ! i) \<inter> parts_of (captured ! j) = {} \<and>
        fst ` set (rs_files (captured ! i)) \<inter> fst ` set (rs_files (captured ! j)) = {})"

subsubsection \<open>The rules of stages\<close>

lemma check_stage_None: "check_stage c = None \<longleftrightarrow> stage_in_order c"
  by (auto simp: check_stage_def stage_in_order_def parse_stage_def parse_date_def parse_date_text_def
      split: option.splits if_splits)

lemma below_ga_Nil:
  "below_ga components names = [] \<longleftrightarrow>
     (\<forall>included \<in> set names. \<forall>c. map_of components included = Some c \<longrightarrow> comp_stage c = ''ga'')"
  unfolding below_ga_def collect_Nil by (auto simp: fit_for_golden_path_def split: option.splits)

lemma in_key_order_all:
  "(\<forall>(name, v) \<in> set (in_key_order m). P name v) \<longleftrightarrow> (\<forall>name v. map_of m name = Some v \<longrightarrow> P name v)"
  unfolding in_key_order_def
  by (auto simp del: set_sorted_keys dest: map_of_Some_sorted_keys dest!: sorted_keys_get) (metis map_of_Some_sorted_keys option.sel)

lemma golden_path_faults_Nil:
  "golden_path_faults components kind (map (\<lambda>(name, v). (name, f v)) (in_key_order m)) = [] \<longleftrightarrow>
     (\<forall>name v. map_of m name = Some v \<longrightarrow> below_ga components (f v) = [])"
proof -
  have "golden_path_faults components kind (map (\<lambda>(name, v). (name, f v)) (in_key_order m)) = [] \<longleftrightarrow>
      (\<forall>(name, v) \<in> set (in_key_order m). below_ga components (f v) = [])"
    unfolding golden_path_faults_def map_map collect_Nil by (intro ball_cong refl) (auto split: if_splits)
  then show ?thesis unfolding in_key_order_all .
qed

lemma check_golden_paths_None:
  "check_golden_paths archetypes components mixins = None \<longleftrightarrow>
     (\<forall>name a. map_of archetypes name = Some a \<longrightarrow> below_ga components (ar_components a) = []) \<and>
     (\<forall>name m. map_of mixins name = Some m \<longrightarrow> below_ga components (mx_adds_components m) = [])"
  unfolding check_golden_paths_def Let_def by (simp add: golden_path_faults_Nil)

lemma ga_providers_Nil:
  "ga_providers components port = [] \<longleftrightarrow>
     (\<forall>name c. map_of components name = Some c \<longrightarrow> comp_stage c = ''ga'' \<longrightarrow> \<not> comp_provides_port c port)"
proof -
  have "ga_providers components port = [] \<longleftrightarrow>
      (\<forall>(name, c) \<in> set (in_key_order components). comp_stage c = ''ga'' \<longrightarrow> \<not> comp_provides_port c port)"
    unfolding ga_providers_def collect_Nil
    by (intro ball_cong refl) (auto simp: comp_provides_port_def list_ex_iff filter_empty_conv)
  then show ?thesis unfolding in_key_order_all .
qed

lemma port_faults_Nil:
  "concat (map (\<lambda>p. let providers = g p in if providers = [] then [] else [h p providers]) ports) = [] \<longleftrightarrow>
     (\<forall>p \<in> set ports. g p = [])"
  by (induction ports) (auto simp: Let_def)

lemma experiment_port_faults_Nil:
  "experiment_port_faults components = [] \<longleftrightarrow>
     (\<forall>name c. map_of components name = Some c \<longrightarrow> comp_stage c \<noteq> ''ga'' \<longrightarrow>
        (\<forall>port. comp_provides_port c port \<longrightarrow> ga_providers components port = []))"
proof -
  have "experiment_port_faults components = [] \<longleftrightarrow>
      (\<forall>(name, c) \<in> set (in_key_order components). comp_stage c \<noteq> ''ga'' \<longrightarrow>
        (\<forall>port. comp_provides_port c port \<longrightarrow> ga_providers components port = []))"
    unfolding experiment_port_faults_def collect_Nil
    by (intro ball_cong refl) (force simp: comp_provides_port_def list_ex_iff port_faults_Nil simp del: concat_eq_Nil_conv)
  then show ?thesis unfolding in_key_order_all .
qed

lemma check_experiment_ports_None:
  "check_experiment_ports components = None \<longleftrightarrow>
     (\<forall>name c name' c' port. map_of components name = Some c \<longrightarrow> comp_stage c \<noteq> ''ga'' \<longrightarrow>
        map_of components name' = Some c' \<longrightarrow> comp_stage c' = ''ga'' \<longrightarrow>
        comp_provides_port c port \<longrightarrow> \<not> comp_provides_port c' port)"
  unfolding check_experiment_ports_def Let_def
  by (simp add: experiment_port_faults_Nil ga_providers_Nil) blast

subsubsection \<open>One source for every part and input\<close>

lemma claim_names_Inr:
  "claim_names refusal i names owners = Inr owners' \<Longrightarrow> distinct names \<Longrightarrow>
     owners' = owners @ map (\<lambda>name. (name, i)) names \<and> set names \<inter> fst ` set owners = {}"
proof (induction names arbitrary: owners)
  case (Cons name names)
  have o: "map_of owners name = None" and r: "claim_names refusal i names (owners @ [(name, i)]) = Inr owners'"
    using Cons.prems(1) by (auto split: option.splits)
  from Cons.IH [OF r] Cons.prems(2) o show ?case by (auto simp: map_of_eq_None_iff)
qed simp

lemma sorted_set_simps [simp]: "set (sorted_set names) = set names" "distinct (sorted_set names)"
  by (simp_all add: sorted_set_def)

lemma set_in_key_order: "fst ` set (in_key_order m) = fst ` set m"
  by (simp add: in_key_order_def image_image)

lemma map_of_in_key_order: "map_of (in_key_order m) = map_of m"
proof
  fix name
  show "map_of (in_key_order m) name = map_of m name"
    unfolding in_key_order_def map_of_map_restrict
    by (cases "map_of m name") (auto simp: restrict_map_def sorted_keys_dom simp del: set_sorted_keys)
qed

text \<open>What the merge has seen: the owners are exactly the names of the sources merged so far.\<close>

lemma merge_sources_Inr:
  assumes "merge_sources sources i captured g = Inr g'"
  shows "(\<forall>s \<in> set captured. parts_of s \<inter> fst ` set (mg_parts g) = {} \<and>
            fst ` set (rs_files s) \<inter> fst ` set (mg_inputs g) = {}) \<and>
    sources_apart captured \<and> mg_files g' = mg_files g @ concat (map (in_key_order \<circ> rs_files) captured)"
  using assms
proof (induction captured arbitrary: i g)
  case (Cons s captured)
  let ?names = "filter (\<lambda>name. part_kind name \<noteq> None) (sorted_set (rs_directories s))"
  obtain parts inputs where p: "claim_names (part_refusal sources) i ?names (mg_parts g) = Inr parts"
    and q: "claim_names (input_refusal sources) i (sorted_keys (rs_files s)) (mg_inputs g) = Inr inputs"
    and r: "merge_sources sources (i + 1) captured
        \<lparr>mg_parts = parts, mg_inputs = inputs, mg_files = mg_files g @ in_key_order (rs_files s),
         mg_directories = mg_directories g @ sorted_set (rs_directories s)\<rparr> = Inr g'"
    using Cons.prems by (auto simp: go_errors)
  have n: "set ?names = parts_of s" by (auto simp: parts_of_def)
  have p': "fst ` set parts = fst ` set (mg_parts g) \<union> parts_of s" "parts_of s \<inter> fst ` set (mg_parts g) = {}"
    using claim_names_Inr [OF p] n by (auto simp: image_Un image_image)
  have q': "fst ` set inputs = fst ` set (mg_inputs g) \<union> fst ` set (rs_files s)"
      "fst ` set (rs_files s) \<inter> fst ` set (mg_inputs g) = {}"
    using claim_names_Inr [OF q] by (auto simp: image_Un image_image)
  note IH = Cons.IH [OF r]
  have "sources_apart (s # captured)"
    unfolding sources_apart_def
  proof (intro allI impI)
    fix j i assume ij: "j < length (s # captured)" "i < j"
    show "parts_of ((s # captured) ! i) \<inter> parts_of ((s # captured) ! j) = {} \<and>
        fst ` set (rs_files ((s # captured) ! i)) \<inter> fst ` set (rs_files ((s # captured) ! j)) = {}"
    proof (cases i)
      case 0
      obtain k where k: "j = Suc k" "k < length captured" using ij 0 by (cases j) auto
      have "parts_of (captured ! k) \<inter> fst ` set parts = {}" "fst ` set (rs_files (captured ! k)) \<inter> fst ` set inputs = {}"
        using IH nth_mem [OF k(2)] by auto
      then show ?thesis using p'(1) q'(1) 0 k(1) by (simp add: Int_Un_distrib Int_commute)
    next
      case (Suc i')
      then obtain k where "j = Suc k" "k < length captured" "i' < k" using ij by (cases j) auto
      then show ?thesis using IH Suc by (simp add: sources_apart_def)
    qed
  qed
  then show ?case using IH p' q' by (simp add: Int_Un_distrib comp_def)
qed (simp add: sources_apart_def)

lemma capture_sources_step:
  assumes "capture_sources sum256 disk bytes number (src # sources) = Inr captured"
  obtains cfg s rest where "wc_sum cfg = sum256" "wc_keep cfg"
    "capture_registry_bounded cfg (so_dir src) (disk (so_dir src)) = Inr s"
    "capture_sources sum256 disk (bytes + sum_list (map (rf_size \<circ> snd) (rs_files s)))
       (number + length (rs_files s)) sources = Inr rest"
    "captured = s # rest"
    "sum_list (map (rf_size \<circ> snd) (rs_files s)) \<le> max_registry_bytes - bytes"
    "length (rs_files s) \<le> max_registry_files - number"
proof -
  let ?cfg = "\<lparr>wc_sum = sum256, wc_keep = True, wc_bytes = max_registry_bytes - bytes, wc_files = max_registry_files - number\<rparr>"
  obtain s rest where s: "capture_registry_bounded ?cfg (so_dir src) (disk (so_dir src)) = Inr s"
    and r: "capture_sources sum256 disk (bytes + sum_list (map (rf_size \<circ> snd) (rs_files s)))
        (number + length (rs_files s)) sources = Inr rest"
    and c: "captured = s # rest"
    using assms by (auto simp: go_errors split: sum.splits)
  show thesis
    by (rule that [OF _ _ s r c]) (use capture_Inr(5) [OF s] in \<open>simp_all add: within_bounds_def\<close>)
qed

lemma capture_sources_Inr:
  assumes "capture_sources sum256 disk bytes number sources = Inr captured"
  shows "list_all2 (\<lambda>src s. \<exists>cfg. wc_sum cfg = sum256 \<and> wc_keep cfg \<and>
      capture_registry_bounded cfg (so_dir src) (disk (so_dir src)) = Inr s) sources captured \<and>
    (bytes \<le> max_registry_bytes \<longrightarrow>
      bytes + sum_list (map (\<lambda>s. sum_list (map (rf_size \<circ> snd) (rs_files s))) captured) \<le> max_registry_bytes) \<and>
    (number \<le> max_registry_files \<longrightarrow> number + sum_list (map (length \<circ> rs_files) captured) \<le> max_registry_files)"
  using assms
proof (induction sources arbitrary: bytes number captured)
  case (Cons src sources)
  from Cons.prems show ?case
  proof (cases rule: capture_sources_step)
    case (1 cfg s rest)
    from Cons.IH [OF 1(4)] 1(1-3,5-7) show ?thesis by (auto simp: comp_def)
  qed
qed simp

subsubsection \<open>The parts\<close>

lemma load_parts_Inr:
  assumes "load_parts load names m = Inr m'" "\<And>name item. map_of m name = Some item \<Longrightarrow> load name = Inr item"
    and "map_of m' name = Some item"
  shows "load name = Inr item"
  using assms
proof (induction names arbitrary: m)
  case (Cons n ns)
  obtain x where x: "load n = Inr x" and r: "load_parts load ns (AList.update n x m) = Inr m'"
    using Cons.prems(1) by (auto simp: go_errors)
  show ?case by (rule Cons.IH [OF r _ Cons.prems(3)]) (use x Cons.prems(2) in \<open>auto split: if_splits\<close>)
qed simp

lemma load_part_Inr:
  "load_part contents category document parse name_of check name = Inr item \<Longrightarrow> name_of item = name \<and> check item = None"
  by (auto simp: load_part_def Let_def go_errors simp del: path_join.simps split: option.splits if_splits)

lemma check_slots_None:
  "check_slots contents category name slots = None \<Longrightarrow>
     \<forall>slot \<in> set slots. map_of contents (category @ ''/'' @ name @ ''/slots/'' @ sd_name slot @ ''.proto'') \<noteq> None"
  by (auto simp: check_slots_def Let_def split: option.splits if_splits)

lemma load_sources_steps:
  assumes "load_sources sum256 parsers disk sources = Inr r"
  obtains g where "1 \<le> length sources" "length sources \<le> max_registry_sources"
    "capture_sources sum256 disk 0 0 sources = Inr (rg_captured r)"
    "merge_sources sources 0 (rg_captured r) unmerged = Inr g"
    "load_parts (load_archetype parsers (mg_files g)) (child_directories (mg_directories g) ''archetypes'') [] = Inr (rg_archetypes r)"
    "load_parts (load_component parsers (mg_files g)) (child_directories (mg_directories g) ''components'') [] = Inr (rg_components r)"
    "load_parts (load_mixin parsers (mg_files g)) (child_directories (mg_directories g) ''mixins'') [] = Inr (rg_mixins r)"
    "check_golden_paths (rg_archetypes r) (rg_components r) (rg_mixins r) = None"
    "check_experiment_ports (rg_components r) = None"
    "rg_files r = mg_files g"
proof -
  obtain captured g as cs ms where h: "length sources \<ge> 1" "length sources \<le> max_registry_sources"
      "capture_sources sum256 disk 0 0 sources = Inr captured"
      "merge_sources sources 0 captured unmerged = Inr g"
      "load_parts (load_archetype parsers (mg_files g)) (child_directories (mg_directories g) ''archetypes'') [] = Inr as"
      "load_parts (load_component parsers (mg_files g)) (child_directories (mg_directories g) ''components'') [] = Inr cs"
      "load_parts (load_mixin parsers (mg_files g)) (child_directories (mg_directories g) ''mixins'') [] = Inr ms"
      "check_golden_paths as cs ms = None" "check_experiment_ports cs = None"
    and r: "r = \<lparr>rg_files = mg_files g, rg_directories = mg_directories g,
                  rg_hash = registry_digest sum256 (mg_files g), rg_captured = captured,
                  rg_archetypes = as, rg_components = cs, rg_mixins = ms,
                  rg_sources = map (\<lambda>(i, src). parts_of_source (mg_parts g) i src) (enumerate 0 sources)\<rparr>"
    using assms unfolding load_sources_def go_errors
    by (auto simp only: go_errors Inr_Inl_False Inl_Inr_False not_less de_Morgan_disj sum.inject split: if_splits)
  show thesis
    by (rule that [of g]) (use h in \<open>simp_all add: r\<close>)
qed

lemma loaded_parts_in_order:
  assumes "load_sources sum256 parsers disk sources = Inr r"
  shows "parts_in_order r"
  using assms
proof (cases rule: load_sources_steps)
  case (1 g)
  have "ar_name a = name" if "map_of (rg_archetypes r) name = Some a" for name a
    using load_parts_Inr [OF 1(5) _ that] unfolding load_archetype_def by (auto dest: load_part_Inr)
  moreover have "comp_name c = name \<and> stage_in_order c \<and> slots_have_contracts r ''components'' name (comp_slots c)"
    if "map_of (rg_components r) name = Some c" for name c
  proof -
    have "load_component parsers (mg_files g) name = Inr c" using load_parts_Inr [OF 1(6) _ that] by simp
    then have "comp_name c = name" "check_slots (mg_files g) ''components'' name (comp_slots c) = None" "check_stage c = None"
      unfolding load_component_def by (auto dest: load_part_Inr)
    then show ?thesis
      using check_slots_None [OF \<open>check_slots _ _ _ _ = None\<close>] 1(10)
      by (simp add: check_stage_None slots_have_contracts_def)
  qed
  moreover have "mx_name m = name \<and> slots_have_contracts r ''mixins'' name (mx_adds_slots m)"
    if "map_of (rg_mixins r) name = Some m" for name m
  proof -
    have "load_mixin parsers (mg_files g) name = Inr m" using load_parts_Inr [OF 1(7) _ that] by simp
    then have "mx_name m = name" "check_slots (mg_files g) ''mixins'' name (mx_adds_slots m) = None"
      unfolding load_mixin_def by (auto dest: load_part_Inr)
    then show ?thesis
      using check_slots_None [OF \<open>check_slots _ _ _ _ = None\<close>] 1(10) by (simp add: slots_have_contracts_def)
  qed
  ultimately show ?thesis by (simp add: parts_in_order_def)
qed

lemma load_sources_golden:
  assumes "load_sources sum256 parsers disk sources = Inr r"
  shows "golden_paths_hold r"
  using assms
proof (cases rule: load_sources_steps)
  case (1 g)
  show ?thesis using 1(8) by (auto simp: check_golden_paths_None below_ga_Nil golden_paths_hold_def)
qed

end
