(* ===== verification/Registry_Laws.thy ===== *)
theory Registry_Laws
  imports Registry_Load "HOL-Library.Code_Target_Nat"
begin

text \<open>
  What \<open>registry.LoadSources\<close> and \<open>Registry.Verify\<close> promise: a loaded registry is fit for use, and a verified
  registry is the one that was loaded. The sample registry at the end has two sources; its bounds are
  numbers of bytes, so its evaluation needs the binary naturals of \<open>Code_Target_Nat\<close>.
\<close>

definition loaded_within_limits :: "registry \<Rightarrow> bool" where
  "loaded_within_limits r \<longleftrightarrow>
     length (rg_captured r) \<in> {1..max_registry_sources} \<and>
     sum_list (map (\<lambda>s. sum_list (map (rf_size \<circ> snd) (rs_files s))) (rg_captured r)) \<le> max_registry_bytes \<and>
     sum_list (map (length \<circ> rs_files) (rg_captured r)) \<le> max_registry_files"

definition fit_registry :: "registry \<Rightarrow> bool" where
  "fit_registry r \<longleftrightarrow>
     golden_paths_hold r \<and> experiments_own_their_ports r \<and> parts_in_order r \<and>
     sources_apart (rg_captured r) \<and> loaded_within_limits r"


text \<open>What it means that the sources on disk are still those that were loaded, and the only way in which
  other sources could pass for them.\<close>

definition sources_as_loaded ::
    "(string \<Rightarrow> string) \<Rightarrow> (string \<Rightarrow> node) \<Rightarrow> (string \<Rightarrow> node) \<Rightarrow> source list \<Rightarrow> bool" where
  "sources_as_loaded sum256 disk now sources \<longleftrightarrow>
     (\<forall>src \<in> set sources. (\<exists>c. capture_registry sum256 False (so_dir src) (now (so_dir src)) = Inr c) \<and>
        same_tree (disk (so_dir src)) (now (so_dir src)))"

definition sources_collide ::
    "(string \<Rightarrow> string) \<Rightarrow> (string \<Rightarrow> node) \<Rightarrow> (string \<Rightarrow> node) \<Rightarrow> source list \<Rightarrow> bool" where
  "sources_collide sum256 disk now sources \<longleftrightarrow>
     (\<exists>src \<in> set sources. tree_collision sum256 (disk (so_dir src)) (now (so_dir src)))"

text \<open>C4. Short of a collision of SHA-256 between the two states of a folder, Verify accepts a loaded
  registry exactly when every source can be read again and holds the same inputs, with the same bytes,
  and the same folders as when it was loaded: also the folders that hold no input, and also an input that
  only changed its name.\<close>

theorem verify_accepts_iff_unchanged:
  assumes "load_sources sum256 parsers disk sources = Inr r" and "sums_of_32 sum256"
    and "\<not> sources_collide sum256 disk now sources"
  shows "verify_loaded sum256 now (Some r) = None \<longleftrightarrow> sources_as_loaded sum256 disk now sources"
  using assms(1)
proof (cases rule: load_sources_steps)
  case (1 g)
  note c = capture_sources_Inr [OF 1(3), THEN conjunct1]
  have "source_changed sum256 now s = None \<longleftrightarrow>
      (\<exists>c. capture_registry sum256 False (so_dir src) (now (so_dir src)) = Inr c) \<and> same_tree (disk (so_dir src)) (now (so_dir src))"
    if m: "(src, s) \<in> set (zip sources (rg_captured r))" for src s
  proof -
    obtain cfg where "wc_sum cfg = sum256" "capture_registry_bounded cfg (so_dir src) (disk (so_dir src)) = Inr s"
      using list_all2_iff [THEN iffD1, OF c, THEN conjunct2, THEN bspec, OF m] by auto
    moreover have "\<not> tree_collision sum256 (disk (so_dir src)) (now (so_dir src))"
      using assms(3) m by (auto simp: sources_collide_def dest: set_zip_leftD)
    ultimately show ?thesis by (intro source_changed_None [OF _ _ assms(2)])
  qed
  then have "list_all2 (\<lambda>src s. source_changed sum256 now s = None \<longleftrightarrow>
      (\<exists>c. capture_registry sum256 False (so_dir src) (now (so_dir src)) = Inr c) \<and> same_tree (disk (so_dir src)) (now (so_dir src)))
      sources (rg_captured r)"
    using list_all2_lengthD [OF c] by (auto simp: list_all2_iff)
  then have "(\<forall>s \<in> set (rg_captured r). source_changed sum256 now s = None) \<longleftrightarrow> sources_as_loaded sum256 disk now sources"
    unfolding sources_as_loaded_def by (induction rule: list_all2_induct) auto
  moreover have "rg_captured r \<noteq> []" using 1(1) list_all2_lengthD [OF c] by auto
  ultimately show ?thesis by (simp add: verify_loaded_def verify_captured_def)
qed

subsection \<open>A registry of two sources\<close>

definition sample_sum :: "string \<Rightarrow> string" where
  "sample_sum s = take 32 (s @ replicate 32 CHR 0x00)"

definition sample_store :: component where
  "sample_store = (simple_component ''store'' [] [''storage''])\<lparr>comp_slots := [\<lparr>sd_name = ''policy'', sd_proto = '''', sd_default = ''''\<rparr>]\<rparr>"

definition sample_trial :: component where
  "sample_trial = (simple_component ''trial'' [''storage''] [])\<lparr>comp_stage := ''alpha'', comp_sunset := ''2027-01-01''\<rparr>"

definition sample_archetype :: archetype where
  "sample_archetype =
     \<lparr>ar_kind = ''archetype'', ar_name = ''web'', ar_language = ''go'', ar_version = ''1'', ar_components = [''store''],
      ar_default_auth = '''', ar_conventions = \<lparr>cv_layout = ''flat'', cv_error_handling = '''', cv_response_format = '''',
      cv_logging = '''', cv_test_pattern = '''', cv_request_validation = '''', cv_cors = ''''\<rparr>,
      ar_compatible_mixins = None, ar_bindings = []\<rparr>"

definition sample_parsers :: registry_parsers where
  "sample_parsers =
     \<lparr>ps_archetype = (\<lambda>text. if text = ''web'' then Some sample_archetype else None),
      ps_component = (\<lambda>text. if text = ''store'' then Some sample_store else if text = ''trial'' then Some sample_trial else None),
      ps_mixin = (\<lambda>_. None)\<rparr>"

definition common_tree :: node where
  "common_tree = Directory
     [(''archetypes'', Directory [(''web'', Directory [(''archetype.yaml'', Regular ''web'')])]),
      (''components'', Directory [(''store'', Directory
         [(''component.yaml'', Regular ''store''), (''slots'', Directory [(''policy.proto'', Regular ''proto'')])])])]"

definition local_tree :: node where
  "local_tree = Directory [(''components'', Directory [(''trial'', Directory [(''component.yaml'', Regular ''trial'')])])]"

definition sample_disk :: "string \<Rightarrow> node" where
  "sample_disk dir = (if dir = ''/common'' then common_tree else if dir = ''/local'' then local_tree else Unreadable)"

definition sample_sources :: "source list" where
  "sample_sources = [\<lparr>so_name = ''common'', so_dir = ''/common''\<rparr>, \<lparr>so_name = ''local'', so_dir = ''/local''\<rparr>]"



text \<open>The evaluation below holds for every hash, so the digest is not unfolded in it.\<close>

declare registry_digest_def [code del]

lemma sample_loads:
  "(case load_sources sum256 sample_parsers sample_disk sample_sources of
      Inr r \<Rightarrow> map fst (rg_components r) = [''store'', ''trial''] | Inl _ \<Rightarrow> False)"
  by code_simp

lemma sample_disk_readable:
  "(case capture_registry sum256 False ''/common'' common_tree of Inr _ \<Rightarrow> True | Inl _ \<Rightarrow> False)"
  "(case capture_registry sum256 False ''/local'' local_tree of Inr _ \<Rightarrow> True | Inl _ \<Rightarrow> False)"
  by code_simp+

lemma sums_of_32_sample: "sums_of_32 sample_sum"
  by (auto simp: sums_of_32_def sample_sum_def min_def)


lemma verify_accepts_iff_unchanged_witness:
  "\<exists>r. load_sources sample_sum sample_parsers sample_disk sample_sources = Inr r \<and>
     verify_loaded sample_sum sample_disk (Some r) = None"
proof -
  obtain r where r: "load_sources sample_sum sample_parsers sample_disk sample_sources = Inr r"
    using sample_loads [of sample_sum] by (auto split: sum.splits)
  have apart: "\<not> sources_collide sample_sum sample_disk sample_disk sample_sources"
    by (auto simp: sources_collide_def tree_collision_def collision_def)
  have "sources_as_loaded sample_sum sample_disk sample_disk sample_sources"
    using sample_disk_readable [of sample_sum]
    by (auto simp: sources_as_loaded_def sample_sources_def sample_disk_def same_tree_def split: sum.splits)
  then have "verify_loaded sample_sum sample_disk (Some r) = None"
    by (rule verify_accepts_iff_unchanged [OF r sums_of_32_sample apart, THEN iffD2])
  with r show ?thesis by (intro exI conjI)
qed

end
