(* ===== verification/Active_Set.thy ===== *)
theory Active_Set
  imports Registry_Load File_Layout
begin

text \<open>
  The active component set of a declaration: \<open>collectComponentNames\<close> (\<open>internal/compiler/reconciler.go\<close>),
  \<open>activeSet\<close> and \<open>ActiveComponents\<close> (\<open>internal/compiler/validate.go\<close>) and the checks of slots and fills against
  it; and the names of slot variables (\<open>internal/compiler/assembler.go\<close>).
\<close>

subsection \<open>The baseline\<close>

datatype collect_error = IncompatibleMixin string | MixinNotFound string

definition add_name :: "string list \<Rightarrow> string \<Rightarrow> string list" where
  "add_name names name = (if name \<in> set names then names else names @ [name])"

definition add_names :: "string list \<Rightarrow> string list \<Rightarrow> string list" where
  "add_names names added = foldl add_name names added"

fun add_mixins :: "mixin gomap \<Rightarrow> string list \<Rightarrow> string list \<Rightarrow> (collect_error, string list) result" where
  "add_mixins mixins [] names = Inr names"
| "add_mixins mixins (m # ms) names =
     (case map_of mixins m of
        None \<Rightarrow> Inl (MixinNotFound m)
      | Some mixin \<Rightarrow> add_mixins mixins ms (add_names names (mx_adds_components mixin)))"

definition incompatible_mixin :: "archetype \<Rightarrow> string list \<Rightarrow> string option" where
  "incompatible_mixin a mixins =
     (case ar_compatible_mixins a of None \<Rightarrow> None | Some compatible \<Rightarrow> find (\<lambda>m. m \<notin> set compatible) mixins)"

definition collect_component_names ::
    "archetype \<Rightarrow> string list \<Rightarrow> mixin gomap \<Rightarrow> (collect_error, string list) result" where
  "collect_component_names a mixins registered =
     (let names = add_names [] (ar_components a);
          names = (if ar_default_auth a = '''' then names else add_name names (ar_default_auth a)) in
      case incompatible_mixin a mixins of
        Some m \<Rightarrow> Inl (IncompatibleMixin m)
      | None \<Rightarrow> add_mixins registered mixins names)"

subsection \<open>The active set\<close>

definition missing_component_faults :: "component gomap \<Rightarrow> string list \<Rightarrow> fault list" where
  "missing_component_faults components names =
     concat (map (\<lambda>name. only_if (map_of components name = None) (fault ''component'' ''component'' ''archetype'' name [])) names)"

definition baseline_components :: "component gomap \<Rightarrow> string list \<Rightarrow> component gomap" where
  "baseline_components components names =
     concat (map (\<lambda>name. case map_of components name of None \<Rightarrow> [] | Some c \<Rightarrow> [(name, c)]) names)"

definition service_port_overrides :: "any_value gomap \<Rightarrow> string gomap" where
  "service_port_overrides overrides =
     concat (map (\<lambda>key. case map_of overrides key of
         Some (AnyString s) \<Rightarrow> if is_convention_override_key key then [] else [(key, s)]
       | _ \<Rightarrow> []) (sorted_keys overrides))"

definition active_input :: "archetype \<Rightarrow> service_declaration \<Rightarrow> registry \<Rightarrow> string list \<Rightarrow> resolve_input" where
  "active_input a sv r names =
     \<lparr>ri_components = baseline_components (rg_components r) names, ri_archetype = ar_bindings a,
      ri_overrides = service_port_overrides (sv_overrides sv), ri_loader = Some (map_of (rg_components r))\<rparr>"

record active_set =
  as_baseline :: "string list"
  as_components :: "component gomap option"
  as_faults :: "fault list"

definition active_set_of :: "archetype \<Rightarrow> service_declaration \<Rightarrow> registry \<Rightarrow> active_set" where
  "active_set_of a sv r =
     (case collect_component_names a (sv_mixins sv) (rg_mixins r) of
        Inl _ \<Rightarrow> \<lparr>as_baseline = [], as_components = None, as_faults = [fault ''component'' ''component'' ''mixins'' '''' []]\<rparr>
      | Inr names \<Rightarrow>
        let faults = missing_component_faults (rg_components r) names in
        if faults \<noteq> [] then \<lparr>as_baseline = names, as_components = None, as_faults = faults\<rparr>
        else (case resolve (active_input a sv r names) of
            Inl _ \<Rightarrow> \<lparr>as_baseline = names, as_components = None, as_faults = [fault ''port'' ''port-binding'' ''overrides'' '''' []]\<rparr>
          | Inr res \<Rightarrow> \<lparr>as_baseline = names, as_components = Some (active_components res), as_faults = []\<rparr>))"

definition empty_declaration :: "string \<Rightarrow> string \<Rightarrow> service_declaration" where
  "empty_declaration archetype language =
     \<lparr>sv_component_namespaces = [], sv_kind = ''service'', sv_name = '''', sv_archetype = archetype, sv_language = language, sv_base_path = '''',
      sv_error_type_base = '''', sv_entities = [], sv_collections = [], sv_slots = [],
      sv_mixins = [], sv_overrides = [], sv_fill_modules = []\<rparr>"

datatype active_error = ArchetypeNotFound string "string list" | NoActiveSet string "fault list"

definition active_components_of :: "registry \<Rightarrow> string \<Rightarrow> (active_error, component gomap option) result" where
  "active_components_of r name =
     (case map_of (rg_archetypes r) name of
        None \<Rightarrow> Inl (ArchetypeNotFound name (sorted_keys (rg_archetypes r)))
      | Some a \<Rightarrow>
        let s = active_set_of a (empty_declaration name (ar_language a)) r in
        if as_faults s \<noteq> [] then Inl (NoActiveSet name (as_faults s)) else Inr (as_components s))"

subsection \<open>Slots and fills\<close>

definition slot_fault :: "string \<Rightarrow> nat \<Rightarrow> string \<Rightarrow> string list \<Rightarrow> fault" where
  "slot_fault rule si slot allowed = fault ''slot'' rule (slot_path si @ ''.slot'') slot allowed"

definition available_slots :: "component gomap \<Rightarrow> slot_definition list \<Rightarrow> string list" where
  "available_slots components mixin_slots =
     sorted_set (concat (map (\<lambda>(_, c). map sd_name (comp_slots c)) components) @ map sd_name mixin_slots)"

definition validate_slot_names ::
    "slot_declaration list \<Rightarrow> component gomap \<Rightarrow> slot_definition list \<Rightarrow> fault list" where
  "validate_slot_names slots components mixin_slots =
     (let available = available_slots components mixin_slots in
      each (\<lambda>si sb _. only_if (sd_slot sb \<notin> set available) (slot_fault ''slot-name'' si (sd_slot sb) available)) slots)"

text \<open>What the compiler asks of a generator: whether its value is usable, the lowest Go version it
  names, and the slots it consumes; \<open>None\<close> where it does not implement the optional interface.\<close>

record generator_info =
  gi_available :: bool
  gi_minimum_go :: "string option"
  gi_consumed :: "string list option"

definition consumed_slots :: "generator_info gomap \<Rightarrow> string list" where
  "consumed_slots generators =
     sorted_set (concat (map (\<lambda>(_, g). case gi_consumed g of
         Some slots \<Rightarrow> if gi_available g then slots else [] | None \<Rightarrow> []) generators))"

definition validate_slot_consumption :: "slot_declaration list \<Rightarrow> generator_info gomap \<Rightarrow> fault list" where
  "validate_slot_consumption slots generators =
     (if slots = [] \<or> generators = [] then []
      else each (\<lambda>si sb _. only_if (sd_slot sb \<notin> set (consumed_slots generators))
          (slot_fault ''unconsumed-slot'' si (sd_slot sb) (consumed_slots generators))) slots)"

definition bound_fills :: "slot_declaration \<Rightarrow> string list" where
  "bound_fills sb = sd_gate sb @ sd_chain sb @ sd_fan_out sb"

definition collect_fill_names :: "slot_declaration list \<Rightarrow> string list" where
  "collect_fill_names slots = sorted_set (concat (map bound_fills slots))"

text \<open>The place of the first binding that names a fill.\<close>

definition fill_places :: "slot_declaration list \<Rightarrow> (string \<times> string) list" where
  "fill_places slots =
     concat (map (\<lambda>(i, sb). concat (map (\<lambda>(operator, fills).
         map (\<lambda>(j, fill). (fill, index_text (slot_path i @ ''.'' @ operator) j)) (enumerate 0 fills))
       [(''gate'', sd_gate sb), (''chain'', sd_chain sb), (''fan-out'', sd_fan_out sb)])) (enumerate 0 slots))"

definition fill_reference :: "slot_declaration list \<Rightarrow> string \<Rightarrow> string" where
  "fill_reference slots name = (case map_of (fill_places slots) name of None \<Rightarrow> ''slots'' | Some place \<Rightarrow> place)"

text \<open>What the project holds under \<open>fills/<name>/fill.yaml\<close>: nothing, something whose status cannot be
  read, something that the fill reader refuses, or a fill with the collection it serves.\<close>

datatype fill_state = FillMissing | FillUnstatable | FillUnreadable | FillServes string

datatype fill_error = FillUncheckable string | NoFillReader string | FillNotParsed string

fun fill_faults ::
    "slot_declaration list \<Rightarrow> string list \<Rightarrow> (string \<Rightarrow> fill_state) \<Rightarrow> bool \<Rightarrow> string list \<Rightarrow> (fill_error, fault list) result" where
  "fill_faults slots collections fill reader [] = Inr []"
| "fill_faults slots collections fill reader (name # names) =
     (case fill name of
        FillMissing \<Rightarrow>
          bind_result (fill_faults slots collections fill reader names)
            (\<lambda>fs. Inr (fault ''fill'' ''fill-exists'' (fill_reference slots name) name [] # fs))
      | FillUnstatable \<Rightarrow> Inl (FillUncheckable name)
      | FillUnreadable \<Rightarrow> Inl (if reader then FillNotParsed name else NoFillReader name)
      | FillServes collection \<Rightarrow>
        if \<not> reader then Inl (NoFillReader name)
        else bind_result (fill_faults slots collections fill reader names)
            (\<lambda>fs. Inr (only_if (collection \<noteq> '''' \<and> collection \<notin> set collections)
                 (fault ''fill'' ''fill-collection'' (fill_reference slots name) collection (sort collections)) @ fs)))"

definition validate_fills_exist ::
    "slot_declaration list \<Rightarrow> collection list \<Rightarrow> (string \<Rightarrow> fill_state) \<Rightarrow> bool \<Rightarrow> (fill_error, fault list) result" where
  "validate_fills_exist slots collections fill reader =
     fill_faults slots (map cl_name collections) fill reader (collect_fill_names slots)"

record fill_slot =
  fl_ref :: slot_ref
  fl_contract :: string

record fill_binding =
  fb_fill :: string
  fb_slot :: string
  fb_collection :: string

record fill_check =
  fc_slots :: "fill_slot list"
  fc_bindings :: "fill_binding list"
  fc_collections :: "string list"
  fc_module :: string
  fc_fill_modules :: "string list"

definition slot_contracts :: "string \<Rightarrow> string \<Rightarrow> slot_definition list \<Rightarrow> fill_slot list" where
  "slot_contracts category owner slots =
     map (\<lambda>sd. \<lparr>fl_ref = \<lparr>sr_component = owner, sr_slot = sd_name sd\<rparr>,
                fl_contract = category @ ''/'' @ owner @ ''/slots/'' @ sd_name sd @ ''.proto''\<rparr>) slots"

definition fill_check_of ::
    "string \<Rightarrow> service_declaration \<Rightarrow> mixin gomap \<Rightarrow> component gomap \<Rightarrow> fill_check" where
  "fill_check_of module_name sv mixins components =
     \<lparr>fc_slots =
        concat (map (\<lambda>(name, c). slot_contracts ''components'' name (comp_slots c)) (in_key_order components)) @
        concat (map (\<lambda>name. case map_of mixins name of
            None \<Rightarrow> [] | Some m \<Rightarrow> slot_contracts ''mixins'' (mx_name m) (mx_adds_slots m)) (sv_mixins sv)),
      fc_bindings =
        concat (map (\<lambda>sb. map (\<lambda>fill. \<lparr>fb_fill = fill, fb_slot = sd_slot sb, fb_collection = sd_collection sb\<rparr>)
          (bound_fills sb)) (sv_slots sv)),
      fc_collections = map cl_name (sv_collections sv), fc_module = module_name,
      fc_fill_modules = map fm_module (sv_fill_modules sv)\<rparr>"

subsection \<open>The variables of slot operators\<close>

text \<open>\<open>strings.ToUpper\<close> and \<open>strings.ToLower\<close> of a string of one byte: a byte that is no character on
  its own becomes U+FFFD.\<close>

definition replacement_char :: string where "replacement_char = [CHR 0xEF, CHR 0xBF, CHR 0xBD]"

definition fold_first :: "(char \<Rightarrow> char) \<Rightarrow> string \<Rightarrow> string" where
  "fold_first f s =
     (case s of [] \<Rightarrow> [] | c # cs \<Rightarrow> (if (of_char c :: nat) < 128 then [f c] else replacement_char) @ cs)"

definition pascal :: "char \<Rightarrow> string \<Rightarrow> string" where
  "pascal sep s = concat (map (fold_first ascii_upper) (split_on sep s))"

definition snake_to_camel :: "string \<Rightarrow> string" where
  "snake_to_camel s = fold_first ascii_lower (pascal CHR ''_'' s)"

definition operator_suffix :: "string \<Rightarrow> string" where
  "operator_suffix operator =
     (if operator = ''gate'' then ''Gate'' else if operator = ''chain'' then ''Chain'' else ''FanOut'')"

definition slot_var_name :: "string \<times> string \<times> string \<Rightarrow> string" where
  "slot_var_name = (\<lambda>(slot, collection, operator).
     snake_to_camel slot @ (if collection = '''' then '''' else pascal CHR ''-'' collection) @ operator_suffix operator)"

fun slot_var_clash ::
    "(string \<times> string \<times> string) gomap \<Rightarrow> (string \<times> string \<times> string) list \<Rightarrow> bool" where
  "slot_var_clash seen [] = False"
| "slot_var_clash seen (key # keys) =
     ((case map_of seen (slot_var_name key) of None \<Rightarrow> False | Some first \<Rightarrow> first \<noteq> key) \<or>
      slot_var_clash (AList.update (slot_var_name key) key seen) keys)"

definition slot_variable_faults :: "slot_declaration list \<Rightarrow> fault list" where
  "slot_variable_faults slots =
     only_if (slot_var_clash [] (concat (map binding_keys slots))) (fault ''slot-binding'' ''slot-variable-name'' ''slots'' '''' [])"

definition validate_language :: "string \<Rightarrow> string \<Rightarrow> fault list" where
  "validate_language service archetype =
     (if service = '''' then [fault ''language'' ''language'' ''language'' '''' [archetype]]
      else only_if (service \<noteq> ''go'') (fault ''language'' ''language'' ''language'' service [''go'']) @
           only_if (archetype \<noteq> '''' \<and> service \<noteq> archetype) (fault ''language'' ''language'' ''language'' service [archetype]))"

subsection \<open>What an active set promises\<close>

definition sound_active_set :: "component gomap \<Rightarrow> component gomap \<Rightarrow> bool" where
  "sound_active_set registered active \<longleftrightarrow>
     distinct (map fst active) \<and> map_of active \<subseteq>\<^sub>m map_of registered \<and> answers_ports active = []"

lemma set_add_names: "set (add_names names added) = set names \<union> set added"
  unfolding add_names_def by (induction added arbitrary: names) (auto simp: add_name_def)

lemma distinct_add_names: "distinct names \<Longrightarrow> distinct (add_names names added)"
  unfolding add_names_def by (induction added arbitrary: names) (auto simp: add_name_def)

lemma add_mixins_Inr:
  "add_mixins mixins ms names = Inr names' \<Longrightarrow>
     (distinct names \<longrightarrow> distinct names') \<and>
     set names' = set names \<union> {c. \<exists>m \<in> set ms. \<exists>mixin. map_of mixins m = Some mixin \<and> c \<in> set (mx_adds_components mixin)}"
proof (induction mixins ms names rule: add_mixins.induct)
  case (2 mixins m ms names)
  then show ?case by (auto simp: set_add_names distinct_add_names split: option.splits)
qed auto

text \<open>The baseline: each component of the archetype, its default auth and each component of a declared
  mixin, once.\<close>

lemma collect_component_names_Inr:
  assumes "collect_component_names a mixins registered = Inr names"
  shows "distinct names" and
    "set names = set (ar_components a) \<union> ({ar_default_auth a} - {''''}) \<union>
       {c. \<exists>m \<in> set mixins. \<exists>mixin. map_of registered m = Some mixin \<and> c \<in> set (mx_adds_components mixin)}"
proof -
  let ?base = "if ar_default_auth a = '''' then add_names [] (ar_components a)
    else add_name (add_names [] (ar_components a)) (ar_default_auth a)"
  have d: "distinct ?base" and s: "set ?base = set (ar_components a) \<union> ({ar_default_auth a} - {''''})"
    by (auto simp: distinct_add_names set_add_names add_name_def)
  have m: "add_mixins registered mixins ?base = Inr names"
    using assms by (auto simp: collect_component_names_def Let_def split: option.splits)
  show "distinct names" using add_mixins_Inr [OF m] d by blast
  show "set names = set (ar_components a) \<union> ({ar_default_auth a} - {''''}) \<union>
       {c. \<exists>m \<in> set mixins. \<exists>mixin. map_of registered m = Some mixin \<and> c \<in> set (mx_adds_components mixin)}"
    using add_mixins_Inr [OF m] s by simp
qed

lemma missing_component_Nil:
  "missing_component_faults components names = [] \<longleftrightarrow> (\<forall>name \<in> set names. map_of components name \<noteq> None)"
  unfolding missing_component_faults_def collect_Nil by simp

lemma baseline_components_keys:
  "(\<forall>name \<in> set names. map_of components name \<noteq> None) \<Longrightarrow> map fst (baseline_components components names) = names"
  by (induction names) (auto simp: baseline_components_def)

lemma map_of_baseline_components:
  "map_of (baseline_components components names) name = (if name \<in> set names then map_of components name else None)"
  by (induction names) (auto simp: baseline_components_def split: option.splits)

lemma load_overrides_keeps:
  "distinct (map fst active) \<Longrightarrow> distinct (map fst (fst (load_overrides inp ports active faults)))"
proof (induction inp ports active faults rule: load_overrides.induct)
  case (2 inp port ports active faults)
  then show ?case
    by (auto simp: Let_def distinct_update distinct_delete split: sum.splits option.splits)
qed simp

lemma load_overrides_loaded:
  assumes "ri_loader inp = Some load"
  shows "(\<And>name c. map_of active name = Some c \<Longrightarrow> load name = Some c) \<Longrightarrow>
    map_of (fst (load_overrides inp ports active faults)) name = Some c \<Longrightarrow> load name = Some c"
  using assms
proof (induction inp ports active faults rule: load_overrides.induct)
  case (2 inp port ports active faults)
  let ?oc = "the (map_of (ri_overrides inp) port)"
  show ?case
  proof (cases "find_override inp active ?oc")
    case (Inl r)
    then show ?thesis using 2(1) [OF refl Inl 2(4)] 2(5,6) by (simp add: Let_def)
  next
    case (Inr d)
    let ?loaded = "case map_of active ?oc of None \<Rightarrow> AList.update ?oc d active | Some _ \<Rightarrow> active"
    have d: "load ?oc = Some d" if "map_of active ?oc = None"
      using Inr that 2(6) by (auto simp: find_override_def split: option.splits)
    have l: "load n = Some x" if "map_of ?loaded n = Some x" for n x
      using that d 2(4) by (auto split: option.splits if_splits)
    have l': "load n = Some x" if "map_of (AList.delete k ?loaded) n = Some x" for k n x
      using that l by (auto split: if_splits simp del: map_of_update)
    show ?thesis
    proof (cases "comp_provides_port d port")
      case False
      then have "map_of (fst (load_overrides inp ports ?loaded (faults @ [override_fault port ?oc OverrideLacksPort]))) name = Some c"
        using 2(5) Inr by (simp add: Let_def)
      from 2(2) [OF refl Inr refl False l this 2(6)] show ?thesis .
    next
      case True
      let ?next = "case map_of (ri_archetype inp) port of
          Some dc \<Rightarrow> if dc \<noteq> ?oc then AList.delete dc ?loaded else ?loaded | None \<Rightarrow> ?loaded"
      have n: "load n = Some x" if "map_of ?next n = Some x" for n x
        using that l l' by (auto simp del: map_of_delete split: option.splits if_splits)
      have "map_of (fst (load_overrides inp ports ?next faults)) name = Some c"
        using 2(5) Inr True by (simp add: Let_def)
      then show ?thesis using 2(3) [OF refl Inr refl] True n 2(6) by blast
    qed
  qed
qed simp

lemma resolve_active:
  assumes "resolve inp = Inr r"
  shows "active_components r = fst (load_overrides inp (sorted_keys (ri_overrides inp)) (ri_components inp) [])"
  using assms by (auto simp: resolve_def Let_def split: prod.splits if_splits)

lemma resolved_set_answers:
  assumes "resolve inp = Inr r" "distinct (map fst (active_components r))"
  shows "answers_ports (active_components r) = []"
  unfolding answers_ports_Nil
proof (intro allI impI)
  fix name c req
  assume "(name, c) \<in> set (active_components r) \<and> req \<in> set (comp_requires c)"
  then have "map_of (active_components r) name = Some c" "req \<in> set (comp_requires c)"
    using assms(2) by (auto simp: map_of_is_SomeI)
  then have "resolved_for (effective_bindings inp) (active_components r) name (port_name req)"
    using resolve_Inr(1) [OF assms(1), of name] by (auto simp: all_resolved_def)
  then show "\<exists>q d. (q, d) \<in> set (active_components r) \<and> comp_provides_port d (port_name req)"
    by (auto simp: resolved_for_def split: option.splits dest!: map_of_SomeD)
qed

text \<open>A declaration without overrides keeps its whole baseline.\<close>

lemma active_set_faultless:
  assumes "as_faults (active_set_of a sv r) = []"
  obtains names active where "collect_component_names a (sv_mixins sv) (rg_mixins r) = Inr names"
    "as_baseline (active_set_of a sv r) = names" "as_components (active_set_of a sv r) = Some active"
    "set names \<subseteq> dom (map_of (rg_components r))" "sound_active_set (rg_components r) active"
    "service_port_overrides (sv_overrides sv) = [] \<Longrightarrow> map_of active = map_of (rg_components r) |` set names"
proof -
  obtain names where n: "collect_component_names a (sv_mixins sv) (rg_mixins r) = Inr names"
    using assms by (cases "collect_component_names a (sv_mixins sv) (rg_mixins r)") (simp_all add: active_set_of_def)
  then have m: "missing_component_faults (rg_components r) names = []"
    using assms by (simp add: active_set_of_def Let_def split: if_splits)
  obtain res where res: "resolve (active_input a sv r names) = Inr res"
    using assms n m by (cases "resolve (active_input a sv r names)") (simp_all add: active_set_of_def)
  have s: "active_set_of a sv r = \<lparr>as_baseline = names, as_components = Some (active_components res), as_faults = []\<rparr>"
    using n m res by (simp add: active_set_of_def)
  let ?inp = "active_input a sv r names"
  have known: "set names \<subseteq> dom (map_of (rg_components r))"
    using m unfolding missing_component_Nil by auto
  have base: "ri_components ?inp = baseline_components (rg_components r) names" by (simp add: active_input_def)
  have "distinct (map fst (ri_components ?inp))"
    using m collect_component_names_Inr(1) [OF n] unfolding base missing_component_Nil by (simp add: baseline_components_keys)
  then have d: "distinct (map fst (active_components res))"
    unfolding resolve_active [OF res] by (rule load_overrides_keeps)
  have l: "ri_loader ?inp = Some (map_of (rg_components r))" by (simp add: active_input_def)
  have "map_of (rg_components r) name = Some c" if h: "map_of (active_components res) name = Some c" for name c
    by (rule load_overrides_loaded [OF l _ h [unfolded resolve_active [OF res]]])
      (simp add: base map_of_baseline_components split: if_splits)
  then have "map_of (active_components res) \<subseteq>\<^sub>m map_of (rg_components r)"
    by (auto simp: map_le_def)
  then have "sound_active_set (rg_components r) (active_components res)"
    using d resolved_set_answers [OF res d] by (simp add: sound_active_set_def)
  moreover have "map_of (active_components res) = map_of (rg_components r) |` set names"
    if "service_port_overrides (sv_overrides sv) = []"
    unfolding resolve_active [OF res]
    using that by (auto simp: active_input_def sorted_keys_def map_of_baseline_components restrict_map_def)
  ultimately show thesis using that n known by (simp add: s)
qed

subsubsection \<open>Slots, fills and variables\<close>

lemma validate_slot_names_Nil:
  "validate_slot_names slots components mixin_slots = [] \<longleftrightarrow>
     (\<forall>sb \<in> set slots. sd_slot sb \<in> set (available_slots components mixin_slots))"
  unfolding validate_slot_names_def Let_def by (rule each_unseen_Nil) auto

lemma validate_slot_consumption_Nil:
  "generators \<noteq> [] \<Longrightarrow> validate_slot_consumption slots generators = [] \<longleftrightarrow>
     (\<forall>sb \<in> set slots. sd_slot sb \<in> set (consumed_slots generators))"
proof -
  assume g: "generators \<noteq> []"
  have "each (\<lambda>si sb _. only_if (sd_slot sb \<notin> set (consumed_slots generators))
          (slot_fault ''unconsumed-slot'' si (sd_slot sb) (consumed_slots generators))) slots = [] \<longleftrightarrow>
      (\<forall>sb \<in> set slots. sd_slot sb \<in> set (consumed_slots generators))"
    by (rule each_unseen_Nil) auto
  then show ?thesis using g by (auto simp: validate_slot_consumption_def)
qed

definition fill_in_order :: "string list \<Rightarrow> fill_state \<Rightarrow> bool" where
  "fill_in_order collections st \<longleftrightarrow> (\<exists>collection. st = FillServes collection \<and> (collection = '''' \<or> collection \<in> set collections))"

lemma fill_faults_Nil:
  "fill_faults slots collections fill reader names = Inr [] \<longleftrightarrow>
     (\<forall>name \<in> set names. reader \<and> fill_in_order collections (fill name))"
proof (induction names)
  case (Cons name names)
  have "fill_faults slots collections fill reader (name # names) = Inr [] \<longleftrightarrow>
      reader \<and> fill_in_order collections (fill name) \<and> fill_faults slots collections fill reader names = Inr []"
    by (cases "fill name") (auto simp: bind_result_Inr fill_in_order_def)
  then show ?case unfolding Cons.IH by auto
qed simp

lemma slot_var_clash_iff:
  "(\<forall>key. map_of seen (slot_var_name key) = Some key \<longrightarrow> key \<notin> set keys) \<Longrightarrow>
   (\<forall>v key. map_of seen v = Some key \<longrightarrow> slot_var_name key = v) \<Longrightarrow> distinct keys \<Longrightarrow>
     \<not> slot_var_clash seen keys \<longleftrightarrow>
       distinct (map slot_var_name keys) \<and> slot_var_name ` set keys \<inter> dom (map_of seen) = {}"
proof (induction seen keys rule: slot_var_clash.induct)
  case (2 seen key keys)
  show ?case
  proof (cases "map_of seen (slot_var_name key)")
    case None
    have "\<not> slot_var_clash (AList.update (slot_var_name key) key seen) keys \<longleftrightarrow>
        distinct (map slot_var_name keys) \<and>
        slot_var_name ` set keys \<inter> dom (map_of (AList.update (slot_var_name key) key seen)) = {}"
    proof (rule 2(1))
      show "\<forall>k. map_of (AList.update (slot_var_name key) key seen) (slot_var_name k) = Some k \<longrightarrow> k \<notin> set keys"
        using 2(2,4) by (metis distinct.simps(2) list.set_intros(2) map_of_update fun_upd_apply option.inject)
      show "\<forall>v k. map_of (AList.update (slot_var_name key) key seen) v = Some k \<longrightarrow> slot_var_name k = v"
        using 2(3) by (simp split: if_splits)
      show "distinct keys" using 2(4) by simp
    qed
    then show ?thesis using None by auto
  next
    case (Some first)
    then have "first \<noteq> key" using 2(2) by (metis list.set_intros(1))
    then show ?thesis using Some by auto
  qed
qed simp

lemma slot_variables_Nil:
  assumes "distinct (concat (map binding_keys slots))"
  shows "slot_variable_faults slots = [] \<longleftrightarrow> distinct (map slot_var_name (concat (map binding_keys slots)))"
  using slot_var_clash_iff [of "[]" "concat (map binding_keys slots)"] assms by (simp add: slot_variable_faults_def)

lemma validate_language_Nil:
  "validate_language service archetype = [] \<longleftrightarrow> service = ''go'' \<and> (archetype = '''' \<or> archetype = ''go'')"
  by (auto simp: validate_language_def)

end
