(* ===== verification/Go_Version.thy ===== *)
theory Go_Version
  imports Go_Time
begin

text \<open>
  What the code uses of Go's \<open>go/version\<close>: whether a text such as \<open>go1.22rc1\<close> is a version, and the order of
  two versions. The parts of a version are kept as the digits that were written; a number has no leading
  zero, so it is compared by its length first.
\<close>

record go_version =
  gv_major :: string
  gv_minor :: string
  gv_patch :: string
  gv_kind :: string
  gv_pre :: string

definition no_version :: go_version where
  "no_version = \<lparr>gv_major = '''', gv_minor = '''', gv_patch = '''', gv_kind = '''', gv_pre = ''''\<rparr>"

text \<open>The leading number of a text and what follows it.\<close>

definition cut_int :: "string \<Rightarrow> (string \<times> string) option" where
  "cut_int x =
     (let n = takeWhile is_digit x; rest = dropWhile is_digit x in
      if n = '''' \<or> (hd n = CHR ''0'' \<and> length n \<noteq> 1) then None else Some (n, rest))"

definition cmp_int :: "string \<Rightarrow> string \<Rightarrow> int" where
  "cmp_int x y =
     (if x = y then 0 else if length x < length y then -1 else if length x > length y then 1
      else if x < y then -1 else 1)"

definition kind_letter :: "char \<Rightarrow> bool" where
  "kind_letter c \<longleftrightarrow> 97 \<le> (of_char c :: nat) \<and> (of_char c :: nat) \<le> 122"

definition parse_prerelease :: "go_version \<Rightarrow> string \<Rightarrow> go_version" where
  "parse_prerelease v x =
     (let kind = takeWhile (\<lambda>c. \<not> is_digit c) x; rest = dropWhile (\<lambda>c. \<not> is_digit c) x in
      if kind = '''' \<or> \<not> list_all kind_letter kind then no_version
      else if rest = '''' then v\<lparr>gv_kind := kind\<rparr>
      else (case cut_int rest of
          Some (pre, '''') \<Rightarrow> v\<lparr>gv_kind := kind, gv_pre := pre\<rparr>
        | _ \<Rightarrow> no_version))"

definition parse_version :: "string \<Rightarrow> go_version" where
  "parse_version x =
     (case cut_int x of
        None \<Rightarrow> no_version
      | Some (major, '''') \<Rightarrow> no_version\<lparr>gv_major := major, gv_minor := ''0'', gv_patch := ''0''\<rparr>
      | Some (major, c # x) \<Rightarrow>
        if c \<noteq> CHR ''.'' then no_version
        else (case cut_int x of
            None \<Rightarrow> no_version
          | Some (minor, '''') \<Rightarrow>
            no_version\<lparr>gv_major := major, gv_minor := minor, gv_patch := (if cmp_int minor ''21'' < 0 then ''0'' else '''')\<rparr>
          | Some (minor, d # x) \<Rightarrow>
            let v = no_version\<lparr>gv_major := major, gv_minor := minor\<rparr> in
            if d = CHR ''.''
            then (case cut_int x of Some (patch, '''') \<Rightarrow> v\<lparr>gv_patch := patch\<rparr> | _ \<Rightarrow> no_version)
            else parse_prerelease v (d # x)))"

definition strip_go :: "string \<Rightarrow> string" where
  "strip_go v =
     (let v = takeWhile (\<lambda>c. c \<noteq> CHR ''-'') v in if has_prefix v ''go'' then drop 2 v else '''')"

definition version_valid :: "string \<Rightarrow> bool" where
  "version_valid x \<longleftrightarrow> parse_version (strip_go x) \<noteq> no_version"

definition version_compare :: "string \<Rightarrow> string \<Rightarrow> int" where
  "version_compare x y =
     (let v = parse_version (strip_go x); w = parse_version (strip_go y);
          cs = [cmp_int (gv_major v) (gv_major w), cmp_int (gv_minor v) (gv_minor w), cmp_int (gv_patch v) (gv_patch w),
                (if gv_kind v = gv_kind w then 0 else if gv_kind v < gv_kind w then -1 else 1),
                cmp_int (gv_pre v) (gv_pre w)]
      in case filter (\<lambda>c. c \<noteq> 0) cs of [] \<Rightarrow> 0 | c # _ \<Rightarrow> c)"

lemma sample_versions:
  "version_valid ''go1.22''" "version_valid ''go1.21rc2''" "\<not> version_valid ''1.22''" "\<not> version_valid ''go1.022''"
  "version_compare ''go1.9'' ''go1.10'' = -1" "version_compare ''go1.22.0'' ''go1.22'' = 1"
  "version_compare ''go1.22rc1'' ''go1.22.1'' = -1"
  by code_simp+

end
