(* ===== verification/Compile_Check.thy ===== *)
theory Compile_Check
  imports Active_Set Go_Version
begin

text \<open>
  \<open>internal/compiler/validate.go\<close>: \<open>validateSource\<close>, the one semantic gate of validate, plan and apply. It
  composes the check of the declaration, the active component set, settings, namespaces, generators, slots
  and fills, and prepares the components only when it has found no fault. What it asks of code that is not
  modelled is in \<open>check_env\<close>: the import path and go statement checks of \<open>golang.org/x/mod\<close>,
  \<open>strings.ToLower\<close>, the state of a fill on disk, the qualification of the fills and the preflight of the
  generators.
\<close>

subsection \<open>The build target\<close>

record check_env =
  ce_rules :: rule_env
  ce_lower :: "string \<Rightarrow> string"
  ce_check_import :: "string \<Rightarrow> bool"
  ce_go_statement :: "string \<Rightarrow> bool"
  ce_fill :: "string \<Rightarrow> fill_state"
  ce_reads_fills :: bool
  ce_qualify :: "(fill_check \<Rightarrow> string list option) option"
  ce_prepare :: "string list \<Rightarrow> component gomap \<Rightarrow> bool"

record check_input =
  ck_module :: string
  ck_go_version :: string
  ck_generators :: "generator_info gomap"

definition valid_build_target :: "check_env \<Rightarrow> string \<Rightarrow> string \<Rightarrow> bool" where
  "valid_build_target env module_name go_version \<longleftrightarrow>
     module_name \<noteq> '''' \<and> go_version \<noteq> '''' \<and> ce_check_import env module_name \<and>
     version_valid (''go'' @ go_version) \<and> ce_go_statement env go_version"

definition build_target_faults :: "check_env \<Rightarrow> check_input \<Rightarrow> fault list" where
  "build_target_faults env inp =
     only_if (\<not> valid_build_target env (ck_module inp) (ck_go_version inp))
       (fault ''target'' ''build-target'' ''build target'' (ck_module inp @ '' go'' @ ck_go_version inp) [])"

subsection \<open>Generators\<close>

definition suits_go_version :: "generator_info \<Rightarrow> string \<Rightarrow> bool" where
  "suits_go_version g target \<longleftrightarrow>
     (case gi_minimum_go g of
        None \<Rightarrow> True
      | Some minimum \<Rightarrow> version_valid (''go'' @ minimum) \<and> version_valid (''go'' @ target) \<and>
          \<not> version_compare (''go'' @ target) (''go'' @ minimum) < 0)"

definition validate_generator_go_version :: "generator_info \<Rightarrow> string \<Rightarrow> fault list" where
  "validate_generator_go_version g target =
     only_if (\<not> suits_go_version g target) (fault ''generator'' ''generator-go-version'' ''build target'' target [])"

definition generator_available :: "generator_info option \<Rightarrow> bool" where
  "generator_available g = (case g of None \<Rightarrow> False | Some g \<Rightarrow> gi_available g)"

definition generator_faults :: "check_input \<Rightarrow> component gomap \<Rightarrow> fault list" where
  "generator_faults inp components =
     concat (map (\<lambda>name. let g = map_of (ck_generators inp) name in
         if \<not> generator_available g then [fault ''generator'' ''generator'' ''archetype'' name []]
         else validate_generator_go_version (the g) (ck_go_version inp))
       (sorted_keys components))"

subsection \<open>Namespaces\<close>

definition namespace_fault_of :: "namespace_fault \<Rightarrow> fault" where
  "namespace_fault_of f =
     (let at = (\<lambda>name found. fault ''namespace'' ''namespace'' (''component_namespaces.'' @ name) found []) in
      case f of
        InvalidComponentNamespace name ns _ \<Rightarrow> at name ns
      | CompilerOwnedNamespace name ns \<Rightarrow> at name ns
      | OverlappingNamespaces other name previous ns \<Rightarrow> at name ns
      | InactiveComponent name \<Rightarrow> at name name
      | EmptyNamespace name \<Rightarrow> at name ''''
      | BadImportNamespace name ns \<Rightarrow> at name ns)"

definition namespaces_of :: "component gomap \<Rightarrow> string gomap" where
  "namespaces_of components = map (\<lambda>(name, c). (name, comp_namespace c)) components"

definition with_namespaces :: "component gomap \<Rightarrow> string gomap \<Rightarrow> component gomap" where
  "with_namespaces components namespaces =
     map (\<lambda>(name, c). (name, c\<lparr>comp_namespace := namespace_of namespaces name\<rparr>)) components"

text \<open>The components with the declared namespaces, and the faults of the declared namespaces.\<close>

definition apply_declared_namespaces ::
    "check_env \<Rightarrow> service_declaration \<Rightarrow> component gomap \<Rightarrow> component gomap \<times> fault list" where
  "apply_declared_namespaces env sv components =
     (case apply_component_namespaces (ce_check_import env) (sv_component_namespaces sv) (namespaces_of components) of
        (namespaces, faults) \<Rightarrow> (with_namespaces components namespaces, map namespace_fault_of faults))"

subsection \<open>The gate\<close>

datatype check_error = FillFailed fill_error | QualifyFailed

record checked =
  cd_faults :: "fault list"
  cd_active :: "component gomap option"
  cd_resolved :: bool

definition versioned_store_faults :: "entity list \<Rightarrow> component gomap \<Rightarrow> fault list" where
  "versioned_store_faults entities components =
     each (\<lambda>i e _. only_if (en_versioned e \<and> map_of components ''postgres-adapter'' = None)
       (fault ''component'' ''versioned-store'' (entity_path i @ ''.versioned'') ''true'' [])) entities"

definition mixin_slots :: "mixin gomap \<Rightarrow> string list \<Rightarrow> slot_definition list" where
  "mixin_slots mixins names =
     concat (map (\<lambda>name. case map_of mixins name of None \<Rightarrow> [] | Some m \<Rightarrow> mx_adds_slots m) names)"

text \<open>The faults of the active components and the slots that are bound to them.\<close>

definition component_faults :: "check_env \<Rightarrow> check_input \<Rightarrow> service_declaration \<Rightarrow> component gomap \<Rightarrow> fault list" where
  "component_faults env inp sv components =
     validate_component_config (ce_rules env) (sv_overrides sv) components @
     map namespace_fault_of (validate_component_namespaces (ce_lower env) (namespaces_of components)) @
     generator_faults inp components"

definition slot_faults :: "check_input \<Rightarrow> service_declaration \<Rightarrow> registry \<Rightarrow> component gomap \<Rightarrow> fault list" where
  "slot_faults inp sv r components =
     validate_slot_names (sv_slots sv) components (mixin_slots (rg_mixins r) (sv_mixins sv)) @
     validate_slot_consumption (sv_slots sv) (ck_generators inp)"

text \<open>The qualification of the bound fills: only when each bound fill is there and a qualifier is given.\<close>

definition qualify_faults ::
    "check_env \<Rightarrow> check_input \<Rightarrow> service_declaration \<Rightarrow> registry \<Rightarrow> component gomap \<Rightarrow> fault list \<Rightarrow> (check_error, fault list) result" where
  "qualify_faults env inp sv r components missing =
     (let check = fill_check_of (ck_module inp) sv (rg_mixins r) components in
      case ce_qualify env of
        None \<Rightarrow> Inr []
      | Some qualify \<Rightarrow>
        if missing \<noteq> [] \<or> fc_bindings check = [] then Inr []
        else (case qualify check of
            None \<Rightarrow> Inl QualifyFailed
          | Some messages \<Rightarrow> Inr (map (\<lambda>_. fault ''fill'' '''' '''' '''' []) messages)))"

definition archetype_of :: "registry \<Rightarrow> service_declaration \<Rightarrow> archetype option" where
  "archetype_of r sv = map_of (rg_archetypes r) (sv_archetype sv)"

definition archetype_faults :: "registry \<Rightarrow> service_declaration \<Rightarrow> fault list" where
  "archetype_faults r sv =
     (case archetype_of r sv of
        None \<Rightarrow> only_if (sv_archetype sv \<noteq> '''')
          (fault ''archetype'' ''archetype'' ''archetype'' (sv_archetype sv) (sorted_keys (rg_archetypes r)))
      | Some a \<Rightarrow> validate_language (sv_language sv) (ar_language a) @ as_faults (active_set_of a sv r))"

definition resolved_components :: "registry \<Rightarrow> service_declaration \<Rightarrow> component gomap option" where
  "resolved_components r sv = Option.bind (archetype_of r sv) (\<lambda>a. as_components (active_set_of a sv r))"

definition validate_source ::
    "check_env \<Rightarrow> check_input \<Rightarrow> service_declaration \<Rightarrow> undeclared_field list \<Rightarrow> registry \<Rightarrow> (check_error, checked) result" where
  "validate_source env inp sv undeclared r =
     (let own = validate_declaration (ce_rules env) sv undeclared;
          found = resolved_components r sv;
          (named, namespace_faults) = apply_declared_namespaces env sv (case found of None \<Rightarrow> [] | Some c \<Rightarrow> c);
          components = (case found of None \<Rightarrow> None | Some _ \<Rightarrow> Some named) in
      case validate_fills_exist (sv_slots sv) (sv_collections sv) (ce_fill env) (ce_reads_fills env) of
        Inl e \<Rightarrow> Inl (FillFailed e)
      | Inr fills \<Rightarrow>
        bind_result (case components of None \<Rightarrow> Inr [] | Some c \<Rightarrow> qualify_faults env inp sv r c fills) (\<lambda>qualified.
        let faults =
              build_target_faults env inp @ archetype_faults r sv @ fs_undeclared own @ fs_service own @ namespace_faults @
              (case components of None \<Rightarrow> [] | Some c \<Rightarrow> component_faults env inp sv c) @
              fs_entities own @ versioned_store_faults (sv_entities sv) named @ fs_collections own @
              (case components of None \<Rightarrow> [] | Some c \<Rightarrow> slot_faults inp sv r c) @
              fs_slots own @ slot_variable_faults (sv_slots sv) @ fills @ qualified;
            prepared = (faults = [] \<and> (case components of None \<Rightarrow> False | Some c \<Rightarrow>
              ce_prepare env (as_baseline (active_set_of (the (archetype_of r sv)) sv r)) c)) in
        Inr \<lparr>cd_faults = faults @ only_if (faults = [] \<and> \<not> prepared)
               (fault ''generator'' ''generator-input'' ''archetype'' (sv_archetype sv) []),
             cd_active = components, cd_resolved = prepared\<rparr>))"

subsection \<open>What the gate accepts\<close>

definition active_for :: "registry \<Rightarrow> service_declaration \<Rightarrow> archetype \<Rightarrow> component gomap \<Rightarrow> bool" where
  "active_for r sv a active \<longleftrightarrow>
     map_of (rg_archetypes r) (sv_archetype sv) = Some a \<and> as_faults (active_set_of a sv r) = [] \<and>
     as_components (active_set_of a sv r) = Some active"

definition declared_namespaces_suit :: "check_env \<Rightarrow> service_declaration \<Rightarrow> component gomap \<Rightarrow> bool" where
  "declared_namespaces_suit env sv active \<longleftrightarrow>
     (\<forall>name ns. map_of (sv_component_namespaces sv) name = Some ns \<longrightarrow>
        map_of active name \<noteq> None \<and> ns \<noteq> '''' \<and> validate_go_import_namespace (ce_check_import env) ns)"

definition namespaces_apart :: "(string \<Rightarrow> string) \<Rightarrow> component gomap \<Rightarrow> bool" where
  "namespaces_apart lower named \<longleftrightarrow> validate_component_namespaces lower (namespaces_of named) = []"

definition settings_in_order :: "check_env \<Rightarrow> service_declaration \<Rightarrow> component gomap \<Rightarrow> bool" where
  "settings_in_order env sv active \<longleftrightarrow>
     (\<forall>name v. map_of (sv_overrides sv) name = Some v \<longrightarrow> override_in_order (ce_rules env) active name v) \<and>
     (\<forall>name c. map_of active name = Some c \<longrightarrow> defaults_in_order (ce_rules env) c)"

definition generators_in_order :: "check_input \<Rightarrow> component gomap \<Rightarrow> bool" where
  "generators_in_order inp active \<longleftrightarrow>
     (\<forall>name c. map_of active name = Some c \<longrightarrow>
        (\<exists>g. map_of (ck_generators inp) name = Some g \<and> gi_available g \<and> suits_go_version g (ck_go_version inp)))"

definition slots_served :: "check_input \<Rightarrow> service_declaration \<Rightarrow> registry \<Rightarrow> component gomap \<Rightarrow> bool" where
  "slots_served inp sv r active \<longleftrightarrow>
     (\<forall>sb \<in> set (sv_slots sv).
        sd_slot sb \<in> set (available_slots active (mixin_slots (rg_mixins r) (sv_mixins sv))) \<and>
        (ck_generators inp \<noteq> [] \<longrightarrow> sd_slot sb \<in> set (consumed_slots (ck_generators inp))))"

definition fills_in_order :: "check_env \<Rightarrow> check_input \<Rightarrow> service_declaration \<Rightarrow> registry \<Rightarrow> component gomap \<Rightarrow> bool" where
  "fills_in_order env inp sv r active \<longleftrightarrow>
     (\<forall>sb \<in> set (sv_slots sv). \<forall>name \<in> set (bound_fills sb).
        ce_reads_fills env \<and> fill_in_order (map cl_name (sv_collections sv)) (ce_fill env name)) \<and>
     (\<forall>qualify. ce_qualify env = Some qualify \<longrightarrow> (\<exists>sb \<in> set (sv_slots sv). bound_fills sb \<noteq> []) \<longrightarrow>
        qualify (fill_check_of (ck_module inp) sv (rg_mixins r) active) = Some [])"

definition compilable :: "check_env \<Rightarrow> check_input \<Rightarrow> service_declaration \<Rightarrow> registry \<Rightarrow> archetype \<Rightarrow> component gomap \<Rightarrow> bool" where
  "compilable env inp sv r a active \<longleftrightarrow>
     (let named = fst (apply_declared_namespaces env sv active) in
      active_for r sv a active \<and> well_formed_declaration (ce_rules env) sv \<and>
      valid_build_target env (ck_module inp) (ck_go_version inp) \<and>
      sv_language sv = ''go'' \<and> (ar_language a = '''' \<or> ar_language a = ''go'') \<and>
      declared_namespaces_suit env sv active \<and> namespaces_apart (ce_lower env) named \<and>
      settings_in_order env sv named \<and> generators_in_order inp named \<and>
      (\<forall>e \<in> set (sv_entities sv). en_versioned e \<longrightarrow> map_of named ''postgres-adapter'' \<noteq> None) \<and>
      slots_served inp sv r named \<and> fills_in_order env inp sv r named \<and>
      distinct (map slot_var_name (concat (map binding_keys (sv_slots sv)))) \<and>
      ce_prepare env (as_baseline (active_set_of a sv r)) named)"

lemma map_of_with_namespaces:
  "map_of (with_namespaces components ns) name =
     map_option (\<lambda>c. c\<lparr>comp_namespace := namespace_of ns name\<rparr>) (map_of components name)"
  by (induction components) (auto simp: with_namespaces_def)

lemma map_of_namespaces_of: "map_of (namespaces_of components) name = map_option comp_namespace (map_of components name)"
  by (induction components) (auto simp: namespaces_of_def)

lemma apply_namespaces_Nil:
  "snd (apply_namespaces check_import declared names comps) = [] \<longleftrightarrow>
     (\<forall>name \<in> set names. map_of comps name \<noteq> None \<and> namespace_of declared name \<noteq> '''' \<and>
        validate_go_import_namespace check_import (namespace_of declared name))"
proof (induction check_import declared names comps rule: apply_namespaces.induct)
  case (2 check_import declared name names comps)
  then show ?case
    by (auto simp: Let_def split: option.splits prod.splits if_splits)
qed simp

lemma declared_namespaces_Nil:
  "snd (apply_declared_namespaces env sv active) = [] \<longleftrightarrow> declared_namespaces_suit env sv active"
proof -
  have "snd (apply_declared_namespaces env sv active) = [] \<longleftrightarrow>
      (\<forall>name \<in> set (sorted_keys (sv_component_namespaces sv)). map_of (namespaces_of active) name \<noteq> None \<and>
        namespace_of (sv_component_namespaces sv) name \<noteq> '''' \<and>
        validate_go_import_namespace (ce_check_import env) (namespace_of (sv_component_namespaces sv) name))"
    unfolding apply_namespaces_Nil [symmetric]
    by (simp add: apply_declared_namespaces_def apply_component_namespaces_def split: prod.splits)
  also have "\<dots> \<longleftrightarrow> declared_namespaces_suit env sv active"
    unfolding sorted_keys_dom declared_namespaces_suit_def
    by (auto simp: map_of_namespaces_of namespace_of_def dom_def)
  finally show ?thesis .
qed

lemma build_target_Nil: "build_target_faults env inp = [] \<longleftrightarrow> valid_build_target env (ck_module inp) (ck_go_version inp)"
  by (simp add: build_target_faults_def)

lemma generator_faults_Nil: "generator_faults inp active = [] \<longleftrightarrow> generators_in_order inp active"
proof -
  have "generator_faults inp active = [] \<longleftrightarrow>
      (\<forall>name \<in> set (sorted_keys active). \<exists>g. map_of (ck_generators inp) name = Some g \<and> gi_available g \<and>
        suits_go_version g (ck_go_version inp))"
    unfolding generator_faults_def collect_Nil
    by (intro ball_cong refl) (auto simp: generator_available_def validate_generator_go_version_def Let_def split: option.splits)
  then show ?thesis
    unfolding sorted_keys_dom generators_in_order_def by (auto simp: dom_def)
qed

lemma namespace_faults_Nil: "map namespace_fault_of fs = [] \<longleftrightarrow> fs = []"
  by simp

lemma component_faults_Nil:
  "component_faults env inp sv active = [] \<longleftrightarrow>
     settings_in_order env sv active \<and> namespaces_apart (ce_lower env) active \<and> generators_in_order inp active"
  by (auto simp: component_faults_def validate_component_config_Nil settings_in_order_def namespaces_apart_def generator_faults_Nil)

lemma versioned_store_Nil:
  "versioned_store_faults entities active = [] \<longleftrightarrow>
     (\<forall>e \<in> set entities. en_versioned e \<longrightarrow> map_of active ''postgres-adapter'' \<noteq> None)"
  unfolding versioned_store_faults_def by (rule each_unseen_Nil) auto

lemma slot_faults_Nil: "slot_faults inp sv r active = [] \<longleftrightarrow> slots_served inp sv r active"
proof (cases "ck_generators inp = []")
  case True
  then show ?thesis
    by (auto simp: slot_faults_def slots_served_def validate_slot_names_Nil validate_slot_consumption_def)
next
  case False
  then show ?thesis
    by (auto simp: slot_faults_def slots_served_def validate_slot_names_Nil validate_slot_consumption_Nil)
qed

lemma fills_exist_Nil:
  "validate_fills_exist (sv_slots sv) (sv_collections sv) fill reads = Inr [] \<longleftrightarrow>
     (\<forall>sb \<in> set (sv_slots sv). \<forall>name \<in> set (bound_fills sb). reads \<and> fill_in_order (map cl_name (sv_collections sv)) (fill name))"
  unfolding validate_fills_exist_def fill_faults_Nil collect_fill_names_def by auto

lemma no_bindings: "fc_bindings (fill_check_of m sv mixins active) = [] \<longleftrightarrow> (\<forall>sb \<in> set (sv_slots sv). bound_fills sb = [])"
  by (auto simp: fill_check_of_def)

lemma qualify_Nil:
  "qualify_faults env inp sv r active [] = Inr [] \<longleftrightarrow>
     (\<forall>qualify. ce_qualify env = Some qualify \<longrightarrow> (\<exists>sb \<in> set (sv_slots sv). bound_fills sb \<noteq> []) \<longrightarrow>
        qualify (fill_check_of (ck_module inp) sv (rg_mixins r) active) = Some [])"
  by (auto simp: qualify_faults_def Let_def no_bindings split: option.splits)

lemma fills_in_order_iff:
  "fills_in_order env inp sv r active \<longleftrightarrow>
     validate_fills_exist (sv_slots sv) (sv_collections sv) (ce_fill env) (ce_reads_fills env) = Inr [] \<and>
     qualify_faults env inp sv r active [] = Inr []"
  unfolding fills_in_order_def fills_exist_Nil qualify_Nil ..

lemma archetype_faults_Nil:
  "archetype_faults r sv = [] \<and> sv_archetype sv \<noteq> '''' \<longleftrightarrow>
     (\<exists>a active. active_for r sv a active \<and> sv_archetype sv \<noteq> '''' \<and> sv_language sv = ''go'' \<and>
        (ar_language a = '''' \<or> ar_language a = ''go''))"
proof (cases "map_of (rg_archetypes r) (sv_archetype sv)")
  case None
  then show ?thesis by (simp add: archetype_faults_def archetype_of_def active_for_def)
next
  case (Some a)
  have "\<exists>active. as_components (active_set_of a sv r) = Some active" if "as_faults (active_set_of a sv r) = []"
    using that by (rule active_set_faultless) blast
  then show ?thesis
    using Some by (auto simp: archetype_faults_def archetype_of_def active_for_def validate_language_Nil)
qed

text \<open>The gate with the active set and the states of the fills spelled out.\<close>

lemma validate_source_active:
  assumes "active_for r sv a active" "validate_fills_exist (sv_slots sv) (sv_collections sv) (ce_fill env) (ce_reads_fills env) = Inr fills"
    and "apply_declared_namespaces env sv active = (named, nfs)"
  shows "(\<exists>res. validate_source env inp sv undeclared r = Inr res \<and> cd_faults res = []) \<longleftrightarrow>
    qualify_faults env inp sv r named fills = Inr [] \<and> fills = [] \<and>
    build_target_faults env inp = [] \<and> archetype_faults r sv = [] \<and> nfs = [] \<and>
    all_faults (validate_declaration (ce_rules env) sv undeclared) = [] \<and>
    component_faults env inp sv named = [] \<and> versioned_store_faults (sv_entities sv) named = [] \<and>
    slot_faults inp sv r named = [] \<and> slot_variable_faults (sv_slots sv) = [] \<and>
    ce_prepare env (as_baseline (active_set_of a sv r)) named"
proof -
  have "resolved_components r sv = Some active" "archetype_of r sv = Some a"
    using assms(1) by (simp_all add: resolved_components_def archetype_of_def active_for_def)
  then show ?thesis
    using assms(2,3)
    by (cases "qualify_faults env inp sv r named fills") (auto simp: validate_source_def Let_def all_faults_def)
qed

lemma validate_source_inactive:
  assumes "validate_source env inp sv undeclared r = Inr res" "cd_faults res = []"
  shows "\<exists>a active fills. active_for r sv a active \<and>
    validate_fills_exist (sv_slots sv) (sv_collections sv) (ce_fill env) (ce_reads_fills env) = Inr fills"
proof -
  obtain fills where f: "validate_fills_exist (sv_slots sv) (sv_collections sv) (ce_fill env) (ce_reads_fills env) = Inr fills"
    using assms(1)
    by (cases "validate_fills_exist (sv_slots sv) (sv_collections sv) (ce_fill env) (ce_reads_fills env)")
      (simp_all add: validate_source_def Let_def split: prod.splits)
  have own: "all_faults (validate_declaration (ce_rules env) sv undeclared) = []" and arch: "archetype_faults r sv = []"
    using assms f by (auto simp: validate_source_def Let_def all_faults_def bind_result_Inr split: prod.splits)
  have "sv_archetype sv \<noteq> ''''" using own unfolding declaration_Nil by (simp add: well_formed_declaration_def)
  then obtain a active where "active_for r sv a active" using archetype_faults_Nil arch by blast
  with f show ?thesis by blast
qed

lemma check_Nil:
  "(\<exists>res. validate_source env inp sv undeclared r = Inr res \<and> cd_faults res = []) \<longleftrightarrow>
     undeclared = [] \<and> (\<exists>a active. compilable env inp sv r a active)"
proof -
  have step: "(\<exists>res. validate_source env inp sv undeclared r = Inr res \<and> cd_faults res = []) \<longleftrightarrow>
      undeclared = [] \<and> compilable env inp sv r a active"
    if act: "active_for r sv a active"
      and fills: "validate_fills_exist (sv_slots sv) (sv_collections sv) (ce_fill env) (ce_reads_fills env) = Inr fills"
    for a active fills
  proof -
    obtain named nfs where n: "apply_declared_namespaces env sv active = (named, nfs)" by (cases "apply_declared_namespaces env sv active")
    have named: "fst (apply_declared_namespaces env sv active) = named" "nfs = [] \<longleftrightarrow> declared_namespaces_suit env sv active"
      using declared_namespaces_Nil [of env sv active] by (simp_all add: n)
    have arch: "archetype_faults r sv = [] \<longleftrightarrow> sv_language sv = ''go'' \<and> (ar_language a = '''' \<or> ar_language a = ''go'')"
      using act by (auto simp: archetype_faults_def archetype_of_def active_for_def validate_language_Nil)
    have vars: "slot_variable_faults (sv_slots sv) = [] \<longleftrightarrow> distinct (map slot_var_name (concat (map binding_keys (sv_slots sv))))"
      if "well_formed_declaration (ce_rules env) sv"
      using that by (intro slot_variables_Nil) (simp add: well_formed_declaration_def well_formed_slots_def)
    have fill: "qualify_faults env inp sv r named fills = Inr [] \<and> fills = [] \<longleftrightarrow> fills_in_order env inp sv r named"
      unfolding fills_in_order_iff fills by auto
    show ?thesis
      unfolding validate_source_active [OF act fills n] compilable_def Let_def named(1)
        build_target_Nil arch named(2) declaration_Nil component_faults_Nil versioned_store_Nil slot_faults_Nil
      using act vars fill by blast
  qed
  show ?thesis
  proof
    assume l: "\<exists>res. validate_source env inp sv undeclared r = Inr res \<and> cd_faults res = []"
    then obtain a active fills where "active_for r sv a active"
        "validate_fills_exist (sv_slots sv) (sv_collections sv) (ce_fill env) (ce_reads_fills env) = Inr fills"
      using validate_source_inactive by blast
    from step [OF this] l show "undeclared = [] \<and> (\<exists>a active. compilable env inp sv r a active)" by blast
  next
    assume "undeclared = [] \<and> (\<exists>a active. compilable env inp sv r a active)"
    then obtain a active where u: "undeclared = []" and c: "compilable env inp sv r a active" by blast
    then have "active_for r sv a active"
        "validate_fills_exist (sv_slots sv) (sv_collections sv) (ce_fill env) (ce_reads_fills env) = Inr []"
      by (simp_all add: compilable_def Let_def fills_in_order_iff)
    from step [OF this] u c show "\<exists>res. validate_source env inp sv undeclared r = Inr res \<and> cd_faults res = []" by blast
  qed
qed

end
