(* ===== verification/Compile_Laws.thy ===== *)
theory Compile_Laws
  imports Compile_Check Registry_Laws Declaration_Laws
begin

text \<open>
  What the semantic gate promises of a declaration that it accepts against a loaded registry, and an
  evaluation of the whole path: two registry sources are captured, merged and checked, and a declaration is
  accepted against the result.
\<close>

text \<open>C1. The gate of validate, plan and apply finds no fault exactly when the declaration can be compiled:
  it is well formed and has no undeclared field; its archetype is registered and gives an active set; the
  build target and the language are valid; declared namespaces are for active components and none overlap;
  settings and schema defaults suit the schemas; each active component has a usable generator for the Go
  version; versioned entities have their store; each bound slot is defined and consumed; each bound fill is
  there, serves a declared collection and is qualified; the variables of the slot operators are distinct;
  and the preflight passes.\<close>

theorem check_accepts_iff:
  "(\<exists>res. validate_source env inp sv undeclared r = Inr res \<and> cd_faults res = []) \<longleftrightarrow>
     undeclared = [] \<and> (\<exists>a active. compilable env inp sv r a active)"
  by (rule check_Nil)

lemma answers_ports_with_namespaces: "answers_ports (with_namespaces active ns) = [] \<longleftrightarrow> answers_ports active = []"
  unfolding answers_ports_Nil
  by (force simp: with_namespaces_def comp_provides_port_def)

definition golden_name :: "archetype \<Rightarrow> service_declaration \<Rightarrow> registry \<Rightarrow> string \<Rightarrow> bool" where
  "golden_name a sv r name \<longleftrightarrow>
     name \<in> set (ar_components a) \<or>
     (\<exists>m \<in> set (sv_mixins sv). \<exists>mixin. map_of (rg_mixins r) m = Some mixin \<and> name \<in> set (mx_adds_components mixin))"

text \<open>What a component of the accepted set is: a component of the registry with its declared namespace,
  with a usable generator, and ga when the archetype's components or a declared mixin name it.\<close>

definition accepted_component :: "check_input \<Rightarrow> service_declaration \<Rightarrow> registry \<Rightarrow> archetype \<Rightarrow> string \<Rightarrow> component \<Rightarrow> bool" where
  "accepted_component inp sv r a name c \<longleftrightarrow>
     (\<exists>registered. map_of (rg_components r) name = Some registered \<and>
        c = registered\<lparr>comp_namespace := comp_namespace c\<rparr>) \<and>
     (\<exists>g. map_of (ck_generators inp) name = Some g \<and> gi_available g \<and> suits_go_version g (ck_go_version inp)) \<and>
     (golden_name a sv r name \<longrightarrow> comp_stage c = ''ga'')"

text \<open>The archetype and the components that the gate hands to generation.\<close>

lemma accepted_active:
  assumes "validate_source env inp sv undeclared r = Inr res" "cd_faults res = []"
  obtains a active where "compilable env inp sv r a active"
    "cd_active res = Some (fst (apply_declared_namespaces env sv active))"
proof -
  obtain a active where c: "compilable env inp sv r a active" using check_Nil assms by blast
  then have act: "resolved_components r sv = Some active"
    by (simp add: compilable_def Let_def active_for_def resolved_components_def archetype_of_def)
  have "cd_active res = Some (fst (apply_declared_namespaces env sv active))"
    using assms(1) act by (auto simp: validate_source_def Let_def bind_result_Inr split: prod.splits sum.splits)
  with c that show thesis by blast
qed

text \<open>C2. Against a loaded registry, the components of an accepted declaration answer each other's required
  ports, come from the registry unchanged but for their declared namespace, and have usable generators; and
  a component is ga where the archetype's list or a declared mixin put it in the set.\<close>

theorem accepted_set_is_sound:
  assumes "load_sources sum256 parsers disk sources = Inr r"
    and "validate_source env inp sv undeclared r = Inr res" and "cd_faults res = []"
  shows "\<exists>a active. map_of (rg_archetypes r) (sv_archetype sv) = Some a \<and> cd_active res = Some active \<and>
    answers_ports active = [] \<and> (\<forall>name c. map_of active name = Some c \<longrightarrow> accepted_component inp sv r a name c)"
proof -
  obtain a active where c: "compilable env inp sv r a active"
    and act: "cd_active res = Some (fst (apply_declared_namespaces env sv active))"
    using accepted_active [OF assms(2,3)] by blast
  obtain ns where ns: "fst (apply_declared_namespaces env sv active) = with_namespaces active ns"
    by (cases "apply_component_namespaces (ce_check_import env) (sv_component_namespaces sv) (namespaces_of active)")
      (simp add: apply_declared_namespaces_def)
  have a: "map_of (rg_archetypes r) (sv_archetype sv) = Some a" and f: "as_faults (active_set_of a sv r) = []"
    and s: "as_components (active_set_of a sv r) = Some active"
    and g: "generators_in_order inp (with_namespaces active ns)"
    using c by (simp_all add: compilable_def Let_def active_for_def ns)
  have sound: "sound_active_set (rg_components r) active"
    using active_set_faultless [OF f] s by (metis option.inject)
  have golden: "golden_paths_hold r"
    using assms(1) by (rule load_sources_golden)
  have "accepted_component inp sv r a name c" if n: "map_of (with_namespaces active ns) name = Some c" for name c
  proof -
    obtain c' where c': "map_of active name = Some c'" "c = c'\<lparr>comp_namespace := namespace_of ns name\<rparr>"
      using n by (auto simp: map_of_with_namespaces)
    then have reg: "map_of (rg_components r) name = Some c'"
      using sound by (auto simp: sound_active_set_def map_le_def dom_def)
    have "comp_stage c' = ''ga''" if "golden_name a sv r name"
      using golden that a reg unfolding golden_paths_hold_def golden_name_def by blast
    then show ?thesis
      using reg c'(2) g n by (auto simp: accepted_component_def generators_in_order_def)
  qed
  then show ?thesis
    using a act ns sound answers_ports_with_namespaces by (auto simp: sound_active_set_def)
qed

subsection \<open>An accepted declaration\<close>

definition sample_declaration :: service_declaration where
  "sample_declaration = (empty_declaration ''web'' ''go'')
     \<lparr>sv_slots := [\<lparr>sd_slot = ''policy'', sd_collection = '''', sd_gate = [''limit''], sd_chain = [], sd_fan_out = [],
        sd_short_circuit = False\<rparr>],
      sv_component_namespaces := [(''store'', ''internal/store'')]\<rparr>"

definition sample_env :: check_env where
  "sample_env =
     \<lparr>ce_rules = sample_rules, ce_lower = lower_ascii, ce_check_import = (\<lambda>_. True), ce_go_statement = (\<lambda>_. True),
      ce_fill = (\<lambda>name. if name = ''limit'' then FillServes '''' else FillMissing), ce_reads_fills = True,
      ce_qualify = Some (\<lambda>_. Some []), ce_prepare = (\<lambda>names _. names = [''store''])\<rparr>"

definition sample_check :: check_input where
  "sample_check =
     \<lparr>ck_module = ''example.org/web'', ck_go_version = ''1.26'',
      ck_generators = [(''store'', \<lparr>gi_available = True, gi_minimum_go = Some ''1.25.0'', gi_consumed = Some [''policy'']\<rparr>)]\<rparr>"

lemma sample_accepted:
  "(case load_sources sum256 sample_parsers sample_disk sample_sources of
      Inl _ \<Rightarrow> False
    | Inr r \<Rightarrow> (case validate_source sample_env sample_check sample_declaration [] r of
        Inl _ \<Rightarrow> False | Inr res \<Rightarrow> cd_faults res = []))"
  by code_simp

lemma accepted_set_is_sound_witness:
  "\<exists>r res active. load_sources sample_sum sample_parsers sample_disk sample_sources = Inr r \<and>
     validate_source sample_env sample_check sample_declaration [] r = Inr res \<and> cd_faults res = [] \<and>
     cd_active res = Some active \<and> answers_ports active = []"
proof -
  obtain r res where r: "load_sources sample_sum sample_parsers sample_disk sample_sources = Inr r"
      "validate_source sample_env sample_check sample_declaration [] r = Inr res" "cd_faults res = []"
    using sample_accepted [of sample_sum] by (auto split: sum.splits)
  obtain active where "cd_active res = Some active" "answers_ports active = []"
    using accepted_set_is_sound [OF r] by iprover
  with r show ?thesis by iprover
qed

subsection \<open>The default auth of an archetype is no part of its golden path\<close>

text \<open>\<open>checkGoldenPaths\<close> reads the component list of an archetype, and \<open>collectComponentNames\<close> adds the
  archetype's default auth to every active set. A default auth below ga is therefore neither refused when
  the registry loads nor when a declaration is checked: here an alpha component, with a sunset date, is the
  whole active set of an archetype.\<close>

definition gated_archetype :: archetype where
  "gated_archetype = sample_archetype\<lparr>ar_name := ''gated'', ar_components := [], ar_default_auth := ''trial''\<rparr>"

definition gated_trial :: component where
  "gated_trial = sample_trial\<lparr>comp_requires := []\<rparr>"

definition gated_parsers :: registry_parsers where
  "gated_parsers =
     \<lparr>ps_archetype = (\<lambda>text. if text = ''gated'' then Some gated_archetype else None),
      ps_component = (\<lambda>text. if text = ''trial'' then Some gated_trial else None), ps_mixin = (\<lambda>_. None)\<rparr>"

definition gated_tree :: node where
  "gated_tree = Directory
     [(''archetypes'', Directory [(''gated'', Directory [(''archetype.yaml'', Regular ''gated'')])]),
      (''components'', Directory [(''trial'', Directory [(''component.yaml'', Regular ''trial'')])])]"

definition gated_check :: check_input where
  "gated_check = sample_check\<lparr>ck_generators := [(''trial'', \<lparr>gi_available = True, gi_minimum_go = None, gi_consumed = None\<rparr>)]\<rparr>"

lemma gated_accepted:
  "(case load_sources sum256 gated_parsers (\<lambda>_. gated_tree) [\<lparr>so_name = ''common'', so_dir = ''/common''\<rparr>] of
      Inl _ \<Rightarrow> False
    | Inr r \<Rightarrow> (case validate_source (sample_env\<lparr>ce_prepare := \<lambda>_ _. True\<rparr>) gated_check (empty_declaration ''gated'' ''go'') [] r of
        Inl _ \<Rightarrow> False
      | Inr res \<Rightarrow> cd_faults res = [] \<and> map_option (map (\<lambda>(name, c). (name, comp_stage c))) (cd_active res) = Some [(''trial'', ''alpha'')]))"
  by code_simp

lemma default_auth_escapes_golden_path:
  "\<exists>r res active c. load_sources sum256 gated_parsers (\<lambda>_. gated_tree) [\<lparr>so_name = ''common'', so_dir = ''/common''\<rparr>] = Inr r \<and>
     golden_paths_hold r \<and>
     validate_source (sample_env\<lparr>ce_prepare := \<lambda>_ _. True\<rparr>) gated_check (empty_declaration ''gated'' ''go'') [] r = Inr res \<and>
     cd_faults res = [] \<and> cd_active res = Some active \<and> map_of active (ar_default_auth gated_archetype) = Some c \<and>
     \<not> fit_for_golden_path (Some c)"
proof -
  obtain r where r: "load_sources sum256 gated_parsers (\<lambda>_. gated_tree) [\<lparr>so_name = ''common'', so_dir = ''/common''\<rparr>] = Inr r"
    using gated_accepted [of sum256] by (auto split: sum.splits)
  obtain res active where res: "validate_source (sample_env\<lparr>ce_prepare := \<lambda>_ _. True\<rparr>) gated_check (empty_declaration ''gated'' ''go'') [] r = Inr res"
      "cd_faults res = []" "cd_active res = Some active"
    and s: "map (\<lambda>(name, c). (name, comp_stage c)) active = [(''trial'', ''alpha'')]"
    using gated_accepted [of sum256] r by (auto split: sum.splits)
  obtain c where "active = [(''trial'', c)]" "comp_stage c = ''alpha''" using s by auto
  then have "map_of active (ar_default_auth gated_archetype) = Some c" "\<not> fit_for_golden_path (Some c)"
    by (simp_all add: gated_archetype_def fit_for_golden_path_def)
  with r res load_sources_golden [OF r] show ?thesis by iprover
qed

end
