(* ===== verification/Fleet.thy ===== *)
theory Fleet
  imports Lifecycle
begin

text \<open>
  \<open>internal/fleet\<close>: the sweep of service checkouts (\<open>sweep.go\<close>), the question which services pin a digest
  (\<open>query.go\<close>) and the VEX document (\<open>vex.go\<close>). What a checkout holds at the place of its record and how
  YAML decodes it are arguments, as are \<open>filepath.Abs\<close>, the RFC 3339 form of a time, and the hash of the
  statements. The reason of an unknown checkout is kept, not its text.
\<close>

subsection \<open>The sweep\<close>

record pin =
  pn_component :: string
  pn_version :: string
  pn_digest :: string

record service =
  sv_service :: string
  sv_path :: string
  sv_pins :: "pin list"

datatype unknown_reason =
    NoRecord
  | OutputWithoutRecord
  | RecordUnreadable
  | NotYAML
  | OtherFormat
  | RecordOffFormat
  | RecordNamesNoService
  | NoComponentDigest string

record unknown =
  un_path :: string
  un_format_version :: int
  un_reason :: unknown_reason

record sweep =
  sw_services :: "service list"
  sw_unknown :: "unknown list"
  sw_order :: "string list"

definition record_format :: int where "record_format = 2"
definition max_record_bytes :: nat where "max_record_bytes = 8 * 2 ^ 20"

record component_record =
  cr_version :: string
  cr_sha :: string

record applied_record =
  ap_service_name :: string
  ap_components :: "component_record gomap"

record fleet_record =
  fr_format_version :: int
  fr_last_applied :: "applied_record option"

text \<open>What \<open>readBounded\<close> and \<open>os.Stat\<close> find in a checkout.\<close>

datatype record_read = RecordAbsent bool | RecordFails | RecordBytes string

record fleet_env =
  fe_read :: "string \<Rightarrow> record_read"
  fe_head :: "string \<Rightarrow> int option"
  fe_record :: "string \<Rightarrow> fleet_record option"
  fe_absolute :: "string \<Rightarrow> string option"

definition read_bounded :: "string \<Rightarrow> string option" where
  "read_bounded content = (if length content > max_record_bytes then None else Some content)"

definition pins_of :: "component_record gomap \<Rightarrow> pin list" where
  "pins_of components =
     map (\<lambda>name. let c = the (map_of components name) in
         \<lparr>pn_component = name, pn_version = cr_version c, pn_digest = cr_sha c\<rparr>) (sorted_keys components)"

definition undigested :: "component_record gomap \<Rightarrow> string option" where
  "undigested components = find (\<lambda>name. \<not> is_component_digest (cr_sha (the (map_of components name)))) (sorted_keys components)"

definition service_of :: "string \<Rightarrow> fleet_record \<Rightarrow> unknown + service" where
  "service_of checkout r =
     (let unknown = (\<lambda>reason. Inl \<lparr>un_path = checkout, un_format_version = fr_format_version r, un_reason = reason\<rparr>) in
      case fr_last_applied r of
        None \<Rightarrow> unknown RecordNamesNoService
      | Some applied \<Rightarrow>
        if ap_service_name applied = '''' then unknown RecordNamesNoService
        else (case undigested (ap_components applied) of
            Some name \<Rightarrow> unknown (NoComponentDigest name)
          | None \<Rightarrow> Inr \<lparr>sv_service = ap_service_name applied, sv_path = checkout, sv_pins = pins_of (ap_components applied)\<rparr>))"

definition read_checkout :: "fleet_env \<Rightarrow> string \<Rightarrow> unknown + service" where
  "read_checkout env checkout =
     (let unknown = (\<lambda>format reason. Inl \<lparr>un_path = checkout, un_format_version = format, un_reason = reason\<rparr>) in
      case fe_read env checkout of
        RecordAbsent out \<Rightarrow> unknown 0 (if out then OutputWithoutRecord else NoRecord)
      | RecordFails \<Rightarrow> unknown 0 RecordUnreadable
      | RecordBytes content \<Rightarrow>
        (case read_bounded content of
           None \<Rightarrow> unknown 0 RecordUnreadable
         | Some data \<Rightarrow>
           (case fe_head env data of
              None \<Rightarrow> unknown 0 NotYAML
            | Some format \<Rightarrow>
              if format \<noteq> record_format then unknown format OtherFormat
              else (case fe_record env data of
                  None \<Rightarrow> unknown format RecordOffFormat
                | Some r \<Rightarrow> service_of checkout r))))"

fun project_sweep :: "fleet_env \<Rightarrow> string list \<Rightarrow> sweep" where
  "project_sweep env [] = \<lparr>sw_services = [], sw_unknown = [], sw_order = []\<rparr>"
| "project_sweep env (checkout # rest) =
     (let s = project_sweep env rest in
      case read_checkout env checkout of
        Inl u \<Rightarrow> s\<lparr>sw_order := checkout # sw_order s, sw_unknown := u # sw_unknown s\<rparr>
      | Inr v \<Rightarrow> s\<lparr>sw_order := checkout # sw_order s, sw_services := v # sw_services s\<rparr>)"

subsection \<open>Which services pin a digest\<close>

record hit =
  ht_service :: string
  ht_path :: string
  ht_pin :: pin

record answer =
  an_digest :: string
  an_pinning :: "hit list"
  an_not_pinning :: "service list"
  an_unknown :: "unknown list"
  an_checkouts :: nat

definition hits :: "string \<Rightarrow> service \<Rightarrow> hit list" where
  "hits digest v =
     map (\<lambda>p. \<lparr>ht_service = sv_service v, ht_path = sv_path v, ht_pin = p\<rparr>) (filter (\<lambda>p. pn_digest p = digest) (sv_pins v))"

definition find_by_digest :: "sweep \<Rightarrow> string \<Rightarrow> answer" where
  "find_by_digest s digest =
     \<lparr>an_digest = digest, an_pinning = concat (map (hits digest) (sw_services s)),
      an_not_pinning = filter (\<lambda>v. hits digest v = []) (sw_services s),
      an_unknown = sw_unknown s, an_checkouts = length (sw_order s)\<rparr>"

subsection \<open>The VEX document\<close>

record vex_advisory =
  va_id :: string
  va_summary :: string
  va_subject :: subject
  va_successor :: "subject option"

definition advisories :: "lifecycle list \<Rightarrow> vex_advisory list" where
  "advisories ls =
     concat (map (\<lambda>l.
       (case lc_supersession l of None \<Rightarrow> [] | Some s \<Rightarrow>
          [\<lparr>va_id = sp_advisory_id s, va_summary = sp_summary s, va_subject = lc_subject l, va_successor = Some (sp_successor s)\<rparr>]) @
       (case lc_withdrawal l of None \<Rightarrow> [] | Some w \<Rightarrow>
          [\<lparr>va_id = wd_advisory_id w, va_summary = wd_reason w, va_subject = lc_subject l, va_successor = None\<rparr>])) ls)"

definition subject_text :: "subject \<Rightarrow> string" where
  "subject_text s = sj_name s @ ''@'' @ sj_digest s"

datatype vex_status = Affected | Fixed | Not_Affected | Under_Investigation

record vex_statement =
  vs_vulnerability :: string
  vs_description :: string
  vs_products :: "string list"
  vs_status :: vex_status
  vs_justification :: string
  vs_impact :: string
  vs_action :: string

definition service_product :: "string \<Rightarrow> string" where
  "service_product name = ''pkg:generic/'' @ name"

definition checkout_product :: "fleet_env \<Rightarrow> string \<Rightarrow> string" where
  "checkout_product env path = ''file://'' @ (case fe_absolute env path of None \<Rightarrow> path | Some absolute \<Rightarrow> absolute)"

definition open_statement :: "vex_advisory \<Rightarrow> string \<Rightarrow> vex_statement" where
  "open_statement a product =
     \<lparr>vs_vulnerability = va_id a, vs_description = va_summary a, vs_products = [product], vs_status = Under_Investigation,
      vs_justification = '''', vs_impact = '''', vs_action = ''''\<rparr>"

definition pins_subject :: "pin \<Rightarrow> subject \<Rightarrow> bool" where
  "pins_subject p s \<longleftrightarrow> pn_component p = sj_name s \<and> pn_digest p = sj_digest s"

definition action_text :: "vex_advisory \<Rightarrow> string" where
  "action_text a =
     (case va_successor a of
        Some s \<Rightarrow> ''Take the successor '' @ subject_text s @ '' with a registry pin bump and a new run of stego apply.''
      | None \<Rightarrow> ''Move off the withdrawn digest '' @ subject_text (va_subject a) @ '' with a registry pin bump and a new run of stego apply.'')"

text \<open>The loop over the pins of a service; \<open>holds\<close> says that a pin before names the component.\<close>

fun judge_pins :: "vex_advisory \<Rightarrow> bool \<Rightarrow> pin list \<Rightarrow> vex_statement \<Rightarrow> vex_statement" where
  "judge_pins a holds [] st =
     st\<lparr>vs_status := Not_Affected,
        vs_justification := (if holds then ''vulnerable_code_not_present'' else ''component_not_present''),
        vs_impact := (if holds then ''The service pins another digest of '' @ sj_name (va_subject a) @ ''.'' else '''')\<rparr>"
| "judge_pins a holds (p # ps) st =
     (if pins_subject p (va_subject a) then st\<lparr>vs_status := Affected, vs_action := action_text a\<rparr>
      else if (case va_successor a of None \<Rightarrow> False | Some s \<Rightarrow> pins_subject p s) then st\<lparr>vs_status := Fixed\<rparr>
      else judge_pins a (holds \<or> pn_component p = sj_name (va_subject a)) ps st)"

definition statement :: "vex_advisory \<Rightarrow> service \<Rightarrow> vex_statement" where
  "statement a v =
     (let st = open_statement a (service_product (sv_service v)) in
      if sj_kind (va_subject a) \<noteq> component_package then st else judge_pins a False (sv_pins v) st)"

record vex_document =
  vd_context :: string
  vd_id :: string
  vd_author :: string
  vd_timestamp :: string
  vd_version :: nat
  vd_statements :: "vex_statement list"

definition vex_statements :: "fleet_env \<Rightarrow> sweep \<Rightarrow> lifecycle list \<Rightarrow> vex_statement list" where
  "vex_statements env s ls =
     concat (map (\<lambda>a. map (statement a) (sw_services s) @
       map (\<lambda>u. open_statement a (checkout_product env (un_path u))) (sw_unknown s)) (advisories ls))"

definition vex :: "fleet_env \<Rightarrow> (time \<Rightarrow> string) \<Rightarrow> (vex_statement list \<Rightarrow> string) \<Rightarrow> sweep \<Rightarrow> lifecycle list \<Rightarrow> time \<Rightarrow> vex_document" where
  "vex env time_text short_hash s ls timestamp =
     \<lparr>vd_context = ''https://openvex.dev/ns/v0.2.0'',
      vd_id = ''https://openvex.dev/docs/stego/fleet-'' @ short_hash (vex_statements env s ls),
      vd_author = ''STEGO fleet sweep'', vd_timestamp = time_text timestamp, vd_version = 1,
      vd_statements = vex_statements env s ls\<rparr>"

subsection \<open>What the answers promise\<close>

text \<open>What the record of a checkout says of a digest.\<close>

definition records_service :: "fleet_env \<Rightarrow> string \<Rightarrow> bool" where
  "records_service env checkout \<longleftrightarrow> (\<exists>v. read_checkout env checkout = Inr v)"

definition records_pin :: "fleet_env \<Rightarrow> string \<Rightarrow> string \<Rightarrow> bool" where
  "records_pin env checkout digest \<longleftrightarrow>
     (\<exists>v. read_checkout env checkout = Inr v \<and> digest \<in> pn_digest ` set (sv_pins v))"

lemma service_of_path:
  "service_of checkout r = Inr v \<Longrightarrow> sv_path v = checkout"
  "service_of checkout r = Inl u \<Longrightarrow> un_path u = checkout"
  by (auto simp: service_of_def Let_def split: option.splits if_splits)

lemma read_checkout_path:
  "read_checkout env checkout = Inr v \<Longrightarrow> sv_path v = checkout"
  "read_checkout env checkout = Inl u \<Longrightarrow> un_path u = checkout"
  by (auto simp: read_checkout_def Let_def dest: service_of_path split: record_read.splits option.splits if_splits)

lemma project_sweep_sets:
  "set (sw_services (project_sweep env checkouts)) = {v. \<exists>c \<in> set checkouts. read_checkout env c = Inr v}"
  "set (sw_unknown (project_sweep env checkouts)) = {u. \<exists>c \<in> set checkouts. read_checkout env c = Inl u}"
  "sw_order (project_sweep env checkouts) = checkouts"
  by (induction checkouts) (auto simp: Let_def split: sum.splits)

lemma hits_Nil: "hits digest v = [] \<longleftrightarrow> digest \<notin> pn_digest ` set (sv_pins v)"
  by (auto simp: hits_def filter_empty_conv)

lemma hits_path: "ht_path ` set (hits digest v) = (if digest \<in> pn_digest ` set (sv_pins v) then {sv_path v} else {})"
  by (auto simp: hits_def image_iff)

lemma service_paths:
  "sv_path ` {v. \<exists>c \<in> S. read_checkout env c = Inr v \<and> P v} = {c. c \<in> S \<and> (\<exists>v. read_checkout env c = Inr v \<and> P v)}"
proof (rule set_eqI)
  fix c
  show "c \<in> sv_path ` {v. \<exists>c \<in> S. read_checkout env c = Inr v \<and> P v} \<longleftrightarrow> c \<in> {c. c \<in> S \<and> (\<exists>v. read_checkout env c = Inr v \<and> P v)}"
    using read_checkout_path(1) by (simp add: image_iff) metis
qed

lemma unknown_paths:
  "un_path ` {u. \<exists>c \<in> S. read_checkout env c = Inl u} = {c. c \<in> S \<and> \<not> records_service env c}"
proof (rule set_eqI)
  fix c
  have "records_service env c \<or> (\<exists>u. read_checkout env c = Inl u)" for c
    by (cases "read_checkout env c") (auto simp: records_service_def)
  then show "c \<in> un_path ` {u. \<exists>c \<in> S. read_checkout env c = Inl u} \<longleftrightarrow> c \<in> {c. c \<in> S \<and> \<not> records_service env c}"
    using read_checkout_path(2) by (simp add: image_iff records_service_def) (metis Inl_Inr_False)
qed


definition pins_digest :: "service \<Rightarrow> subject \<Rightarrow> bool" where
  "pins_digest v s \<longleftrightarrow> (\<exists>p \<in> set (sv_pins v). pins_subject p s)"

definition pins_successor :: "service \<Rightarrow> vex_advisory \<Rightarrow> bool" where
  "pins_successor v a \<longleftrightarrow> (\<exists>s. va_successor a = Some s \<and> pins_digest v s)"

lemma judge_pins_status:
  "vs_status (judge_pins a holds ps st) =
     (case find (\<lambda>p. pins_subject p (va_subject a) \<or> (\<exists>s. va_successor a = Some s \<and> pins_subject p s)) ps of
        None \<Rightarrow> Not_Affected
      | Some p \<Rightarrow> if pins_subject p (va_subject a) then Affected else Fixed)"
  by (induction ps arbitrary: holds) (auto split: option.splits)


definition sample_advisory :: vex_advisory where
  "sample_advisory =
     \<lparr>va_id = ''STEGO-1'', va_summary = ''graduated'',
      va_subject = \<lparr>sj_kind = component_package, sj_name = ''jwt-auth'', sj_digest = replicate 64 CHR ''a''\<rparr>,
      va_successor = Some \<lparr>sj_kind = component_package, sj_name = ''auth'', sj_digest = replicate 64 CHR ''b''\<rparr>\<rparr>"

definition sample_service :: "pin list \<Rightarrow> service" where
  "sample_service pins = \<lparr>sv_service = ''users'', sv_path = ''/users'', sv_pins = pins\<rparr>"

definition old_pin :: pin where
  "old_pin = \<lparr>pn_component = ''jwt-auth'', pn_version = ''1'', pn_digest = replicate 64 CHR ''a''\<rparr>"

definition new_pin :: pin where
  "new_pin = \<lparr>pn_component = ''auth'', pn_version = ''1'', pn_digest = replicate 64 CHR ''b''\<rparr>"


text \<open>A service that moves from one component to the component that took over its port pins both for a
  while. When the successor's name comes first, as here, the document calls the service fixed while its
  record still pins the affected digest; a service with the names the other way round is called affected.\<close>

lemma fixed_hides_an_affected_pin:
  "pins_digest (sample_service [new_pin, old_pin]) (va_subject sample_advisory) \<and>
   vs_status (statement sample_advisory (sample_service [new_pin, old_pin])) = Fixed \<and>
   vs_status (statement sample_advisory (sample_service [old_pin, new_pin])) = Affected"
  by (simp add: pins_digest_def pins_subject_def sample_service_def old_pin_def new_pin_def sample_advisory_def
      statement_def judge_pins_status)

end
