(* ===== verification/Parent_Loop.thy ===== *)
theory Parent_Loop
  imports File_Writes
begin

text \<open>
  The loop of \<open>syncParents\<close> (\<open>internal/compiler/transaction.go\<close>): it has no bound of its own and goes from a
  folder to its parent until that is the root. As a partial function it is \<open>None\<close> where the loop does not
  end. It ends for every path that the compiler accepts, after as many steps as the path has parts; for a
  rooted path it would not.
\<close>

partial_function (option) parent_loop :: "string \<Rightarrow> string list option" where
  "parent_loop directory =
     (if directory = ''.'' then Some [directory]
      else Option.bind (parent_loop (path_dir directory)) (\<lambda>rest. Some (directory # rest)))"

definition parent_dirs :: "string \<Rightarrow> string list option" where
  "parent_dirs name = parent_loop (path_dir name)"

definition above :: "string list \<Rightarrow> string list" where
  "above ps = map (\<lambda>i. join_with [slash] (take (Suc i) ps)) [0..<length ps]"

lemma above_snoc: "above (ps @ [p]) = above ps @ [join_with [slash] (ps @ [p])]"
  by (simp add: above_def)

lemma join_snoc: "ps \<noteq> [] \<Longrightarrow> join_with [slash] (ps @ [p]) = join_with [slash] ps @ slash # p"
  using join_with_append [of ps "[p]" "[slash]"] by simp

definition proper_parts :: "string list \<Rightarrow> bool" where
  "proper_parts ps \<longleftrightarrow> list_all (\<lambda>p. plain_part p \<and> slash \<notin> set p) ps"

lemma split_proper: "proper_parts ps \<Longrightarrow> ps \<noteq> [] \<Longrightarrow> split_on slash (join_with [slash] ps) = ps"
  by (rule split_join) (auto simp: proper_parts_def list_all_iff)

lemma path_dir_snoc:
  assumes "proper_parts (ps @ [p])"
  shows "path_dir (join_with [slash] (ps @ [p])) = (if ps = [] then ''.'' else join_with [slash] ps)"
proof (cases "ps = []")
  case True
  then show ?thesis using assms by (simp add: proper_parts_def path_dir_no_slash)
next
  case False
  have "list_all plain_part (split_on slash (join_with [slash] (ps @ [p])))"
    using assms by (subst split_proper) (auto simp: proper_parts_def list_all_iff)
  then show ?thesis
    using False assms by (simp add: join_snoc path_dir_last proper_parts_def)
qed

lemma join_not_dot:
  assumes "proper_parts ps" "ps \<noteq> []"
  shows "join_with [slash] ps \<noteq> ''.''"
proof
  assume "join_with [slash] ps = ''.''"
  then have "ps = split_on slash ''.''" using split_proper [OF assms] by simp
  then show False using assms(1) by (simp add: proper_parts_def plain_part_def slash_def)
qed

lemma parent_loop_parts:
  "proper_parts ps \<Longrightarrow> ps \<noteq> [] \<Longrightarrow> parent_loop (join_with [slash] ps) = Some (rev (above ps) @ [''.''])"
proof (induction ps rule: rev_induct)
  case (snoc p ps)
  have dot: "parent_loop ''.'' = Some [''.'']" by (subst parent_loop.simps) simp
  have "parent_loop (path_dir (join_with [slash] (ps @ [p]))) = Some (rev (above ps) @ [''.''])"
  proof (cases "ps = []")
    case True
    then show ?thesis using path_dir_snoc [OF snoc(2)] dot by (simp add: above_def)
  next
    case False
    then show ?thesis using path_dir_snoc [OF snoc(2)] snoc(1,2) by (simp add: proper_parts_def)
  qed
  then show ?case
    using join_not_dot [OF snoc(2)] by (subst parent_loop.simps) (simp add: above_snoc)
qed simp

text \<open>The folders that \<open>sync_parents\<close> visits are those of the loop, in its order, the root last.\<close>

lemma sync_parents_dirs:
  assumes "valid_path name"
  shows "parent_dirs name = Some (rev (butlast (path_prefixes name)) @ [''.''])"
proof -
  have p: "proper_parts (split_on slash name)"
    using valid_path_plain [OF assms] by (auto simp: proper_parts_def list_all_iff dest: split_on_parts_no_sep)
  obtain ps p where ps: "split_on slash name = ps @ [p]" by (metis rev_exhaust split_on_not_Nil)
  then have name: "name = join_with [slash] (ps @ [p])" by (metis join_split)
  have "path_prefixes name = above (ps @ [p])" by (simp add: path_prefixes_def above_def ps Let_def)
  then have "butlast (path_prefixes name) = above ps" by (simp add: above_snoc)
  moreover have "parent_dirs name = Some (rev (above ps) @ [''.''])"
  proof (cases "ps = []")
    case True
    then have "path_dir name = ''.''" using path_dir_snoc [of ps p] p unfolding ps by (simp add: name)
    then show ?thesis unfolding parent_dirs_def by (subst parent_loop.simps) (simp add: above_def True)
  next
    case False
    then have "path_dir name = join_with [slash] ps" using path_dir_snoc [of ps p] p unfolding ps by (simp add: name)
    then show ?thesis
      using parent_loop_parts [of ps] p False unfolding ps by (simp add: parent_dirs_def proper_parts_def)
  qed
  ultimately show ?thesis by simp
qed

lemma distinct_above:
  assumes "proper_parts ps"
  shows "distinct (above ps)"
proof -
  have "i = j" if "i < length ps" "j < length ps" "join_with [slash] (take (Suc i) ps) = join_with [slash] (take (Suc j) ps)" for i j
  proof -
    have k: "split_on slash (join_with [slash] (take (Suc k) ps)) = take (Suc k) ps" if "k < length ps" for k
      using assms that by (intro split_proper) (auto simp: proper_parts_def list_all_iff dest: in_set_takeD)
    have "take (Suc i) ps = take (Suc j) ps" using k [OF that(1)] k [OF that(2)] that(3) by metis
    then have "length (take (Suc i) ps) = length (take (Suc j) ps)" by simp
    with that(1,2) show ?thesis by simp
  qed
  then show ?thesis unfolding above_def distinct_map by (auto intro: inj_onI)
qed



text \<open>The loop has no end at a rooted path, whose last parent is the slash and not the dot: no accepted path
  is rooted.\<close>

lemma parent_loop_rooted: "parent_loop [slash] = None"
proof -
  have "path_dir [slash] = [slash]" by code_simp
  then have "parent_loop [slash] = Option.bind (parent_loop [slash]) (\<lambda>rest. Some ([slash] # rest))"
    by (subst parent_loop.simps) (simp add: slash_def)
  then show ?thesis by (cases "parent_loop [slash]") auto
qed

end
