(* ===== verification/Go_Text.thy ===== *)
theory Go_Text
  imports Go_Strings
begin

text \<open>
  More of Go's library on text: \<open>strings.Fields\<close>, \<open>strings.ReplaceAll\<close>, \<open>strings.Index\<close> and
  \<open>strings.EqualFold\<close>, and the lines that a \<open>bufio.Scanner\<close> gives.
\<close>

subsection \<open>strings.Fields\<close>

definition starts_space :: "string \<Rightarrow> bool" where
  "starts_space s \<longleftrightarrow> find (\<lambda>q. q \<noteq> [] \<and> prefix q (map of_char s)) space_seqs \<noteq> None"

fun take_word :: "string \<Rightarrow> string" where
  "take_word [] = []"
| "take_word (c # cs) = (if starts_space (c # cs) then [] else c # take_word cs)"

lemma length_take_word: "length (take_word s) \<le> length s"
  by (induction s) auto

lemma drop_seqs_idem: "find (\<lambda>q. q \<noteq> [] \<and> prefix q (map of_char (drop_seqs qs s))) qs = None"
  by (induction qs s rule: drop_seqs.induct) (subst drop_seqs.simps, auto split: option.splits)

lemma length_drop_seqs: "length (drop_seqs qs s) \<le> length s"
proof (induction qs s rule: drop_seqs.induct)
  case (1 qs s)
  then show ?case by (subst drop_seqs.simps) (auto split: option.splits intro: le_trans)
qed

lemma take_word_drop: "drop_seqs space_seqs s \<noteq> [] \<Longrightarrow> take_word (drop_seqs space_seqs s) \<noteq> []"
  using drop_seqs_idem [of space_seqs s] by (cases "drop_seqs space_seqs s") (auto simp: starts_space_def)

function go_fields :: "string \<Rightarrow> string list" where
  "go_fields s =
     (let t = drop_seqs space_seqs s; w = take_word t in
      if t = [] then [] else w # go_fields (drop (length w) t))"
  by pat_completeness auto
termination
proof (relation "measure length")
  fix s t w assume t: "t = drop_seqs space_seqs s" "w = take_word t" "t \<noteq> []"
  have "w \<noteq> []" using take_word_drop t by simp
  then have "length (drop (length w) t) < length t" using t(3) by simp
  also have "length t \<le> length s" using length_drop_seqs t(1) by simp
  finally show "(drop (length w) t, s) \<in> measure length" by simp
qed simp

declare go_fields.simps [simp del]

subsection \<open>strings.Index, strings.Contains and strings.ReplaceAll\<close>

fun index_of :: "string \<Rightarrow> string \<Rightarrow> nat option" where
  "index_of p [] = (if p = [] then Some 0 else None)"
| "index_of p (c # cs) = (if prefix p (c # cs) then Some 0 else map_option Suc (index_of p cs))"

definition has_part :: "string \<Rightarrow> string \<Rightarrow> bool" where
  "has_part s p \<longleftrightarrow> index_of p s \<noteq> None"

text \<open>\<open>strings.ReplaceAll(s, "\r\n", "\n")\<close>\<close>

fun unix_line_ends :: "string \<Rightarrow> string" where
  "unix_line_ends (a # b # rest) =
     (if a = CHR 0x0D \<and> b = CHR 0x0A then CHR 0x0A # unix_line_ends rest else a # unix_line_ends (b # rest))"
| "unix_line_ends s = s"

text \<open>\<open>strings.EqualFold\<close> of two texts, the first of hexadecimal digits. The Unicode folding of a
  hexadecimal digit is its ASCII folding.\<close>

definition equal_fold :: "string \<Rightarrow> string \<Rightarrow> bool" where
  "equal_fold a b \<longleftrightarrow> lower_ascii a = lower_ascii b"

subsection \<open>bufio.Scanner\<close>

definition line_end :: char where "line_end = CHR 0x0A"

definition drop_return :: "string \<Rightarrow> string" where
  "drop_return s = (if s \<noteq> [] \<and> last s = CHR 0x0D then butlast s else s)"

definition raw_lines :: "string \<Rightarrow> string list" where
  "raw_lines s = (let parts = split_on line_end s in if last parts = [] then butlast parts else parts)"

text \<open>The lines that a scanner gives whose buffer holds at most \<open>limit\<close> bytes, and whether a longer line
  stopped it (\<open>bufio.ErrTooLong\<close>).\<close>

definition scan_lines :: "nat \<Rightarrow> string \<Rightarrow> string list \<times> bool" where
  "scan_lines limit s =
     (let lines = raw_lines s; short = takeWhile (\<lambda>l. length l < limit) lines in
      (map drop_return short, length short < length lines))"

end
