(* ===== verification/Fill_Manifest.thy ===== *)
theory Fill_Manifest
  imports Go_Text Service_Types State_File
begin

text \<open>
  \<open>internal/fill/fill.go\<close>, \<open>fill_evidence.go\<close> and \<open>fill_signoff.go\<close>: a fill as its manifest
  \<open>fill.yaml\<close> states it, the checks of its evidence and its sign-off, and the rewriting of one section of
  the manifest. A YAML document is a tree of nodes; reading text into nodes and writing nodes as text, by the
  YAML library, are arguments, and so is the strict decoder that gives the record of a manifest.
\<close>

subsection \<open>The records\<close>

record signature =
  sg_key_type :: string
  sg_signer :: string
  sg_armored :: string

record fill_evidence =
  ev_fill_digest :: string
  ev_contract_digest :: string
  ev_passed_at :: time
  ev_compiler :: build_record
  ev_files :: "string gomap"

record fill_sign_off =
  so_evidence_digest :: string
  so_signature :: signature
  so_signed_at :: time

record fill =
  fi_kind :: string
  fi_name :: string
  fi_implements :: string
  fi_collection :: string
  fi_evidence :: "fill_evidence option"
  fi_sign_off :: "fill_sign_off option"

definition manifest_file :: string where "manifest_file = ''fill.yaml''"

subsection \<open>The checks\<close>

datatype section_fault =
    MissingField string
  | MalformedDigest string string
  | UnknownKeyType string
  | NotArmored string
  | SeveralBlocks

definition lower_hex :: "char \<Rightarrow> bool" where
  "lower_hex c \<longleftrightarrow> c \<in> set ''0123456789abcdef''"

definition valid_digest :: "string \<Rightarrow> bool" where
  "valid_digest digest \<longleftrightarrow> length digest = 64 \<and> list_all lower_hex digest"

definition key_ssh :: string where "key_ssh = ''ssh''"
definition key_gpg :: string where "key_gpg = ''gpg''"

definition armor_lines :: "string \<Rightarrow> (string \<times> string) option" where
  "armor_lines key_type =
     (if key_type = key_ssh then Some (''-----BEGIN SSH SIGNATURE-----'', ''-----END SSH SIGNATURE-----'')
      else if key_type = key_gpg then Some (''-----BEGIN PGP SIGNATURE-----'', ''-----END PGP SIGNATURE-----'')
      else None)"

definition signature_fault :: "signature \<Rightarrow> section_fault option" where
  "signature_fault s =
     (case armor_lines (sg_key_type s) of
        None \<Rightarrow> Some (UnknownKeyType (sg_key_type s))
      | Some (first_line, last_line) \<Rightarrow>
        (let text = split_on line_end (trim_space (unix_line_ends (sg_armored s))) in
         if length text < 3 \<or> trim_space (hd text) \<noteq> first_line \<or> trim_space (last text) \<noteq> last_line
         then Some (NotArmored (sg_key_type s))
         else if list_ex (\<lambda>line. has_prefix (trim_space line) ''-----'') (butlast (tl text)) then Some SeveralBlocks
         else None))"

definition digest_fault :: "string \<Rightarrow> string \<Rightarrow> section_fault option" where
  "digest_fault name digest =
     (if digest = '''' then Some (MissingField name)
      else if \<not> valid_digest digest then Some (MalformedDigest name digest) else None)"

definition evidence_fault :: "fill_evidence \<Rightarrow> section_fault option" where
  "evidence_fault e =
     or_else (digest_fault ''fill_digest'' (ev_fill_digest e))
      (or_else (digest_fault ''contract_digest'' (ev_contract_digest e))
        (if ev_passed_at e = 0 then Some (MissingField ''passed_at'') else None))"

definition sign_off_fault :: "fill_sign_off \<Rightarrow> section_fault option" where
  "sign_off_fault s =
     or_else (digest_fault ''evidence_digest'' (so_evidence_digest s))
      (or_else (if sg_armored (so_signature s) = '''' then Some (MissingField ''signature.signature'') else None)
        (or_else (signature_fault (so_signature s))
          (if so_signed_at s = 0 then Some (MissingField ''signed_at'') else None)))"

subsection \<open>Reading a manifest\<close>

datatype manifest_error =
    Undecodable
  | BadEvidence section_fault
  | BadSignOff section_fault

text \<open>\<open>ParseFill\<close>, on the content of the file. The decoder gives no fill for a file that it refuses, one of
  another kind included.\<close>

definition parse_fill :: "(string \<Rightarrow> fill option) \<Rightarrow> string \<Rightarrow> (manifest_error, fill) result" where
  "parse_fill decode data =
     (case decode data of
        None \<Rightarrow> Inl Undecodable
      | Some f \<Rightarrow>
        after (map_option BadEvidence (Option.bind (fi_evidence f) evidence_fault))
         (after (map_option BadSignOff (Option.bind (fi_sign_off f) sign_off_fault))
           (Inr f)))"

definition read_collection :: "(string \<Rightarrow> fill option) \<Rightarrow> string \<Rightarrow> (manifest_error, string) result" where
  "read_collection decode data = bind_result (parse_fill decode data) (\<lambda>f. Inr (fi_collection f))"

subsection \<open>The manifest as a YAML document\<close>

datatype yaml_kind = ZeroNode | DocumentNode | SequenceNode | MappingNode | ScalarNode | AliasNode

text \<open>A node: its kind, its value, its content, and the rest, such as its tag, its style and its comments.\<close>

datatype yaml_node = YamlNode (yn_kind: yaml_kind) (yn_value: string) (yn_content: "yaml_node list") (yn_rest: string)

text \<open>What the code uses of the YAML library: \<open>Unmarshal\<close> into a node, the encoder with an indent of two,
  and \<open>Node.Encode\<close> of a record.\<close>

record yaml_library =
  yl_unmarshal :: "string \<Rightarrow> yaml_node option"
  yl_encode :: "yaml_node \<Rightarrow> string option"
  yl_evidence :: "fill_evidence \<Rightarrow> yaml_node option"
  yl_sign_off :: "fill_sign_off \<Rightarrow> yaml_node option"

fun remove_key :: "string \<Rightarrow> yaml_node list \<Rightarrow> yaml_node list" where
  "remove_key key (k # v # rest) = (if yn_value k = key then rest else k # v # remove_key key rest)"
| "remove_key key nodes = nodes"

text \<open>The root mapping of a document, and the document with other content in its root.\<close>

definition root_mapping :: "yaml_node \<Rightarrow> yaml_node option" where
  "root_mapping document =
     (case yn_content document of
        [root] \<Rightarrow> if yn_kind document = DocumentNode \<and> yn_kind root = MappingNode then Some root else None
      | _ \<Rightarrow> None)"

definition with_content :: "yaml_node \<Rightarrow> yaml_node list \<Rightarrow> yaml_node" where
  "with_content n content = YamlNode (yn_kind n) (yn_value n) content (yn_rest n)"

definition with_root :: "yaml_node \<Rightarrow> yaml_node \<Rightarrow> yaml_node list \<Rightarrow> yaml_node" where
  "with_root document root content = with_content document [with_content root content]"

definition key_node :: "string \<Rightarrow> yaml_node" where
  "key_node key = YamlNode ScalarNode key [] ''!!str''"

datatype write_error =
    SectionRefused section_fault
  | ManifestGone
  | NotYaml
  | NotMapping
  | NotEncoded
  | NotWritten

text \<open>\<open>writeSection\<close> on the content of the manifest: the new content, which takes the place of the old with
  one rename. \<open>write_fails\<close> tells that the temporary file, its mode or the rename fails; the manifest is then as it was,
  and so it is for each error.\<close>

definition write_section ::
    "yaml_library \<Rightarrow> bool \<Rightarrow> string \<Rightarrow> yaml_node option option \<Rightarrow> string option \<Rightarrow> (write_error, string) result" where
  "write_section yl write_fails key value content =
     (case content of
        None \<Rightarrow> Inl ManifestGone
      | Some data \<Rightarrow>
        (case yl_unmarshal yl data of
           None \<Rightarrow> Inl NotYaml
         | Some document \<Rightarrow>
           (case root_mapping document of
              None \<Rightarrow> Inl NotMapping
            | Some root \<Rightarrow>
              (let kept = remove_key key (yn_content root) in
               bind_result (case value of
                   None \<Rightarrow> Inr kept
                 | Some None \<Rightarrow> Inl NotEncoded
                 | Some (Some encoded) \<Rightarrow> Inr (kept @ [key_node key, encoded]))
                 (\<lambda>nodes. case yl_encode yl (with_root document root nodes) of
                    None \<Rightarrow> Inl NotEncoded
                  | Some out \<Rightarrow> if write_fails then Inl NotWritten else Inr out)))))"

definition write_evidence ::
    "yaml_library \<Rightarrow> bool \<Rightarrow> fill_evidence \<Rightarrow> string option \<Rightarrow> (write_error, string) result" where
  "write_evidence yl write_fails e content =
     after (map_option SectionRefused (evidence_fault e))
       (write_section yl write_fails ''evidence'' (Some (yl_evidence yl e)) content)"

definition write_sign_off ::
    "yaml_library \<Rightarrow> bool \<Rightarrow> fill_sign_off \<Rightarrow> string option \<Rightarrow> (write_error, string) result" where
  "write_sign_off yl write_fails s content =
     after (map_option SectionRefused (sign_off_fault s))
       (write_section yl write_fails ''sign_off'' (Some (yl_sign_off yl s)) content)"

text \<open>\<open>manifestContent\<close>: the manifest as the fill digest counts it.\<close>

definition manifest_content :: "yaml_library \<Rightarrow> string \<Rightarrow> string" where
  "manifest_content yl data =
     (case yl_unmarshal yl data of
        None \<Rightarrow> data
      | Some document \<Rightarrow>
        (case root_mapping document of
           None \<Rightarrow> data
         | Some root \<Rightarrow>
           (case yl_encode yl (with_root document root (remove_key ''sign_off'' (remove_key ''evidence'' (yn_content root)))) of
              None \<Rightarrow> data
            | Some out \<Rightarrow> out)))"

end
