(* ===== verification/Fill_Digest.thy ===== *)
theory Fill_Digest
  imports Fill_Manifest Registry_Load
begin

text \<open>
  \<open>internal/fill/digest.go\<close>: the digest of a fill's folder and the digest of a slot contract. The folder is
  a tree of nodes; SHA-256 is an argument that gives the bytes of a sum. The contract and its imports are
  read from the captured registry.
\<close>

subsection \<open>The files of a fill\<close>

datatype folder_error = NotRegularFile string | FolderUnreadable string

text \<open>How the digest counts the content of a file.\<close>

definition counted_content :: "yaml_library \<Rightarrow> string \<Rightarrow> string \<Rightarrow> string" where
  "counted_content yl relative data = (if relative = manifest_file then manifest_content yl data else data)"

definition sum_text :: "(string \<Rightarrow> string) \<Rightarrow> string \<Rightarrow> string" where
  "sum_text sum256 data = hex_text (sum256 data)"

fun walk_fill ::
    "yaml_library \<Rightarrow> (string \<Rightarrow> string) \<Rightarrow> string \<Rightarrow> node \<Rightarrow> string gomap \<Rightarrow> (folder_error, string gomap) result"
  and walk_fill_entries ::
    "yaml_library \<Rightarrow> (string \<Rightarrow> string) \<Rightarrow> string \<Rightarrow> (string \<times> node) list \<Rightarrow> string gomap \<Rightarrow> (folder_error, string gomap) result"
where
  "walk_fill yl sum256 relative (Directory entries) files = walk_fill_entries yl sum256 relative entries files"
| "walk_fill yl sum256 relative (Regular data) files =
     Inr (AList.update relative (sum_text sum256 (counted_content yl relative data)) files)"
| "walk_fill yl sum256 relative Unreadable files = Inl (FolderUnreadable relative)"
| "walk_fill yl sum256 relative Symlink files = Inl (NotRegularFile relative)"
| "walk_fill yl sum256 relative Special files = Inl (NotRegularFile relative)"
| "walk_fill_entries yl sum256 relative [] files = Inr files"
| "walk_fill_entries yl sum256 relative ((entry, n) # rest) files =
     bind_result (walk_fill yl sum256 (path_join [relative, entry]) n files)
       (walk_fill_entries yl sum256 relative rest)"

text \<open>\<open>FileDigests\<close>: each file of the folder by its path in it. The operating system lists a folder in an
  order of its own, and \<open>filepath.WalkDir\<close> walks it in the order of the names.\<close>

fun in_name_order :: "node \<Rightarrow> node" where
  "in_name_order (Directory entries) = Directory (sort_key fst (map (map_prod id in_name_order) entries))"
| "in_name_order n = n"

definition file_digests :: "yaml_library \<Rightarrow> (string \<Rightarrow> string) \<Rightarrow> node \<Rightarrow> (folder_error, string gomap) result" where
  "file_digests yl sum256 folder = walk_fill yl sum256 ''.'' (in_name_order folder) []"

subsection \<open>The digest of named contents\<close>

definition combine_entry :: "string \<Rightarrow> string \<Rightarrow> string" where
  "combine_entry name digest = show_nat (length name) @ CHR '':'' # name @ CHR 0x00 # digest @ [CHR 0x0A]"

definition combine_bytes :: "string gomap \<Rightarrow> string" where
  "combine_bytes files = concat (map (\<lambda>name. combine_entry name (the (map_of files name))) (sorted_keys files))"

definition combine :: "(string \<Rightarrow> string) \<Rightarrow> string gomap \<Rightarrow> string" where
  "combine sum256 files = sum_text sum256 (combine_bytes files)"

definition fill_digest :: "yaml_library \<Rightarrow> (string \<Rightarrow> string) \<Rightarrow> node \<Rightarrow> (folder_error, string) result" where
  "fill_digest yl sum256 folder = bind_result (file_digests yl sum256 folder) (\<lambda>files. Inr (combine sum256 files))"

subsection \<open>The imports of a protobuf file\<close>

text \<open>The content of a string literal up to its end, and what follows; at a backslash the next byte belongs to it.\<close>

fun proto_literal :: "char \<Rightarrow> string \<Rightarrow> string \<times> string" where
  "proto_literal quote [] = ([], [])"
| "proto_literal quote (c # cs) =
     (if c = CHR 0x5C then
        (case cs of
           [] \<Rightarrow> ([c], [])
         | d # ds \<Rightarrow> let (inside, rest) = proto_literal quote ds in (c # d # inside, rest))
      else if c = quote then ([c], cs)
      else let (inside, rest) = proto_literal quote cs in (c # inside, rest))"

text \<open>A block comment: its line ends, and what follows it.\<close>

fun block_comment :: "string \<Rightarrow> string \<times> string" where
  "block_comment (a # b # rest) =
     (if a = CHR ''*'' \<and> b = CHR ''/'' then ([], rest)
      else let (ends, after_it) = block_comment (b # rest) in (if a = line_end then line_end # ends else ends, after_it))"
| "block_comment s = ([], [])"

lemma length_proto_literal: "length (snd (proto_literal q s)) \<le> length s"
proof (induction q s rule: proto_literal.induct)
  case (2 q c cs)
  show ?case
  proof (cases "c = CHR 0x5C")
    case True
    then show ?thesis using 2(1) [OF True] by (cases cs) (simp_all add: split_beta le_SucI)
  next
    case False
    then show ?thesis using 2(2) [OF False] by (simp add: split_beta le_SucI)
  qed
qed simp

lemma length_block_comment: "length (snd (block_comment s)) \<le> length s"
proof (induction s rule: block_comment.induct)
  case (1 a b rest)
  show ?case
  proof (cases "a = CHR ''*'' \<and> b = CHR ''/''")
    case False
    then show ?thesis using 1 [OF False] by (simp add: split_beta le_SucI)
  qed simp
qed auto

function strip_comments :: "string \<Rightarrow> string" where
  "strip_comments s =
     (case s of
        [] \<Rightarrow> []
      | c # cs \<Rightarrow>
        if c = CHR 0x22 \<or> c = CHR 0x27 then
          (let (inside, rest) = proto_literal c cs in c # inside @ strip_comments rest)
        else if c = CHR ''/'' \<and> cs \<noteq> [] \<and> hd cs = CHR ''/'' then
          (let rest = dropWhile (\<lambda>x. x \<noteq> line_end) cs in
           if rest = [] then [] else line_end # strip_comments (tl rest))
        else if c = CHR ''/'' \<and> cs \<noteq> [] \<and> hd cs = CHR ''*'' then
          (let (ends, rest) = block_comment (tl cs) in ends @ strip_comments rest)
        else c # strip_comments cs)"
  by pat_completeness auto
termination
proof (relation "measure length", goal_cases)
  case (2 s c cs p inside rest)
  then show ?case using length_proto_literal [of c cs] by (metis in_measure le_imp_less_Suc length_Cons snd_conv)
next
  case (3 s c cs rest)
  have "length (tl rest) < Suc (length cs)"
    using length_dropWhile_le [of "\<lambda>x. x \<noteq> line_end" cs] unfolding 3(4) by (simp add: le_diff_conv)
  then show ?case using 3(1) by simp
next
  case (4 s c cs p ends rest)
  then have "length rest \<le> length (tl cs)" using length_block_comment [of "tl cs"] by (metis snd_conv)
  then show ?case using 4 by simp
qed auto

declare strip_comments.simps [simp del]

text \<open>The expression \<open>protoImport\<close>, matched at the start of a line: white space, the word \<open>import\<close>, white
  space, one of \<open>public\<close> and \<open>weak\<close> with white space or neither, a quoted path that is not empty, white
  space and a semicolon. It gives the path and what follows the match.\<close>

definition proto_space :: "char \<Rightarrow> bool" where
  "proto_space c \<longleftrightarrow> c \<in> {CHR 0x09, CHR 0x0A, CHR 0x0C, CHR 0x0D, CHR 0x20}"

definition skip_spaces :: "string \<Rightarrow> string" where "skip_spaces = dropWhile proto_space"

definition word_and_spaces :: "string \<Rightarrow> string \<Rightarrow> string option" where
  "word_and_spaces word s =
     (let rest = drop (length word) s in
      if has_prefix s word \<and> rest \<noteq> [] \<and> proto_space (hd rest) then Some (skip_spaces rest) else None)"

definition match_import :: "string \<Rightarrow> (string \<times> string) option" where
  "match_import s =
     (case word_and_spaces ''import'' (skip_spaces s) of
        None \<Rightarrow> None
      | Some a \<Rightarrow>
        (let b = (case word_and_spaces ''public'' a of
                    Some r \<Rightarrow> r | None \<Rightarrow> (case word_and_spaces ''weak'' a of Some r \<Rightarrow> r | None \<Rightarrow> a)) in
         if b = [] \<or> hd b \<noteq> CHR 0x22 then None
         else (let path = takeWhile (\<lambda>c. c \<noteq> CHR 0x22) (tl b); rest = dropWhile (\<lambda>c. c \<noteq> CHR 0x22) (tl b) in
           if path = [] \<or> rest = [] then None
           else (let end = skip_spaces (tl rest) in
             if end \<noteq> [] \<and> hd end = CHR '';'' then Some (path, tl end) else None))))"

lemma word_and_spaces_shorter: "word_and_spaces w s = Some r \<Longrightarrow> length r \<le> length s"
  using length_dropWhile_le [of proto_space "drop (length w) s"]
  by (auto simp: word_and_spaces_def Let_def skip_spaces_def split: if_splits)

lemma match_import_shorter:
  assumes "match_import s = Some (path, rest)"
  shows "length rest < length s"
proof -
  obtain a where a: "word_and_spaces ''import'' (skip_spaces s) = Some a"
    using assms by (auto simp: match_import_def split: option.splits)
  define b where "b = (case word_and_spaces ''public'' a of
      Some r \<Rightarrow> r | None \<Rightarrow> (case word_and_spaces ''weak'' a of Some r \<Rightarrow> r | None \<Rightarrow> a))"
  define after_path where "after_path = dropWhile (\<lambda>c. c \<noteq> CHR 0x22) (tl b)"
  have "b \<noteq> []" "after_path \<noteq> []" "skip_spaces (tl after_path) \<noteq> []" "rest = tl (skip_spaces (tl after_path))"
    using assms a unfolding match_import_def b_def after_path_def by (auto simp: Let_def split: if_splits)
  moreover have "length (skip_spaces t) \<le> length t" for t :: string
    by (simp add: skip_spaces_def length_dropWhile_le)
  moreover have "length after_path \<le> length (tl b)" unfolding after_path_def by (rule length_dropWhile_le)
  moreover have "length b \<le> length a"
    using word_and_spaces_shorter [of _ a] by (auto simp: b_def split: option.splits)
  moreover have "length a \<le> length (skip_spaces s)" using word_and_spaces_shorter [OF a] .
  moreover have "length (skip_spaces s) \<le> length s" by (simp add: skip_spaces_def length_dropWhile_le)
  moreover have "length (tl t) < length t" if "t \<noteq> []" for t :: string using that by (cases t) auto
  ultimately show ?thesis by (meson le_trans less_imp_le order.strict_trans2)
qed

function find_imports :: "bool \<Rightarrow> string \<Rightarrow> string list" where
  "find_imports at_start s =
     (case (if at_start then match_import s else None) of
        Some (path, rest) \<Rightarrow> path # find_imports False rest
      | None \<Rightarrow> (case s of [] \<Rightarrow> [] | c # cs \<Rightarrow> find_imports (c = line_end) cs))"
  by pat_completeness auto
termination
proof (relation "measure (length \<circ> snd)", goal_cases)
  case (3 at_start s p path rest)
  then have "match_import s = Some (path, rest)" by (simp split: if_splits)
  then show ?case using match_import_shorter by simp
qed simp_all

declare find_imports.simps [simp del]

definition imports_of :: "string \<Rightarrow> string list" where
  "imports_of data = find_imports True (strip_comments data)"

subsection \<open>The digest of a slot contract\<close>

text \<open>The registry gives what a contract imports. The names that it reads are finitely many: those of its
  files, with the prefix \<open>stego/\<close> or without it.\<close>

definition readable_imports :: "registry_file gomap \<Rightarrow> string set" where
  "readable_imports contents = {name. \<exists>data. read_proto_import contents name = Inr data}"

lemma finite_readable_imports [simp]: "finite (readable_imports contents)"
proof (rule finite_subset)
  show "readable_imports contents \<subseteq> fst ` set contents \<union> (@) ''stego/'' ` fst ` set contents"
  proof
    fix name assume "name \<in> readable_imports contents"
    then have "map_of contents name \<noteq> None \<or> map_of contents (trim_prefix name ''stego/'') \<noteq> None"
      by (auto simp: readable_imports_def read_proto_import_def read_file_def Let_def go_errors split: if_splits option.splits)
    moreover have "name = ''stego/'' @ trim_prefix name ''stego/'' \<or> name = trim_prefix name ''stego/''"
      by (auto simp: trim_prefix_def has_prefix_def prefix_def)
    ultimately show "name \<in> fst ` set contents \<union> (@) ''stego/'' ` fst ` set contents"
      by (metis UnCI image_eqI map_of_eq_None_iff)
  qed
qed simp

text \<open>The loop over the imports that are still to read: each name once. It keeps the sum of each content that
  was read, by its name. Each turn reads a name that was not read before, or drops one from the list.\<close>

function import_loop ::
    "(string \<Rightarrow> string) \<Rightarrow> registry_file gomap \<Rightarrow> string list \<Rightarrow> string list \<Rightarrow> string gomap \<Rightarrow> (load_error, string gomap) result"
where
  "import_loop sum256 contents [] seen sums = Inr sums"
| "import_loop sum256 contents (name # rest) seen sums =
     (if name \<in> set seen then import_loop sum256 contents rest seen sums
      else (case read_proto_import contents name of
          Inl e \<Rightarrow> Inl e
        | Inr imported \<Rightarrow>
          import_loop sum256 contents (rest @ imports_of imported) (name # seen)
            (AList.update (''import:'' @ path_clean name) (sum_text sum256 imported) sums)))"
  by pat_completeness auto
termination
proof (relation "(\<lambda>(sum256, contents, pending, seen, sums). card (readable_imports contents - set seen)) <*mlex*>
    measure (\<lambda>(sum256, contents, pending, seen, sums). length pending)", goal_cases)
  case 1
  show ?case by (intro wf_mlex wf_measure)
next
  case (2 sum256 contents name rest seen sums)
  then show ?case by (simp add: mlex_prod_def)
next
  case (3 sum256 contents name rest seen sums imported)
  then have "name \<in> readable_imports contents - set seen" by (simp add: readable_imports_def)
  moreover have "readable_imports contents - set (name # seen) = (readable_imports contents - set seen) - {name}" by auto
  ultimately have "card (readable_imports contents - set (name # seen)) < card (readable_imports contents - set seen)"
    by (metis card_Diff1_less finite_Diff finite_readable_imports)
  then show ?case by (simp add: mlex_prod_def)
qed

text \<open>\<open>ContractDigest\<close>\<close>

definition contract_sums :: "(string \<Rightarrow> string) \<Rightarrow> registry_file gomap \<Rightarrow> string \<Rightarrow> (load_error, string gomap) result" where
  "contract_sums sum256 contents contract =
     bind_result (read_file contents contract)
       (\<lambda>data. import_loop sum256 contents (imports_of data) [] [(contract, sum_text sum256 data)])"

definition contract_digest :: "(string \<Rightarrow> string) \<Rightarrow> registry_file gomap \<Rightarrow> string \<Rightarrow> (load_error, string) result" where
  "contract_digest sum256 contents contract =
     bind_result (contract_sums sum256 contents contract) (\<lambda>sums. Inr (combine sum256 sums))"

end
