(* ===== verification/Fill_Signers.thy ===== *)
theory Fill_Signers
  imports Fill_Manifest Go_Base64 Registry_Capture
begin

text \<open>
  \<open>internal/fill/signoff.go\<close>: the keys that the file SIGNERS lists and the verification of a sign-off. The
  programs \<open>ssh-keygen\<close> and \<open>gpgv\<close> and the SHA-1 of a key are arguments.
\<close>

subsection \<open>The keys of SIGNERS\<close>

record open_pgp_signer =
  ps_principal :: string
  ps_key :: string
  ps_fingerprint :: string

record signers =
  sn_ssh_lines :: "string list"
  sn_open_pgp :: "open_pgp_signer list"

datatype key_fault =
    BlockNotComplete
  | BlockNotBase64
  | NotAPacket
  | PacketCutShort
  | PartialLength
  | IndeterminateLength
  | NotAPublicKey nat
  | UnreadVersion nat

text \<open>\<open>base64.StdEncoding.DecodeString\<close>: as the strict decoder, and the bits after the last byte are not
  looked at.\<close>

fun std_groups :: "string \<Rightarrow> string option" where
  "std_groups [] = Some []"
| "std_groups (w # x # y # z # rest) =
     (case (sextet_value w, sextet_value x) of
        (Some p, Some q) \<Rightarrow>
          if y = CHR ''='' then
            (if z = CHR ''='' \<and> rest = [] then Some [char_of (p * 4 + q div 16)] else None)
          else (case sextet_value y of
            None \<Rightarrow> None
          | Some s \<Rightarrow>
            if z = CHR ''='' then
              (if rest = [] then Some [char_of (p * 4 + q div 16), char_of (q mod 16 * 16 + s div 4)] else None)
            else (case sextet_value z of
              None \<Rightarrow> None
            | Some t \<Rightarrow>
              map_option ((@) [char_of (p * 4 + q div 16), char_of (q mod 16 * 16 + s div 4),
                               char_of (s mod 4 * 64 + t)]) (std_groups rest)))
      | _ \<Rightarrow> None)"
| "std_groups _ = None"

definition std_decode :: "string \<Rightarrow> string option" where
  "std_decode s = std_groups (filter (\<lambda>c. c \<noteq> CHR 0x0A \<and> c \<noteq> CHR 0x0D) s)"

text \<open>The states of \<open>dearmor\<close>: before the block, in its headers, in its body, after it.\<close>

datatype armor_state = BeforeBlock | InHeaders | InBody | AfterBlock

fun dearmor_line :: "string \<Rightarrow> armor_state \<times> string \<Rightarrow> armor_state \<times> string" where
  "dearmor_line line (BeforeBlock, body) =
     (if trim_space line = ''-----BEGIN PGP PUBLIC KEY BLOCK-----'' then InHeaders else BeforeBlock, body)"
| "dearmor_line line (InHeaders, body) =
     (let text = trim_space line in
      if text = '''' then (InBody, body)
      else if CHR '':'' \<notin> set text then (InBody, body @ text) else (InHeaders, body))"
| "dearmor_line line (InBody, body) =
     (let text = trim_space line in
      if has_prefix text ''-----END'' then (AfterBlock, body)
      else if has_prefix text ''='' then (InBody, body) else (InBody, body @ text))"
| "dearmor_line line (AfterBlock, body) = (AfterBlock, body)"

definition dearmor :: "string list \<Rightarrow> (key_fault, string) result" where
  "dearmor lines =
     (case fold dearmor_line lines (BeforeBlock, '''') of
        (AfterBlock, body) \<Rightarrow> (case std_decode body of None \<Rightarrow> Inl BlockNotBase64 | Some key \<Rightarrow> Inr key)
      | _ \<Rightarrow> Inl BlockNotComplete)"

text \<open>The number that big-endian bytes give.\<close>

definition be_number :: "string \<Rightarrow> nat" where
  "be_number bytes = fold (\<lambda>c n. n * 256 + byte c) bytes 0"

definition slice :: "nat \<Rightarrow> nat \<Rightarrow> string \<Rightarrow> string" where
  "slice from len s = take len (drop from s)"

text \<open>The tag, the length of the body and its offset, of a packet of the new format and of the old.\<close>

definition new_packet :: "string \<Rightarrow> (key_fault, nat \<times> nat \<times> nat) result" where
  "new_packet key =
     (let tag = byte (key ! 0) mod 64; start = byte (key ! 1) in
      if start < 192 then Inr (tag, start, 2)
      else if start < 224 then
        (if length key < 3 then Inl PacketCutShort else Inr (tag, (start - 192) * 256 + byte (key ! 2) + 192, 3))
      else if start = 255 then
        (if length key < 6 then Inl PacketCutShort else Inr (tag, be_number (slice 2 4 key), 6))
      else Inl PartialLength)"

definition old_packet :: "string \<Rightarrow> (key_fault, nat \<times> nat \<times> nat) result" where
  "old_packet key =
     (let tag = byte (key ! 0) div 4 mod 16; kind = byte (key ! 0) mod 4 in
      if kind = 0 then Inr (tag, byte (key ! 1), 2)
      else if kind = 1 then
        (if length key < 3 then Inl PacketCutShort else Inr (tag, be_number (slice 1 2 key), 3))
      else if kind = 2 then
        (if length key < 5 then Inl PacketCutShort else Inr (tag, be_number (slice 1 4 key), 5))
      else Inl IndeterminateLength)"

definition upper_ascii :: "string \<Rightarrow> string" where "upper_ascii = map ascii_upper"

definition primary_fingerprint :: "(string \<Rightarrow> string) \<Rightarrow> string \<Rightarrow> (key_fault, string) result" where
  "primary_fingerprint sum1 key =
     (if length key < 2 \<or> byte (key ! 0) < 128 then Inl NotAPacket
      else bind_result (if byte (key ! 0) div 64 mod 2 = 1 then new_packet key else old_packet key)
        (\<lambda>(tag, len, offset).
           if tag \<noteq> 6 then Inl (NotAPublicKey tag)
           else if offset + len > length key \<or> len < 1 then Inl PacketCutShort
           else let body = slice offset len key in
             if byte (body ! 0) \<noteq> 4 then Inl (UnreadVersion (byte (body ! 0)))
             else Inr (upper_ascii (hex_text
                    (sum1 ([char_of (153::nat), char_of (len div 256 mod 256), char_of (len mod 256)] @ body))))))"

text \<open>The lines of a key block up to its last line, and the lines after it.\<close>

fun key_block :: "string list \<Rightarrow> string list \<times> string list" where
  "key_block [] = ([], [])"
| "key_block (l # ls) =
     (if trim_space l = ''-----END PGP PUBLIC KEY BLOCK-----'' then ([l], ls)
      else let (block, rest) = key_block ls in (l # block, rest))"

lemma length_key_block: "length (snd (key_block ls)) \<le> length ls"
  by (induction ls) (auto simp: split_beta)

datatype signers_error = BadKey nat string key_fault | LineTooLong | SignersUnreadable

definition read_key :: "(string \<Rightarrow> string) \<Rightarrow> nat \<Rightarrow> string \<Rightarrow> string list \<Rightarrow> (signers_error, open_pgp_signer) result" where
  "read_key sum1 line who block =
     (case bind_result (dearmor block) (\<lambda>key. bind_result (primary_fingerprint sum1 key) (\<lambda>print. Inr (key, print))) of
        Inl e \<Rightarrow> Inl (BadKey line who e)
      | Inr (key, print) \<Rightarrow> Inr \<lparr>ps_principal = who, ps_key = key, ps_fingerprint = print\<rparr>)"

text \<open>The lines of the file from a line number on.\<close>

function signer_lines ::
    "(string \<Rightarrow> string) \<Rightarrow> nat \<Rightarrow> string list \<Rightarrow> signers \<Rightarrow> (signers_error, signers) result" where
  "signer_lines sum1 line [] s = Inr s"
| "signer_lines sum1 line (l # ls) s =
     (case go_fields (trim_space l) of
        [who, kind] \<Rightarrow>
          if kind = key_gpg then
            bind_result (read_key sum1 line who (fst (key_block ls))) (\<lambda>k.
              signer_lines sum1 (line + 1 + length (fst (key_block ls))) (snd (key_block ls))
                (s\<lparr>sn_open_pgp := sn_open_pgp s @ [k]\<rparr>))
          else signer_lines sum1 (line + 1) ls (s\<lparr>sn_ssh_lines := sn_ssh_lines s @ [l]\<rparr>)
      | _ \<Rightarrow> signer_lines sum1 (line + 1) ls (s\<lparr>sn_ssh_lines := sn_ssh_lines s @ [l]\<rparr>))"
  by pat_completeness auto
termination
  by (relation "measure (\<lambda>(sum1, line, ls, s). length ls)") (auto simp: less_Suc_eq_le length_key_block)

definition no_signers :: signers where "no_signers = \<lparr>sn_ssh_lines = [], sn_open_pgp = []\<rparr>"

definition signers_line_limit :: nat where "signers_line_limit = 1024 * 1024"

definition parse_signers :: "(string \<Rightarrow> string) \<Rightarrow> string \<Rightarrow> (signers_error, signers) result" where
  "parse_signers sum1 data =
     (let (lines, too_long) = scan_lines signers_line_limit data in
      bind_result (signer_lines sum1 1 lines no_signers) (\<lambda>s. if too_long then Inl LineTooLong else Inr s))"

text \<open>\<open>ReadSigners\<close>: what the project root holds as SIGNERS.\<close>

datatype signers_file = NoSignersFile | SignersData string | UnreadableSigners

definition read_signers :: "(string \<Rightarrow> string) \<Rightarrow> signers_file \<Rightarrow> (signers_error, signers) result" where
  "read_signers sum1 file =
     (case file of
        NoSignersFile \<Rightarrow> Inr no_signers
      | UnreadableSigners \<Rightarrow> Inl SignersUnreadable
      | SignersData data \<Rightarrow> parse_signers sum1 data)"

subsection \<open>The verification of a sign-off\<close>

text \<open>The programs that verify. \<open>vt_find\<close> gives what \<open>ssh-keygen -Y find-principals\<close> prints for an allowed
  signers file and a signature, \<open>vt_verify\<close> tells if \<open>ssh-keygen -Y verify\<close> accepts it for a principal, a
  namespace and the signed text, and \<open>vt_gpgv\<close> gives what \<open>gpgv\<close> prints for a keyring and a signature of the
  text, and whether it succeeds. A value \<open>None\<close> is a failed run.\<close>

record verify_tools =
  vt_find :: "string \<Rightarrow> string \<Rightarrow> string option"
  vt_verify :: "string \<Rightarrow> string \<Rightarrow> string \<Rightarrow> string \<Rightarrow> string \<Rightarrow> bool"
  vt_gpgv :: "string \<Rightarrow> string \<Rightarrow> string \<Rightarrow> string \<times> bool"
  vt_files :: bool

datatype sign_off_error = NoSignOff | OtherEvidence | NotCovered | UnlistedKey | NoScratchFiles

definition ssh_namespace :: string where "ssh_namespace = ''stego-fill''"

definition verify_ssh :: "verify_tools \<Rightarrow> string \<Rightarrow> string \<Rightarrow> signers \<Rightarrow> (sign_off_error, string) result" where
  "verify_ssh vt sig digest s =
     (if \<not> vt_files vt then Inl NoScratchFiles
      else let allowed = join_with [line_end] (sn_ssh_lines s) @ [line_end] in
        (case map_option go_fields (vt_find vt allowed sig) of
           None \<Rightarrow> Inl UnlistedKey
         | Some principals \<Rightarrow>
           if principals = [] then Inl UnlistedKey
           else (case find (\<lambda>p. vt_verify vt allowed p ssh_namespace sig digest) principals of
               None \<Rightarrow> Inl NotCovered
             | Some p \<Rightarrow> Inr p)))"

text \<open>What \<open>gpgv\<close> reports on its status lines.\<close>

record gpg_status =
  gs_valid :: bool
  gs_fingerprint :: string
  gs_unlisted :: bool
  gs_bad :: bool

definition read_status :: "string \<Rightarrow> gpg_status \<Rightarrow> gpg_status" where
  "read_status line st =
     (let fs = go_fields line in
      if length fs < 2 \<or> hd fs \<noteq> ''[GNUPG:]'' then st
      else if fs ! 1 = ''VALIDSIG'' then st\<lparr>gs_valid := True, gs_fingerprint := last fs\<rparr>
      else if fs ! 1 = ''NO_PUBKEY'' then st\<lparr>gs_unlisted := True\<rparr>
      else if fs ! 1 = ''ERRSIG'' then (if length fs \<ge> 8 \<and> fs ! 7 = ''9'' then st\<lparr>gs_unlisted := True\<rparr> else st)
      else if fs ! 1 = ''BADSIG'' then st\<lparr>gs_bad := True\<rparr>
      else st)"

definition gpg_status_of :: "string \<Rightarrow> gpg_status" where
  "gpg_status_of output =
     fold read_status (split_on line_end output) \<lparr>gs_valid = False, gs_fingerprint = '''', gs_unlisted = False, gs_bad = False\<rparr>"

definition verify_open_pgp :: "verify_tools \<Rightarrow> string \<Rightarrow> string \<Rightarrow> signers \<Rightarrow> (sign_off_error, string) result" where
  "verify_open_pgp vt sig digest s =
     (if sn_open_pgp s = [] then Inl UnlistedKey
      else if \<not> vt_files vt then Inl NoScratchFiles
      else let (output, ok) = vt_gpgv vt (concat (map ps_key (sn_open_pgp s))) sig digest; st = gpg_status_of output in
        if ok \<and> gs_valid st \<and> \<not> gs_bad st then
          (case find (\<lambda>k. equal_fold (ps_fingerprint k) (gs_fingerprint st)) (sn_open_pgp s) of
             Some k \<Rightarrow> Inr (ps_principal k)
           | None \<Rightarrow> Inl UnlistedKey)
        else if gs_unlisted st then Inl UnlistedKey else Inl NotCovered)"

text \<open>The verification by the type of the key; another type is not verified.\<close>

definition verify_signature :: "verify_tools \<Rightarrow> signature \<Rightarrow> string \<Rightarrow> signers \<Rightarrow> (sign_off_error, string) result" where
  "verify_signature vt sig digest s =
     (if sg_key_type sig = key_ssh then verify_ssh vt (sg_armored sig) digest s
      else if sg_key_type sig = key_gpg then verify_open_pgp vt (sg_armored sig) digest s
      else Inl NotCovered)"

definition verify_sign_off ::
    "verify_tools \<Rightarrow> fill_sign_off option \<Rightarrow> string \<Rightarrow> signers \<Rightarrow> (sign_off_error, string) result" where
  "verify_sign_off vt sign_off digest s =
     (case sign_off of
        None \<Rightarrow> Inl NoSignOff
      | Some so \<Rightarrow>
        if so_evidence_digest so \<noteq> digest then Inl OtherEvidence else verify_signature vt (so_signature so) digest s)"

text \<open>\<open>Principal\<close>: an unknown type gives no error and no principal.\<close>

definition principal_of :: "verify_tools \<Rightarrow> signature \<Rightarrow> string \<Rightarrow> signers \<Rightarrow> string" where
  "principal_of vt sig digest s = (case verify_signature vt sig digest s of Inl _ \<Rightarrow> '''' | Inr p \<Rightarrow> p)"

end
