(* ===== verification/Go_Json.thy ===== *)
theory Go_Json
  imports Go_Text Go_Rfc3339
begin

text \<open>
  What the code uses of \<open>encoding/json\<close>: the text of strings, objects and times in UTC, and that the text of
  a string in UTF-8 gives the string back.
\<close>

subsection \<open>The text of a string\<close>

text \<open>The bytes of the character at the start of a text; \<open>None\<close> where the bytes are no character.\<close>

definition rune_size :: "string \<Rightarrow> nat option" where
  "rune_size s = find (\<lambda>k. k \<le> length s \<and> valid_string (take k s)) [1, 2, 3, 4]"

definition hex_char :: "nat \<Rightarrow> char" where
  "hex_char n = ''0123456789abcdef'' ! n"

definition hex_code :: "nat \<Rightarrow> string" where
  "hex_code n = [hex_char (n div 4096 mod 16), hex_char (n div 256 mod 16), hex_char (n div 16 mod 16), hex_char (n mod 16)]"

definition unicode_escape :: "nat \<Rightarrow> string" where
  "unicode_escape n = [CHR 0x5C, CHR ''u''] @ hex_code n"

definition short_escapes :: "(nat \<times> char) list" where
  "short_escapes = [(0x22, CHR 0x22), (0x5C, CHR 0x5C), (8, CHR ''b''), (12, CHR ''f''), (10, CHR ''n''), (13, CHR ''r''), (9, CHR ''t'')]"

text \<open>The text of one character. The encoder escapes the bytes of markup and the two line separators too.\<close>

definition json_rune :: "string \<Rightarrow> string" where
  "json_rune r =
     (case r of
        [c] \<Rightarrow>
          (case map_of short_escapes (of_char c) of
             Some e \<Rightarrow> [CHR 0x5C, e]
           | None \<Rightarrow> if of_char c < (0x20::nat) \<or> c \<in> {CHR ''<'', CHR ''>'', CHR ''&''} then unicode_escape (of_char c) else [c])
      | _ \<Rightarrow>
        if map of_char r = [226, 128, 168::nat] then unicode_escape 0x2028
        else if map of_char r = [226, 128, 169::nat] then unicode_escape 0x2029 else r)"

function json_body :: "string \<Rightarrow> string" where
  "json_body s =
     (if s = [] then []
      else case rune_size s of
          None \<Rightarrow> unicode_escape 0xFFFD @ json_body (drop 1 s)
        | Some k \<Rightarrow> json_rune (take k s) @ json_body (drop k s))"
  by pat_completeness auto
termination
  by (relation "measure length") (auto simp: rune_size_def find_Some_iff nth_Cons' split: if_splits)

declare json_body.simps [simp del]

definition json_string :: "string \<Rightarrow> string" where
  "json_string s = CHR 0x22 # json_body s @ [CHR 0x22]"

text \<open>An object of fields in the order given. The encoder writes a map in the order of its keys, and a nil map
  as \<open>null\<close>; a map without entries stands for nil.\<close>

definition json_object :: "(string \<times> string) list \<Rightarrow> string" where
  "json_object fields = CHR ''{'' # join_with '','' (map (\<lambda>(k, v). json_string k @ CHR '':'' # v) fields) @ [CHR ''}'']"

definition json_string_map :: "string gomap \<Rightarrow> string" where
  "json_string_map m =
     (if m = [] then ''null'' else json_object (map (\<lambda>k. (k, json_string (the (map_of m k)))) (sorted_keys m)))"

text \<open>\<open>Time.MarshalJSON\<close> of a time in UTC: the layout RFC3339Nano, for years of four digits.\<close>

definition json_time :: "time \<Rightarrow> string option" where
  "json_time t =
     (if \<not> four_digit_year t then None
      else let ns = nat (t mod 10 ^ 9); digits = rev (dropWhile (\<lambda>c. c = CHR ''0'') (rev (pad_zero 9 (show_nat ns)))) in
        Some ([CHR 0x22] @ butlast (utc_text t) @ (if ns = 0 then '''' else CHR ''.'' # digits) @ ''Z'' @ [CHR 0x22]))"

subsection \<open>Reading the text of a string back\<close>

definition hex_value :: "char \<Rightarrow> nat option" where
  "hex_value = map_of (zip ''0123456789abcdef'' [0..<16])"

definition code_text :: "nat \<Rightarrow> string" where
  "code_text n = (if n = 0x2028 then map char_of [226, 128, 168::nat] else if n = 0x2029 then map char_of [226, 128, 169::nat] else [char_of n])"

definition hex_number :: "string \<Rightarrow> nat" where
  "hex_number ds = fold (\<lambda>c n. n * 16 + (case hex_value c of None \<Rightarrow> 0 | Some v \<Rightarrow> v)) ds 0"

definition short_value :: "char \<Rightarrow> string" where
  "short_value e = (case map_of (map prod.swap short_escapes) e of None \<Rightarrow> [] | Some n \<Rightarrow> [char_of n])"

text \<open>The string up to the closing quote, and what follows the quote.\<close>

fun json_read :: "string \<Rightarrow> (string \<times> string) option" where
  "json_read [] = None"
| "json_read (c # cs) =
     (if c = CHR 0x22 then Some ([], cs)
      else if c = CHR 0x5C then
        (case cs of
           e # a # b # d # f # rest \<Rightarrow>
             if e = CHR ''u'' then map_option (map_prod ((@) (code_text (hex_number [a, b, d, f]))) id) (json_read rest)
             else map_option (map_prod ((@) (short_value e)) id) (json_read (a # b # d # f # rest))
         | e # rest \<Rightarrow> map_option (map_prod ((@) (short_value e)) id) (json_read rest)
         | [] \<Rightarrow> None)
      else map_option (map_prod ((#) c) id) (json_read cs))"

definition high :: "char \<Rightarrow> bool" where
  "high c \<longleftrightarrow> 128 \<le> (of_char c :: nat)"

lemma utf8_ascii [simp]: "utf8_valid [a] \<longleftrightarrow> a < 128"
  by simp

lemma utf8_two: "128 \<le> a \<Longrightarrow> utf8_valid [a, b] \<Longrightarrow> 128 \<le> b"
  by (simp split: if_split_asm)

lemma utf8_three: "128 \<le> a \<Longrightarrow> \<not> utf8_valid [a, b] \<Longrightarrow> utf8_valid [a, b, c] \<Longrightarrow> 128 \<le> b \<and> 128 \<le> c"
  by (simp split: if_split_asm)

lemma utf8_four:
  "128 \<le> a \<Longrightarrow> \<not> utf8_valid [a, b] \<Longrightarrow> \<not> utf8_valid [a, b, c] \<Longrightarrow> utf8_valid [a, b, c, d] \<Longrightarrow> 128 \<le> b \<and> 128 \<le> c \<and> 128 \<le> d"
  by (simp split: if_split_asm)

lemma utf8_two_rest: "128 \<le> a \<Longrightarrow> utf8_valid [a, b] \<Longrightarrow> utf8_valid (a # b # cs) \<Longrightarrow> utf8_valid cs"
  by (simp split: if_split_asm)

lemma utf8_three_rest:
  "128 \<le> a \<Longrightarrow> \<not> utf8_valid [a, b] \<Longrightarrow> utf8_valid [a, b, c] \<Longrightarrow> utf8_valid (a # b # c # cs) \<Longrightarrow> utf8_valid cs"
  by (simp split: if_split_asm)

lemma utf8_four_rest:
  "128 \<le> a \<Longrightarrow> \<not> utf8_valid [a, b] \<Longrightarrow> \<not> utf8_valid [a, b, c] \<Longrightarrow> utf8_valid (a # b # c # d # cs) \<Longrightarrow>
    utf8_valid [a, b, c, d] \<and> utf8_valid cs"
  by (simp split: if_split_asm)

lemma utf8_longer:
  "128 \<le> a \<Longrightarrow> utf8_valid (a # bs) \<Longrightarrow> bs \<noteq> []"
  "128 \<le> a \<Longrightarrow> \<not> utf8_valid [a, b] \<Longrightarrow> utf8_valid (a # b # cs) \<Longrightarrow> cs \<noteq> []"
  "128 \<le> a \<Longrightarrow> \<not> utf8_valid [a, b] \<Longrightarrow> \<not> utf8_valid [a, b, c] \<Longrightarrow> utf8_valid (a # b # c # ds) \<Longrightarrow> ds \<noteq> []"
  by (auto split: if_split_asm)

lemma rune_cases:
  assumes "valid_string s" "s \<noteq> []"
  obtains k where "rune_size s = Some k" "0 < k" "valid_string (drop k s)"
    "(\<exists>c. take k s = [c] \<and> \<not> high c) \<or> (length (take k s) > 1 \<and> list_all high (take k s))"
proof -
  obtain c cs where s: "s = c # cs" using assms(2) by (cases s) auto
  note v = assms(1) [unfolded s valid_string_def, simplified list.map]
  show thesis
  proof (cases "high c")
    case False
    then have "rune_size s = Some 1" by (simp add: rune_size_def s valid_string_def high_def)
    moreover have "valid_string cs" using v False by (simp add: valid_string_def high_def)
    ultimately show thesis using False by (intro that [of 1]) (simp_all add: s)
  next
    case True
    then have a: "128 \<le> (of_char c :: nat)" by (simp add: high_def)
    obtain d ds where d: "cs = d # ds" using utf8_longer(1) [OF a v] by (cases cs) auto
    note v2 = v [unfolded d list.map]
    show thesis
    proof (cases "utf8_valid [of_char c, of_char d]")
      case True
      then have "rune_size s = Some 2" using a by (simp add: rune_size_def s d valid_string_def del: utf8_valid.simps)
      then show thesis
        using utf8_two [OF a True] utf8_two_rest [OF a True v2] a
        by (intro that [of 2]) (simp_all add: s d high_def valid_string_def)
    next
      case no2: False
      obtain e es where e: "ds = e # es" using utf8_longer(2) [OF a no2 v2] by (cases ds) auto
      note v3 = v2 [unfolded e list.map]
      show thesis
      proof (cases "utf8_valid [of_char c, of_char d, of_char e]")
        case True
        then have "rune_size s = Some 3" using a no2
          by (simp add: rune_size_def s d e valid_string_def del: utf8_valid.simps)
        then show thesis
          using utf8_three [OF a no2 True] utf8_three_rest [OF a no2 True v3] a
          by (intro that [of 3]) (simp_all add: s d e high_def valid_string_def)
      next
        case no3: False
        obtain f fs where f: "es = f # fs" using utf8_longer(3) [OF a no2 no3 v3] by (cases es) auto
        note v4 = utf8_four_rest [OF a no2 no3 v3 [unfolded f list.map]]
        have "rune_size s = Some 4" using a no2 no3 v4
          by (simp add: rune_size_def s d e f valid_string_def del: utf8_valid.simps)
        then show thesis
          using utf8_four [OF a no2 no3 v4 [THEN conjunct1]] v4 a
          by (intro that [of 4]) (simp_all add: s d e f high_def valid_string_def del: utf8_valid.simps)
      qed
    qed
  qed
qed

lemma nat_high [simp]: "of_char (char_of (n::nat) :: char) = n mod 256"
  by simp

lemma hex_value_char: "k < 16 \<Longrightarrow> hex_value (hex_char k) = Some k"
proof -
  have "\<forall>k < 16. hex_value (hex_char k) = Some k" by code_simp
  then show "k < 16 \<Longrightarrow> hex_value (hex_char k) = Some k" by blast
qed

lemma hex_number_four:
  "a < 16 \<Longrightarrow> b < 16 \<Longrightarrow> d < 16 \<Longrightarrow> f < 16 \<Longrightarrow>
    hex_number [hex_char a, hex_char b, hex_char d, hex_char f] = ((a * 16 + b) * 16 + d) * 16 + f"
  by (simp add: hex_number_def hex_value_char)

lemma hex_number_code: "n < 65536 \<Longrightarrow> hex_number (hex_code n) = n"
proof -
  assume n: "n < 65536"
  then have "n div 4096 mod 16 = n div 4096" by simp
  moreover have "((n div 4096 * 16 + n div 256 mod 16) * 16 + n div 16 mod 16) * 16 + n mod 16 = n"
    using div_mult_mod_eq [of n 16] div_mult_mod_eq [of "n div 16" 16] div_mult_mod_eq [of "n div 256" 16]
    by (simp add: div_mult2_eq [symmetric])
  ultimately show ?thesis unfolding hex_code_def by (subst hex_number_four) (use n in simp_all)
qed

lemma read_unicode: "n < 65536 \<Longrightarrow> json_read (unicode_escape n @ t) = map_option (map_prod ((@) (code_text n)) id) (json_read t)"
proof -
  assume n: "n < 65536"
  obtain a b d f where "hex_code n = [a, b, d, f]" by (simp add: hex_code_def)
  then show ?thesis using hex_number_code [OF n] by (simp add: unicode_escape_def)
qed

lemma read_plain: "c \<noteq> CHR 0x22 \<Longrightarrow> c \<noteq> CHR 0x5C \<Longrightarrow> json_read (c # t) = map_option (map_prod ((#) c) id) (json_read t)"
  by (cases t) simp_all

lemma read_high: "list_all high r \<Longrightarrow> json_read (r @ t) = map_option (map_prod ((@) r) id) (json_read t)"
proof (induction r)
  case (Cons c r)
  then have "c \<noteq> CHR 0x22" "c \<noteq> CHR 0x5C" by (auto simp: high_def)
  then show ?case using Cons by (simp add: read_plain option.map_comp comp_def prod.map_comp)
next
  case Nil
  have "(@) [] = (id :: string \<Rightarrow> string)" by (simp add: fun_eq_iff)
  then show ?case by (simp add: prod.map_id0 option.map_id0 id_def option.map_ident)
qed

lemma read_escape:
  "e \<noteq> CHR ''u'' \<Longrightarrow> json_read (CHR 0x5C # e # t) = map_option (map_prod ((@) (short_value e)) id) (json_read t)"
  by (simp split: list.split)

lemma cons_append: "(@) [c] = (#) c"
  by (simp add: fun_eq_iff)

lemma read_short:
  assumes "map_of short_escapes n = Some e"
  shows "json_read ([CHR 0x5C, e] @ t) = map_option (map_prod ((#) (char_of n)) id) (json_read t)"
proof -
  have "e \<noteq> CHR ''u'' \<and> short_value e = [char_of n]"
    using assms by (auto simp: short_escapes_def short_value_def split: if_splits)
  then show ?thesis using read_escape [of e t] by (simp add: cons_append)
qed

lemma read_rune_one:
  assumes "\<not> high c"
  shows "json_read (json_rune [c] @ t) = map_option (map_prod ((#) c) id) (json_read t)"
proof (cases "map_of short_escapes (of_char c)")
  case (Some e)
  then show ?thesis using read_short [OF Some] by (simp add: json_rune_def)
next
  case None
  then have plain: "c \<noteq> CHR 0x22" "c \<noteq> CHR 0x5C" by (auto simp: short_escapes_def)
  have "(of_char c :: nat) < 65536" "code_text (of_char c) = [c]"
    using assms by (simp_all add: high_def code_text_def)
  then show ?thesis using None read_plain [OF plain] read_unicode [of "of_char c" t] by (auto simp: json_rune_def cons_append)
qed

lemma read_rune_more:
  assumes "length r > 1" "list_all high r"
  shows "json_read (json_rune r @ t) = map_option (map_prod ((@) r) id) (json_read t)"
proof -
  obtain a b cs where r: "r = a # b # cs" using assms(1) by (cases r; cases "tl r") auto
  have conv: "r = map char_of (map of_char r :: nat list)" by (simp add: comp_def)
  show ?thesis
  proof (cases "map of_char r \<in> {[226, 128, 168::nat], [226, 128, 169]}")
    case True
    have "\<exists>n \<in> {0x2028, 0x2029}. json_rune r = unicode_escape n \<and> r = code_text n"
    proof (cases "map of_char r = [226, 128, 168::nat]")
      case True
      then have "r = code_text 0x2028" by (subst conv) (simp only: code_text_def if_True simp_thms)
      moreover have "json_rune r = unicode_escape 0x2028" using True by (simp add: json_rune_def r)
      ultimately show ?thesis by blast
    next
      case no: False
      then have m: "map of_char r = [226, 128, 169::nat]" using True by simp
      then have "r = code_text 0x2029" by (subst conv) (simp add: code_text_def)
      moreover have "json_rune r = unicode_escape 0x2029" using m by (simp add: json_rune_def r)
      ultimately show ?thesis by blast
    qed
    then obtain n where n: "n \<in> {0x2028, 0x2029}" "json_rune r = unicode_escape n" "r = code_text n" by blast
    have "n < 65536" using n(1) by auto
    then show ?thesis unfolding n(2) by (simp only: read_unicode n(3) [symmetric])
  next
    case False
    then have "json_rune r = r" by (auto simp: json_rune_def r)
    then show ?thesis using read_high [OF assms(2)] by simp
  qed
qed

lemma read_body: "valid_string s \<Longrightarrow> json_read (json_body s @ CHR 0x22 # t) = Some (s, t)"
proof (induction s rule: json_body.induct)
  case (1 s)
  show ?case
  proof (cases "s = []")
    case True
    then show ?thesis by (simp add: json_body.simps)
  next
    case False
    then obtain k where k: "rune_size s = Some k" "valid_string (drop k s)"
      and r: "(\<exists>c. take k s = [c] \<and> \<not> high c) \<or> (length (take k s) > 1 \<and> list_all high (take k s))"
      using rune_cases [OF 1(3) False] by blast
    have IH: "json_read (json_body (drop k s) @ CHR 0x22 # t) = Some (drop k s, t)"
      using 1(2) [OF False k(1)] k(2) by simp
    have R: "json_read (json_rune (take k s) @ u) = map_option (map_prod ((@) (take k s)) id) (json_read u)" for u
      using r
    proof
      assume "\<exists>c. take k s = [c] \<and> \<not> high c"
      then obtain c where c: "take k s = [c]" "\<not> high c" by blast
      show ?thesis using read_rune_one [OF c(2), of u] unfolding c(1) cons_append .
    next
      assume "length (take k s) > 1 \<and> list_all high (take k s)"
      then show ?thesis using read_rune_more by blast
    qed
    have "json_read (json_rune (take k s) @ json_body (drop k s) @ CHR 0x22 # t) = Some (take k s @ drop k s, t)"
      unfolding R IH by simp
    moreover have "json_body s = json_rune (take k s) @ json_body (drop k s)"
      using False k(1) by (subst json_body.simps) simp
    ultimately show ?thesis by (simp only: append_assoc append_take_drop_id)
  qed
qed

lemma json_string_inject:
  assumes "valid_string s" "valid_string t" "json_string s @ u = json_string t @ v"
  shows "s = t" "u = v"
proof -
  have "json_body s @ CHR 0x22 # u = json_body t @ CHR 0x22 # v"
    using assms(3) unfolding json_string_def by (simp only: append_Cons append_assoc list.inject simp_thms append_Nil)
  then have "Some (s, u) = Some (t, v)" using read_body [OF assms(1)] read_body [OF assms(2)] by metis
  then show "s = t" "u = v" by blast+
qed

end
