(* ===== verification/Fill_Qualification.thy ===== *)
theory Fill_Qualification
  imports Fill_Digest Fill_Signers Go_Json Active_Set
begin

text \<open>
  \<open>internal/fill/qualification.go\<close>, \<open>catalog.go\<close> and the digest of evidence of \<open>fill_evidence.go\<close>: where a
  fill stands on its way to being qualified, whether it fits its bindings, and the reading of a manifest
  against the declaration and the active registry. The fills of a project are the folders under \<open>fills\<close>.
\<close>

subsection \<open>The digest that a sign-off signs\<close>

definition build_json :: "build_record \<Rightarrow> string" where
  "build_json b =
     json_object [(''go_version'', json_string (br_go_version b)), (''goos'', json_string (br_goos b)),
       (''goarch'', json_string (br_goarch b)), (''module_version'', json_string (br_module_version b)),
       (''vcs'', json_string (br_vcs b)), (''revision'', json_string (br_revision b)),
       (''source_state'', json_string (br_source_state b))]"

definition evidence_json :: "fill_evidence \<Rightarrow> string option" where
  "evidence_json e =
     map_option (\<lambda>passed_at.
       json_object [(''fill_digest'', json_string (ev_fill_digest e)), (''contract_digest'', json_string (ev_contract_digest e)),
         (''passed_at'', passed_at), (''compiler'', build_json (ev_compiler e)), (''files'', json_string_map (ev_files e))])
       (json_time (ev_passed_at e))"

definition evidence_statement :: "fill \<Rightarrow> fill_evidence \<Rightarrow> string option" where
  "evidence_statement f e =
     map_option (\<lambda>evidence.
       json_object [(''kind'', json_string ''stego-fill-evidence/v1''), (''name'', json_string (fi_name f)),
         (''implements'', json_string (fi_implements f)), (''collection'', json_string (fi_collection f)),
         (''evidence'', evidence)])
       (evidence_json e)"

definition evidence_digest :: "(string \<Rightarrow> string) \<Rightarrow> fill \<Rightarrow> string option" where
  "evidence_digest sum256 f =
     Option.bind (fi_evidence f) (\<lambda>e. map_option (sum_text sum256) (evidence_statement f e))"

subsection \<open>What a check of the fills reads\<close>

datatype fills_folder = NoFillsFolder | UnreadableFills | FillsFolder "(string \<times> node) list"

record fill_env =
  fe_yaml :: yaml_library
  fe_decode :: "string \<Rightarrow> fill option"
  fe_sum256 :: "string \<Rightarrow> string"
  fe_sum1 :: "string \<Rightarrow> string"
  fe_tools :: verify_tools
  fe_registry :: "registry_file gomap"

record fill_project =
  fp_signers :: signers_file
  fp_fills :: fills_folder

definition fill_folder :: "fill_project \<Rightarrow> string \<Rightarrow> node option" where
  "fill_folder p name = (case fp_fills p of FillsFolder entries \<Rightarrow> map_of entries name | _ \<Rightarrow> None)"

text \<open>\<open>os.ReadFile\<close> of a file of a fill's folder. A symbolic link is followed to a file that the model does
  not hold.\<close>

definition folder_file :: "node option \<Rightarrow> string \<Rightarrow> string option" where
  "folder_file folder name =
     (case folder of
        Some (Directory entries) \<Rightarrow> (case map_of entries name of Some (Regular data) \<Rightarrow> Some data | _ \<Rightarrow> None)
      | _ \<Rightarrow> None)"

text \<open>\<open>fillFolders\<close>: the folders in the order of their names.\<close>

definition is_folder :: "node \<Rightarrow> bool" where
  "is_folder n = (case n of Directory _ \<Rightarrow> True | _ \<Rightarrow> False)"

definition fill_folders :: "fill_project \<Rightarrow> string list option" where
  "fill_folders p =
     (case fp_fills p of
        NoFillsFolder \<Rightarrow> Some []
      | UnreadableFills \<Rightarrow> None
      | FillsFolder entries \<Rightarrow> Some (sort (map fst (filter (\<lambda>(_, n). is_folder n) entries))))"

subsection \<open>The manifest against the declaration\<close>

datatype manifest_fault =
    ManifestMissing
  | NotOneValue string
  | NotAFill manifest_error
  | NoImplements
  | NotASlot string
  | NotActiveSlot slot_ref
  | NoCollection
  | UndeclaredCollection string

fun several_values :: "yaml_node list \<Rightarrow> string option" where
  "several_values (k # v # rest) =
     (if yn_value k \<in> {''implements'', ''collection''} \<and> yn_kind v \<noteq> ScalarNode then Some (yn_value k)
      else several_values rest)"
| "several_values nodes = None"

definition check_one_value :: "yaml_library \<Rightarrow> string \<Rightarrow> string option" where
  "check_one_value yl data =
     (case yl_unmarshal yl data of
        None \<Rightarrow> None
      | Some document \<Rightarrow>
        (case yn_content document of
           [root] \<Rightarrow> if yn_kind root = MappingNode then several_values (yn_content root) else None
         | _ \<Rightarrow> None))"

definition find_slot :: "fill_check \<Rightarrow> slot_ref \<Rightarrow> fill_slot option" where
  "find_slot check ref = find (\<lambda>s. fl_ref s = ref) (fc_slots check)"

definition read_manifest :: "fill_env \<Rightarrow> fill_check \<Rightarrow> string option \<Rightarrow> (manifest_fault, fill) result" where
  "read_manifest env check content =
     (case content of
        None \<Rightarrow> Inl ManifestMissing
      | Some data \<Rightarrow>
        after (map_option NotOneValue (check_one_value (fe_yaml env) data))
         (case parse_fill (fe_decode env) data of
            Inl e \<Rightarrow> Inl (NotAFill e)
          | Inr f \<Rightarrow>
            if fi_implements f = '''' then Inl NoImplements
            else (case parse_slot_ref (fi_implements f) of
                None \<Rightarrow> Inl (NotASlot (fi_implements f))
              | Some ref \<Rightarrow>
                if find_slot check ref = None then Inl (NotActiveSlot ref)
                else if fi_collection f = '''' then Inl NoCollection
                else if fi_collection f \<notin> set (fc_collections check) then Inl (UndeclaredCollection (fi_collection f))
                else Inr f)))"

subsection \<open>The state of a fill now\<close>

record current =
  cu_fill_digest :: string
  cu_files :: "string gomap"
  cu_contract_digest :: string
  cu_contract :: slot_ref
  cu_has_tests :: bool

datatype current_error = BadFolder folder_error | BadImplements | NotActive string | BadContract load_error

definition no_slot :: slot_ref where "no_slot = \<lparr>sr_component = '''', sr_slot = ''''\<rparr>"

text \<open>A folder that is not there cannot be walked.\<close>

definition current_state :: "fill_env \<Rightarrow> fill_check \<Rightarrow> node option \<Rightarrow> fill \<Rightarrow> (current_error, current) result" where
  "current_state env check folder f =
     (case file_digests (fe_yaml env) (fe_sum256 env) (case folder of None \<Rightarrow> Unreadable | Some n \<Rightarrow> n) of
        Inl e \<Rightarrow> Inl (BadFolder e)
      | Inr files \<Rightarrow>
        (case parse_slot_ref (fi_implements f) of
           None \<Rightarrow> Inl BadImplements
         | Some ref \<Rightarrow>
           (case find_slot check ref of
              None \<Rightarrow> Inl (NotActive (fi_implements f))
            | Some slot \<Rightarrow>
              (case contract_digest (fe_sum256 env) (fe_registry env) (fl_contract slot) of
                 Inl e \<Rightarrow> Inl (BadContract e)
               | Inr digest \<Rightarrow>
                 Inr \<lparr>cu_fill_digest = combine (fe_sum256 env) files, cu_files = files, cu_contract_digest = digest,
                      cu_contract = ref,
                      cu_has_tests = list_ex (\<lambda>(name, _). has_suffix name ''_test.go'') files\<rparr>))))"

subsection \<open>Standing and fit\<close>

datatype standing = Qualified | Stale | Unsigned | Untested

definition standing_text :: "standing \<Rightarrow> string" where
  "standing_text s = (case s of Qualified \<Rightarrow> ''qualified'' | Stale \<Rightarrow> ''stale'' | Unsigned \<Rightarrow> ''unsigned'' | Untested \<Rightarrow> ''untested'')"

definition parse_standing :: "string \<Rightarrow> standing option" where
  "parse_standing text =
     (if text = ''qualified'' then Some Qualified else if text = ''stale'' then Some Stale
      else if text = ''unsigned'' then Some Unsigned else if text = ''untested'' then Some Untested else None)"

text \<open>\<open>changedFiles\<close>: the lookup of a name that a Go map does not hold gives the empty string.\<close>

definition lookup_text :: "string gomap \<Rightarrow> string \<Rightarrow> string" where
  "lookup_text m name = (case map_of m name of None \<Rightarrow> '''' | Some v \<Rightarrow> v)"

definition changed_files :: "string gomap \<Rightarrow> string gomap \<Rightarrow> string list" where
  "changed_files before now =
     sort (map (\<lambda>name. ''the file '' @ name)
       (filter (\<lambda>name. lookup_text before name \<noteq> the (map_of now name)) (sorted_keys now) @
        filter (\<lambda>name. map_of now name = None) (sorted_keys before)))"

definition changed_parts :: "fill \<Rightarrow> fill_evidence \<Rightarrow> current \<Rightarrow> string list" where
  "changed_parts f e cu =
     (if ev_fill_digest e = cu_fill_digest cu then []
      else (let names = changed_files (ev_files e) (cu_files cu) in if names = [] then [''the fill''] else names)) @
     (if ev_contract_digest e = cu_contract_digest cu then []
      else [''the contract '' @ (if cu_contract cu = no_slot then fi_implements f else show_slot_ref (cu_contract cu))])"

datatype standing_reason =
    NoTestFile
  | NoEvidence
  | ChangedAfter "string list"
  | SignOffMissing
  | NoStatement
  | KeyNotListed
  | OtherSignOff

definition assess :: "fill_env \<Rightarrow> signers \<Rightarrow> fill \<Rightarrow> current \<Rightarrow> standing \<times> standing_reason option" where
  "assess env s f cu =
     (if \<not> cu_has_tests cu then (Untested, Some NoTestFile)
      else case fi_evidence f of
          None \<Rightarrow> (Untested, Some NoEvidence)
        | Some e \<Rightarrow>
          if changed_parts f e cu \<noteq> [] then (Stale, Some (ChangedAfter (changed_parts f e cu)))
          else if fi_sign_off f = None then (Unsigned, Some SignOffMissing)
          else (case evidence_digest (fe_sum256 env) f of
              None \<Rightarrow> (Unsigned, Some NoStatement)
            | Some digest \<Rightarrow>
              (case verify_sign_off (fe_tools env) (fi_sign_off f) digest s of
                 Inl e \<Rightarrow> (Unsigned, Some (if e = UnlistedKey then KeyNotListed else OtherSignOff))
               | Inr _ \<Rightarrow> (Qualified, None))))"

definition is_qualified :: "fill_env \<Rightarrow> signers \<Rightarrow> fill \<Rightarrow> string \<Rightarrow> string \<Rightarrow> bool" where
  "is_qualified env s f digest contract \<longleftrightarrow>
     fst (assess env s f \<lparr>cu_fill_digest = digest, cu_files = [], cu_contract_digest = contract,
       cu_contract = no_slot, cu_has_tests = True\<rparr>) = Qualified"

datatype misfit_reason = OtherSlot string "slot_ref list" | OtherCollection string string

definition misfit :: "fill \<Rightarrow> slot_ref list \<Rightarrow> string \<Rightarrow> misfit_reason option" where
  "misfit f slots collection =
     (case parse_slot_ref (fi_implements f) of
        None \<Rightarrow> Some (OtherSlot (fi_implements f) slots)
      | Some ref \<Rightarrow>
        if ref \<notin> set slots then Some (OtherSlot (fi_implements f) slots)
        else if fi_collection f \<noteq> collection then Some (OtherCollection (fi_collection f) collection) else None)"

definition fits_binding :: "fill \<Rightarrow> slot_ref \<Rightarrow> string \<Rightarrow> bool" where
  "fits_binding f slot collection \<longleftrightarrow> misfit f [slot] collection = None"

definition slots_named :: "fill_check \<Rightarrow> string \<Rightarrow> slot_ref list" where
  "slots_named check name = filter (\<lambda>ref. sr_slot ref = name) (map fl_ref (fc_slots check))"

subsection \<open>The qualification of the bound fills\<close>

datatype reason = Unread manifest_fault | Misfit misfit_reason | Standing standing_reason

record qualification =
  ql_fill :: string
  ql_standing :: standing
  ql_fits :: bool
  ql_reasons :: "reason list"

datatype qualify_error = NoSigners signers_error | NoCurrentState current_error

definition bound_names :: "fill_check \<Rightarrow> string list" where
  "bound_names check = sort (remdups (map fb_fill (fc_bindings check)))"

definition misfits :: "fill_check \<Rightarrow> fill \<Rightarrow> string \<Rightarrow> misfit_reason list" where
  "misfits check f name =
     List.map_filter (\<lambda>b. misfit f (slots_named check (fb_slot b)) (fb_collection b))
       (filter (\<lambda>b. fb_fill b = name) (fc_bindings check))"

definition qualify_one ::
    "fill_env \<Rightarrow> fill_check \<Rightarrow> fill_project \<Rightarrow> signers \<Rightarrow> string \<Rightarrow> (qualify_error, qualification) result" where
  "qualify_one env check p s name =
     (let folder = fill_folder p name in
      case read_manifest env check (folder_file folder manifest_file) of
        Inl e \<Rightarrow> Inr \<lparr>ql_fill = name, ql_standing = Untested, ql_fits = False, ql_reasons = [Unread e]\<rparr>
      | Inr f \<Rightarrow>
        (case current_state env check folder f of
           Inl e \<Rightarrow> Inl (NoCurrentState e)
         | Inr cu \<Rightarrow>
           (let unfit = misfits check f name; (st, why) = assess env s f cu in
            Inr \<lparr>ql_fill = name, ql_standing = st, ql_fits = (unfit = []),
                 ql_reasons = map Misfit unfit @ (case why of None \<Rightarrow> [] | Some r \<Rightarrow> [Standing r])\<rparr>)))"

fun each_result :: "('a \<Rightarrow> ('e, 'b) result) \<Rightarrow> 'a list \<Rightarrow> ('e, 'b list) result" where
  "each_result f [] = Inr []"
| "each_result f (x # xs) = bind_result (f x) (\<lambda>y. bind_result (each_result f xs) (\<lambda>ys. Inr (y # ys)))"

definition project_qualification :: "fill_env \<Rightarrow> fill_check \<Rightarrow> fill_project \<Rightarrow> (qualify_error, qualification list) result" where
  "project_qualification env check p =
     (case read_signers (fe_sum1 env) (fp_signers p) of
        Inl e \<Rightarrow> Inl (NoSigners e)
      | Inr s \<Rightarrow> each_result (qualify_one env check p s) (bound_names check))"

definition passes_qualification :: "qualification \<Rightarrow> bool" where
  "passes_qualification q \<longleftrightarrow> ql_standing q = Qualified \<and> ql_fits q"

text \<open>\<open>QualificationFaults\<close>: a row per fault, of which the code makes a sentence with the name, the standing,
  the fit and the reasons.\<close>

definition qualification_faults :: "fill_env \<Rightarrow> fill_check \<Rightarrow> fill_project \<Rightarrow> (qualify_error, qualification list) result" where
  "qualification_faults env check p =
     bind_result (project_qualification env check p) (\<lambda>rows. Inr (filter (\<lambda>q. \<not> passes_qualification q) rows))"

subsection \<open>The catalog of a slot\<close>

record catalog_entry =
  ct_fill :: string
  ct_collection :: string
  ct_standing :: "(standing \<times> standing_reason option) option"

datatype catalog_error = CatalogSigners signers_error | CatalogFolders

definition catalog_one ::
    "fill_env \<Rightarrow> fill_check \<Rightarrow> fill_project \<Rightarrow> signers \<Rightarrow> slot_ref \<Rightarrow> string \<Rightarrow> catalog_entry option" where
  "catalog_one env check p s slot name =
     (let folder = fill_folder p name in
      case map_option (parse_fill (fe_decode env)) (folder_file folder manifest_file) of
        None \<Rightarrow> Some \<lparr>ct_fill = name, ct_collection = '''', ct_standing = None\<rparr>
      | Some (Inl _) \<Rightarrow> Some \<lparr>ct_fill = name, ct_collection = '''', ct_standing = None\<rparr>
      | Some (Inr f) \<Rightarrow>
        if fi_implements f \<noteq> show_slot_ref slot then None
        else (case current_state env check folder f of
            Inl _ \<Rightarrow> Some \<lparr>ct_fill = name, ct_collection = fi_collection f, ct_standing = None\<rparr>
          | Inr cu \<Rightarrow> Some \<lparr>ct_fill = name, ct_collection = fi_collection f, ct_standing = Some (assess env s f cu)\<rparr>))"

definition project_catalog ::
    "fill_env \<Rightarrow> fill_check \<Rightarrow> fill_project \<Rightarrow> slot_ref \<Rightarrow> (catalog_error, catalog_entry list) result" where
  "project_catalog env check p slot =
     (case read_signers (fe_sum1 env) (fp_signers p) of
        Inl e \<Rightarrow> Inl (CatalogSigners e)
      | Inr s \<Rightarrow>
        (case fill_folders p of
           None \<Rightarrow> Inl CatalogFolders
         | Some names \<Rightarrow> Inr (List.map_filter (catalog_one env check p s slot) names)))"

text \<open>\<open>ResolveSlot\<close>: the one slot that a name means, of the component that is given or of any.\<close>

datatype slot_error =
    ComponentNotActive string
  | SlotNotOfComponent string string
  | SlotNotDeclared string "string list"
  | SlotAmbiguous string "string list"

definition resolve_slot :: "fill_check \<Rightarrow> string \<Rightarrow> string \<Rightarrow> (slot_error, slot_ref) result" where
  "resolve_slot check slot component =
     (let refs = map fl_ref (fc_slots check); owners = filter (\<lambda>r. sr_slot r = slot) refs in
      if component \<noteq> '''' then
        (if component \<notin> set (map sr_component refs) then Inl (ComponentNotActive component)
         else (case find (\<lambda>r. sr_component r = component) owners of
             Some r \<Rightarrow> Inr r
           | None \<Rightarrow> Inl (SlotNotOfComponent component slot)))
      else (case owners of
          [] \<Rightarrow> Inl (SlotNotDeclared slot (sort (remdups (map sr_slot refs))))
        | [r] \<Rightarrow> Inr r
        | _ \<Rightarrow> Inl (SlotAmbiguous slot (sort (map sr_component owners)))))"

end
