(* ===== verification/Fill_Evidence.thy ===== *)
theory Fill_Evidence
  imports Fill_Qualification
begin

text \<open>
  \<open>internal/fill/evidence.go\<close> and \<open>imports.go\<close>, and \<open>cmd/stego/fill_sign.go\<close>: recording the evidence of the fills whose
  tests pass, the imports that a fill may have, and a person's sign-off. What changes is the project: the
  manifest of a fill is replaced, and the tests, which are the fill's own program, may change any file.
\<close>

definition put_manifest :: "fill_project \<Rightarrow> string \<Rightarrow> string \<Rightarrow> fill_project" where
  "put_manifest p name data =
     (case fp_fills p of
        FillsFolder entries \<Rightarrow>
          (case map_of entries name of
             Some (Directory files) \<Rightarrow>
               p\<lparr>fp_fills := FillsFolder (AList.update name (Directory (AList.update manifest_file (Regular data) files)) entries)\<rparr>
           | _ \<Rightarrow> p)
      | _ \<Rightarrow> p)"

subsection \<open>The imports of a fill\<close>

fun tree_nodes :: "string \<Rightarrow> node \<Rightarrow> (string \<times> node) list"
  and entries_nodes :: "string \<Rightarrow> (string \<times> node) list \<Rightarrow> (string \<times> node) list" where
  "tree_nodes relative (Directory entries) = entries_nodes relative entries"
| "tree_nodes relative n = [(relative, n)]"
| "entries_nodes relative [] = []"
| "entries_nodes relative ((entry, n) # rest) = tree_nodes (path_join [relative, entry]) n @ entries_nodes relative rest"

definition standard_library :: "string \<Rightarrow> bool" where
  "standard_library path \<longleftrightarrow> CHR ''.'' \<notin> set (takeWhile (\<lambda>c. c \<noteq> slash) path)"

definition listed_module :: "string \<Rightarrow> string list \<Rightarrow> bool" where
  "listed_module path modules \<longleftrightarrow> list_ex (\<lambda>m. path = m \<or> has_prefix path (m @ [slash])) modules"

definition contracts_package :: "fill_check \<Rightarrow> string" where
  "contracts_package check = trim_suffix (fc_module check) [slash] @ ''/out/slots''"

definition may_import :: "fill_check \<Rightarrow> string \<Rightarrow> bool" where
  "may_import check path \<longleftrightarrow>
     path = contracts_package check \<or> standard_library path \<or> listed_module path (fc_fill_modules check)"

definition built_file :: "string \<Rightarrow> bool" where
  "built_file name \<longleftrightarrow> has_suffix name ''.go'' \<and> \<not> has_suffix name ''_test.go''"

datatype import_error = WalkFailed string | NotGo string | Forbidden "(string \<times> string) list"

text \<open>The imports of a Go file as \<open>go/parser\<close> gives them are an argument; \<open>None\<close> is a file that it refuses.\<close>

definition file_imports ::
    "(string \<Rightarrow> string list option) \<Rightarrow> fill_check \<Rightarrow> string \<times> node \<Rightarrow> (import_error, (string \<times> string) list) result" where
  "file_imports go_imports check file =
     (case file of (relative, n) \<Rightarrow>
        if n = Unreadable then Inl (WalkFailed relative)
        else if \<not> built_file relative then Inr []
        else (case (case n of Regular data \<Rightarrow> go_imports data | _ \<Rightarrow> None) of
            None \<Rightarrow> Inl (NotGo relative)
          | Some paths \<Rightarrow> Inr (map (Pair relative) (filter (\<lambda>path. \<not> may_import check path) paths))))"

definition check_imports :: "(string \<Rightarrow> string list option) \<Rightarrow> fill_check \<Rightarrow> node option \<Rightarrow> import_error option" where
  "check_imports go_imports check folder =
     (case folder of
        None \<Rightarrow> Some (WalkFailed ''.'')
      | Some n \<Rightarrow>
        (case each_result (file_imports go_imports check) (tree_nodes ''.'' (in_name_order n)) of
           Inl e \<Rightarrow> Some e
         | Inr found \<Rightarrow> if concat found = [] then None else Some (Forbidden (concat found))))"

subsection \<open>Recording evidence\<close>

datatype evidence_reason =
    ManifestRefused manifest_fault
  | NoState current_error
  | NoTests
  | BadImports import_error
  | TestsFailed
  | ChangedWhileTested
  | NotRecorded write_error

record evidence_result =
  er_fill :: string
  er_passed :: "(string \<times> string) option"
  er_kept :: bool
  er_failed :: bool
  er_reason :: "evidence_reason option"

definition no_evidence :: "string \<Rightarrow> evidence_reason \<Rightarrow> evidence_result" where
  "no_evidence name why =
     \<lparr>er_fill = name, er_passed = None, er_kept = False, er_failed = (why = TestsFailed), er_reason = Some why\<rparr>"

text \<open>What a run of the tests of a fill does: it passes or not, and leaves the project in some state.\<close>

type_synonym test_run = "string \<Rightarrow> fill_project \<Rightarrow> bool \<times> fill_project"

record record_env =
  re_fill :: fill_env
  re_imports :: "string \<Rightarrow> string list option"
  re_run :: test_run
  re_build :: build_record
  re_now :: time
  re_write_fails :: bool

definition evidence_of :: "record_env \<Rightarrow> current \<Rightarrow> fill_evidence" where
  "evidence_of env cu =
     \<lparr>ev_fill_digest = cu_fill_digest cu, ev_contract_digest = cu_contract_digest cu,
      ev_passed_at = to_second (re_now env), ev_compiler = re_build env, ev_files = cu_files cu\<rparr>"

definition evidence_current :: "fill \<Rightarrow> current \<Rightarrow> bool" where
  "evidence_current f cu \<longleftrightarrow>
     (case fi_evidence f of
        None \<Rightarrow> False
      | Some e \<Rightarrow> ev_fill_digest e = cu_fill_digest cu \<and> ev_contract_digest e = cu_contract_digest cu)"

definition record_one :: "record_env \<Rightarrow> fill_check \<Rightarrow> string \<Rightarrow> fill_project \<Rightarrow> evidence_result \<times> fill_project" where
  "record_one env check name p =
     (let fenv = re_fill env; folder = fill_folder p name in
      case read_manifest fenv check (folder_file folder manifest_file) of
        Inl e \<Rightarrow> (no_evidence name (ManifestRefused e), p)
      | Inr f \<Rightarrow>
        (case current_state fenv check folder f of
           Inl e \<Rightarrow> (no_evidence name (NoState e), p)
         | Inr before \<Rightarrow>
           if \<not> cu_has_tests before then (no_evidence name NoTests, p)
           else (case check_imports (re_imports env) check folder of
               Some e \<Rightarrow> (no_evidence name (BadImports e), p)
             | None \<Rightarrow>
               (let (passed, p1) = re_run env name p in
                if \<not> passed then (no_evidence name TestsFailed, p1)
                else (case current_state fenv check (fill_folder p1 name) f of
                    Inl e \<Rightarrow> (no_evidence name (NoState e), p1)
                  | Inr later \<Rightarrow>
                    if cu_fill_digest later \<noteq> cu_fill_digest before \<or> cu_contract_digest later \<noteq> cu_contract_digest before
                    then (no_evidence name ChangedWhileTested, p1)
                    else
                      (let ok = \<lparr>er_fill = name, er_passed = Some (cu_fill_digest before, cu_contract_digest before),
                                 er_kept = evidence_current f before, er_failed = False, er_reason = None\<rparr> in
                       if evidence_current f before then (ok, p1)
                       else (case write_evidence (fe_yaml fenv) (re_write_fails env) (evidence_of env before)
                               (folder_file (fill_folder p1 name) manifest_file) of
                           Inl e \<Rightarrow> (no_evidence name (NotRecorded e), p1)
                         | Inr data \<Rightarrow> (ok, put_manifest p1 name data))))))))"

fun record_each :: "record_env \<Rightarrow> fill_check \<Rightarrow> string list \<Rightarrow> fill_project \<Rightarrow> evidence_result list \<times> fill_project" where
  "record_each env check [] p = ([], p)"
| "record_each env check (name # names) p =
     (let (r, p1) = record_one env check name p; (rs, p2) = record_each env check names p1 in (r # rs, p2))"

definition record_evidence :: "record_env \<Rightarrow> fill_check \<Rightarrow> fill_project \<Rightarrow> (unit, evidence_result list \<times> fill_project) result" where
  "record_evidence env check p =
     (case fill_folders p of None \<Rightarrow> Inl () | Some names \<Rightarrow> Inr (record_each env check names p))"

subsection \<open>Signing the evidence\<close>

record signing_key =
  sk_format :: string
  sk_key :: string
  sk_program :: string

datatype signing_error =
    NoSigningKey
  | UnsupportedFormat string
  | LiteralKey
  | SigningFailed string
  | NoSignature string

text \<open>The values that git configuration gives, without the space around them; a value that is not set is empty.\<close>

definition personal_signing_key :: "(string \<Rightarrow> string) \<Rightarrow> (signing_error, signing_key) result" where
  "personal_signing_key config =
     (let format = (if config ''gpg.format'' = '''' then ''openpgp'' else config ''gpg.format'');
          key = config ''user.signingkey'' in
      if key = '''' then Inl NoSigningKey
      else if format = ''ssh'' then
        Inr \<lparr>sk_format = format, sk_key = key,
             sk_program = (if config ''gpg.ssh.program'' = '''' then ''ssh-keygen'' else config ''gpg.ssh.program'')\<rparr>
      else if format = ''openpgp'' then
        Inr \<lparr>sk_format = format, sk_key = key,
             sk_program = (if config ''gpg.program'' = '''' then ''gpg'' else config ''gpg.program'')\<rparr>
      else Inl (UnsupportedFormat format))"

text \<open>A run of the program that signs, with its arguments and the text on its input: what it prints.\<close>

definition sign_command :: "string option \<Rightarrow> signing_key \<Rightarrow> (signing_error, string \<times> string list) result" where
  "sign_command home k =
     (if sk_format k = ''ssh'' then
        (if has_prefix (sk_key k) ''key::'' then Inl LiteralKey
         else let file = (if has_prefix (sk_key k) ''~/'' then
                            (case home of None \<Rightarrow> sk_key k | Some h \<Rightarrow> path_join [h, drop 2 (sk_key k)])
                          else sk_key k) in
           Inr (key_ssh, [''-Y'', ''sign'', ''-n'', ssh_namespace, ''-f'', file]))
      else Inr (key_gpg, [''--batch'', ''--yes'', ''--detach-sign'', ''--armor'', ''--local-user'', sk_key k]))"

definition sign_digest ::
    "(string \<Rightarrow> string list \<Rightarrow> string \<Rightarrow> string option) \<Rightarrow> string option \<Rightarrow> signing_key \<Rightarrow> string \<Rightarrow> (signing_error, signature) result" where
  "sign_digest execute home k digest =
     bind_result (sign_command home k) (\<lambda>(key_type, arguments).
       case execute (sk_program k) arguments digest of
         None \<Rightarrow> Inl (SigningFailed (sk_program k))
       | Some armored \<Rightarrow>
         if armored = '''' then Inl (NoSignature (sk_program k))
         else Inr \<lparr>sg_key_type = key_type, sg_signer = '''', sg_armored = armored\<rparr>)"

text \<open>\<open>fillPackageName\<close>: the identifiers of Go are an argument, as \<open>token.IsIdentifier\<close> knows them.\<close>

definition fill_package_name :: "(string \<Rightarrow> bool) \<Rightarrow> string \<Rightarrow> string option" where
  "fill_package_name is_identifier name =
     (if validate_path name \<noteq> None \<or> slash \<in> set name then None
      else let package = map (\<lambda>c. if c = CHR ''-'' then CHR ''_'' else c) name in
        if \<not> is_identifier package \<or> package = ''_'' \<or> package = ''main'' then None else Some package)"

record sign_env =
  si_fill :: fill_env
  si_identifier :: "string \<Rightarrow> bool"
  si_config :: "string \<Rightarrow> string"
  si_execute :: "string \<Rightarrow> string list \<Rightarrow> string \<Rightarrow> string option"
  si_home :: "string option"
  si_now :: time
  si_write_fails :: bool

datatype sign_error =
    BadFillName string
  | SignManifest manifest_fault
  | SignNoEvidence
  | SignNoState current_error
  | SignStale
  | SignNoStatement
  | SignKey signing_error
  | SignSigners signers_error
  | SignNotWritten write_error

text \<open>\<open>runFillSign\<close> after its arguments: the sign-off that is written, and whether SIGNERS lists its key.\<close>

definition sign_off_of :: "sign_env \<Rightarrow> signing_key \<Rightarrow> signature \<Rightarrow> string \<Rightarrow> signers \<Rightarrow> fill_sign_off" where
  "sign_off_of env k sig digest s =
     (let who = principal_of (fe_tools (si_fill env)) sig digest s in
      \<lparr>so_evidence_digest = digest, so_signature = sig\<lparr>sg_signer := (if who = '''' then sk_key k else who)\<rparr>,
       so_signed_at = to_second (si_now env)\<rparr>)"

definition sign_fill ::
    "sign_env \<Rightarrow> fill_check \<Rightarrow> string \<Rightarrow> fill_project \<Rightarrow> (sign_error, fill_sign_off \<times> fill_project) result" where
  "sign_fill env check name p =
     (let fenv = si_fill env; folder = fill_folder p name; content = folder_file folder manifest_file in
      if fill_package_name (si_identifier env) name = None then Inl (BadFillName name)
      else (case read_manifest fenv check content of
          Inl e \<Rightarrow> Inl (SignManifest e)
        | Inr f \<Rightarrow>
          if fi_evidence f = None then Inl SignNoEvidence
          else (case current_state fenv check folder f of
              Inl e \<Rightarrow> Inl (SignNoState e)
            | Inr cu \<Rightarrow>
              if \<not> evidence_current f cu then Inl SignStale
              else (case evidence_digest (fe_sum256 fenv) f of
                  None \<Rightarrow> Inl SignNoStatement
                | Some digest \<Rightarrow>
                  (case bind_result (personal_signing_key (si_config env)) (\<lambda>k.
                          bind_result (sign_digest (si_execute env) (si_home env) k digest) (\<lambda>sig. Inr (k, sig))) of
                     Inl e \<Rightarrow> Inl (SignKey e)
                   | Inr (k, sig) \<Rightarrow>
                     (case read_signers (fe_sum1 fenv) (fp_signers p) of
                        Inl e \<Rightarrow> Inl (SignSigners e)
                      | Inr s \<Rightarrow>
                        (let so = sign_off_of env k sig digest s in
                         case write_sign_off (fe_yaml fenv) (si_write_fails env) so content of
                           Inl e \<Rightarrow> Inl (SignNotWritten e)
                         | Inr data \<Rightarrow> Inr (so, put_manifest p name data))))))))"

end
