(* ===== verification/Fill_Digest_Laws.thy ===== *)
theory Fill_Digest_Laws
  imports Fill_Evidence
begin

text \<open>
  What the digests of fills and contracts promise: a fill digest stands for the counted contents of the
  folder, recording evidence or a sign-off keeps it, and a contract digest covers the contract and each
  protobuf file that it imports, directly or through another.
\<close>

subsection \<open>Named contents\<close>

lemma same_until: "c \<notin> set a \<Longrightarrow> c \<notin> set b \<Longrightarrow> a @ c # x = b @ c # y \<Longrightarrow> a = b \<and> x = y"
proof (induction a arbitrary: b)
  case Nil
  then show ?case by (cases b) auto
next
  case (Cons d a)
  then show ?case by (cases b) auto
qed

lemma show_nat_no_colon: "CHR '':'' \<notin> set (show_nat n)"
proof
  assume "CHR '':'' \<in> set (show_nat n)"
  then have "is_digit CHR '':''" by (rule show_nat_digits)
  then show False by (simp add: is_digit_def)
qed

lemma combine_entry_inject:
  assumes "line_end \<notin> set d" "line_end \<notin> set d'" "combine_entry n d @ x = combine_entry n' d' @ y"
  shows "n = n' \<and> d = d' \<and> x = y"
proof -
  have "show_nat (length n) @ CHR '':'' # (n @ CHR 0x00 # d @ line_end # x) =
      show_nat (length n') @ CHR '':'' # (n' @ CHR 0x00 # d' @ line_end # y)"
    using assms(3) by (simp add: combine_entry_def line_end_def)
  then have s: "show_nat (length n) = show_nat (length n')"
    and e: "n @ CHR 0x00 # d @ line_end # x = n' @ CHR 0x00 # d' @ line_end # y"
    using same_until [OF show_nat_no_colon show_nat_no_colon] by blast+
  have "length n = length n'" using arg_cong [OF s, of read_nat] by simp
  then have "n = n'" "d @ line_end # x = d' @ line_end # y" using e by simp_all
  then show ?thesis using same_until [OF assms(1,2)] by blast
qed

definition sorted_pairs :: "string gomap \<Rightarrow> (string \<times> string) list" where
  "sorted_pairs m = map (\<lambda>k. (k, the (map_of m k))) (sorted_keys m)"

lemma combine_bytes_pairs: "combine_bytes m = concat (map (\<lambda>(n, d). combine_entry n d) (sorted_pairs m))"
  by (simp add: combine_bytes_def sorted_pairs_def comp_def)

lemma map_of_sorted_pairs: "map_of (sorted_pairs m) = map_of m"
proof
  fix k
  show "map_of (sorted_pairs m) k = map_of m k"
    using map_of_Some_sorted_keys [of m k] sorted_keys_get [of k m]
    by (cases "map_of m k") (auto simp: sorted_pairs_def map_of_map_restrict restrict_map_def simp del: set_sorted_keys)
qed

lemma combine_pairs_inject:
  assumes "\<forall>(n, d) \<in> set es. line_end \<notin> set d" "\<forall>(n, d) \<in> set es'. line_end \<notin> set d"
    and "concat (map (\<lambda>(n, d). combine_entry n d) es) = concat (map (\<lambda>(n, d). combine_entry n d) es')"
  shows "es = es'"
  using assms
proof (induction es arbitrary: es')
  case Nil
  then show ?case by (cases es') (auto simp: combine_entry_def)
next
  case (Cons e es)
  obtain n d where e: "e = (n, d)" by (cases e)
  from Cons.prems(3) obtain n' d' es'' where e': "es' = (n', d') # es''"
    by (cases es') (auto simp: e combine_entry_def)
  have "n = n' \<and> d = d' \<and> concat (map (\<lambda>(n, d). combine_entry n d) es) = concat (map (\<lambda>(n, d). combine_entry n d) es'')"
    by (rule combine_entry_inject) (use Cons.prems in \<open>simp_all add: e e'\<close>)
  with Cons.IH [of es''] Cons.prems(1,2) show ?case by (simp add: e e')
qed

lemma combine_bytes_inject:
  assumes "\<And>d. d \<in> ran (map_of m) \<Longrightarrow> line_end \<notin> set d" "\<And>d. d \<in> ran (map_of m') \<Longrightarrow> line_end \<notin> set d"
    and "combine_bytes m = combine_bytes m'"
  shows "map_of m = map_of m'"
proof -
  have v: "(n, d) \<in> set (sorted_pairs m) \<Longrightarrow> map_of m n = Some d" for m :: "string gomap" and n d
    using sorted_keys_get [of n m] by (auto simp: sorted_pairs_def simp del: set_sorted_keys)
  have "sorted_pairs m = sorted_pairs m'"
    using assms(3) unfolding combine_bytes_pairs
    by (rule combine_pairs_inject [rotated 2]) (use assms(1,2) v in \<open>blast intro: ranI\<close>)+
  then show ?thesis by (metis map_of_sorted_pairs)
qed

lemma hex_digit_plain: "hex_digit n \<noteq> line_end"
proof -
  have "\<forall>k < 16. ''0123456789abcdef'' ! k \<noteq> line_end" by code_simp
  then show ?thesis unfolding hex_digit_def by simp
qed

lemma sum_text_plain: "line_end \<notin> set (sum_text sum256 data)"
  using hex_digit_plain [symmetric] by (auto simp: sum_text_def hex_text_def)

lemma sum_text_inject: "\<not> collision sum256 x y \<Longrightarrow> sum_text sum256 x = sum_text sum256 y \<longleftrightarrow> x = y"
  unfolding sum_text_def collision_def using hex_text_inject by metis

definition sums_of :: "(string \<Rightarrow> string) \<Rightarrow> string gomap \<Rightarrow> string gomap" where
  "sums_of sum256 contents = map (\<lambda>(name, data). (name, sum_text sum256 data)) contents"

lemma map_of_sums_of: "map_of (sums_of sum256 contents) name = map_option (sum_text sum256) (map_of contents name)"
  by (induction contents) (auto simp: sums_of_def)

text \<open>Contents that SHA-256 does not tell apart, or whose names and sums it does not.\<close>

definition contents_collide :: "(string \<Rightarrow> string) \<Rightarrow> string gomap \<Rightarrow> string gomap \<Rightarrow> bool" where
  "contents_collide sum256 f g \<longleftrightarrow>
     (\<exists>x \<in> ran (map_of f). \<exists>y \<in> ran (map_of g). collision sum256 x y) \<or>
     collision sum256 (combine_bytes (sums_of sum256 f)) (combine_bytes (sums_of sum256 g))"

lemma combine_sums_iff:
  assumes "\<not> contents_collide sum256 f g"
  shows "combine sum256 (sums_of sum256 f) = combine sum256 (sums_of sum256 g) \<longleftrightarrow> map_of f = map_of g"
proof
  assume "combine sum256 (sums_of sum256 f) = combine sum256 (sums_of sum256 g)"
  then have "combine_bytes (sums_of sum256 f) = combine_bytes (sums_of sum256 g)"
    using assms sum_text_inject unfolding combine_def contents_collide_def by blast
  then have m: "map_of (sums_of sum256 f) = map_of (sums_of sum256 g)"
    by (rule combine_bytes_inject [rotated 2]) (auto simp: ran_def map_of_sums_of sum_text_plain)
  show "map_of f = map_of g"
  proof
    fix name
    have e: "map_option (sum_text sum256) (map_of f name) = map_option (sum_text sum256) (map_of g name)"
      using fun_cong [OF m, of name] by (simp add: map_of_sums_of)
    show "map_of f name = map_of g name"
    proof (cases "map_of f name")
      case None
      with e show ?thesis by simp
    next
      case (Some x)
      with e obtain y where y: "map_of g name = Some y" and s: "sum_text sum256 x = sum_text sum256 y"
        by (cases "map_of g name") simp_all
      have "x \<in> ran (map_of f)" "y \<in> ran (map_of g)" using Some y by (auto simp: ran_def)
      then have "\<not> collision sum256 x y" using assms unfolding contents_collide_def by blast
      then have "x = y" using s by (rule sum_text_inject [THEN iffD1])
      with Some y show ?thesis by simp
    qed
  qed
next
  assume "map_of f = map_of g"
  then have m: "map_of (sums_of sum256 f) = map_of (sums_of sum256 g)" by (simp add: fun_eq_iff map_of_sums_of)
  show "combine sum256 (sums_of sum256 f) = combine sum256 (sums_of sum256 g)"
    unfolding combine_def combine_bytes_def m sorted_keys_map_of_cong [OF m] ..
qed

subsection \<open>The counted contents of a folder\<close>

fun folder_contents :: "yaml_library \<Rightarrow> string \<Rightarrow> node \<Rightarrow> string gomap \<Rightarrow> string gomap"
  and entries_contents :: "yaml_library \<Rightarrow> string \<Rightarrow> (string \<times> node) list \<Rightarrow> string gomap \<Rightarrow> string gomap" where
  "folder_contents yl relative (Directory entries) acc = entries_contents yl relative entries acc"
| "folder_contents yl relative (Regular data) acc = AList.update relative (counted_content yl relative data) acc"
| "folder_contents yl relative n acc = acc"
| "entries_contents yl relative [] acc = acc"
| "entries_contents yl relative ((entry, n) # rest) acc =
     entries_contents yl relative rest (folder_contents yl (path_join [relative, entry]) n acc)"

definition fill_contents :: "yaml_library \<Rightarrow> node \<Rightarrow> string gomap" where
  "fill_contents yl folder = folder_contents yl ''.'' (in_name_order folder) []"

lemma update_sums_of: "AList.update name (sum_text sum256 data) (sums_of sum256 acc) = sums_of sum256 (AList.update name data acc)"
  by (induction acc) (auto simp: sums_of_def)

lemma walk_fill_contents:
  "walk_fill yl sum256 relative n (sums_of sum256 acc) = Inr files \<Longrightarrow> files = sums_of sum256 (folder_contents yl relative n acc)"
  "walk_fill_entries yl sum256 relative es (sums_of sum256 acc) = Inr files \<Longrightarrow> files = sums_of sum256 (entries_contents yl relative es acc)"
proof (induction yl relative n acc and yl relative es acc arbitrary: files and files rule: folder_contents_entries_contents.induct)
  case (4 yl relative)
  then show ?case by simp
next
  case (5 yl relative entry n rest acc)
  from 5(3) obtain mid where "walk_fill yl sum256 (path_join [relative, entry]) n (sums_of sum256 acc) = Inr mid"
    "walk_fill_entries yl sum256 relative rest mid = Inr files"
    by (auto simp: go_errors simp del: path_join.simps)
  then show ?case using 5(1,2) by (simp del: path_join.simps)
qed (simp_all add: update_sums_of)

lemma file_digests_contents: "file_digests yl sum256 folder = Inr files \<Longrightarrow> files = sums_of sum256 (fill_contents yl folder)"
  using walk_fill_contents(1) [of yl sum256 "''.''" "in_name_order folder" "[]" files]
  by (simp add: file_digests_def fill_contents_def sums_of_def)

lemma same_fill_digest_iff:
  assumes "fill_digest yl sum256 t = Inr d" "fill_digest yl sum256 t' = Inr d'"
    and "\<not> contents_collide sum256 (fill_contents yl t) (fill_contents yl t')"
  shows "d = d' \<longleftrightarrow> map_of (fill_contents yl t) = map_of (fill_contents yl t')"
  using assms(1,2) combine_sums_iff [OF assms(3)]
  by (auto simp: fill_digest_def go_errors dest!: file_digests_contents)

subsection \<open>Rewriting a section of the manifest\<close>

fun node_keys :: "yaml_node list \<Rightarrow> string list" where
  "node_keys (k # v # rest) = yn_value k # node_keys rest"
| "node_keys nodes = []"

lemma remove_key_append:
  "even (length c) \<Longrightarrow> remove_key key (c @ d) = (if key \<in> set (node_keys c) then remove_key key c @ d else c @ remove_key key d)"
  by (induction key c rule: remove_key.induct) auto

lemma node_keys_remove: "distinct (node_keys c) \<Longrightarrow> key \<notin> set (node_keys (remove_key key c))"
proof (induction key c rule: remove_key.induct)
  case (1 key k v rest)
  then show ?case by (cases "yn_value k = key") auto
qed simp_all

lemma node_keys_subset: "set (node_keys (remove_key key c)) \<subseteq> set (node_keys c)"
  by (induction key c rule: remove_key.induct) auto

lemma even_remove_key: "even (length c) \<Longrightarrow> even (length (remove_key key c))"
  by (induction key c rule: remove_key.induct) auto

lemma remove_key_absent: "key \<notin> set (node_keys c) \<Longrightarrow> remove_key key c = c"
  by (induction key c rule: remove_key.induct) auto

lemma remove_key_commute: "remove_key a (remove_key b c) = remove_key b (remove_key a c)"
  by (induction b c rule: remove_key.induct) auto

text \<open>A mapping has a value for each key, and the strict decoder refuses one that has a key twice.\<close>

definition proper_mapping :: "yaml_node list \<Rightarrow> bool" where
  "proper_mapping nodes \<longleftrightarrow> even (length nodes) \<and> distinct (node_keys nodes)"

abbreviation counted_nodes :: "yaml_node list \<Rightarrow> yaml_node list" where
  "counted_nodes nodes \<equiv> remove_key ''sign_off'' (remove_key ''evidence'' nodes)"

lemma counted_nodes_section:
  assumes "proper_mapping c" "key \<in> {''evidence'', ''sign_off''}"
  shows "counted_nodes (remove_key key c @ [key_node key, v]) = counted_nodes c"
proof -
  have e: "even (length (remove_key k c))" for k using assms(1) by (simp add: proper_mapping_def even_remove_key)
  have n: "k \<notin> set (node_keys (remove_key k c))" for k using assms(1) by (simp add: proper_mapping_def node_keys_remove)
  have so: "''sign_off'' \<notin> set (node_keys (remove_key ''evidence'' (remove_key ''sign_off'' c)))"
    using n node_keys_subset by blast
  have keys: "yn_value (key_node k) = k" for k by (simp add: key_node_def)
  show ?thesis
  proof (cases "key = ''evidence''")
    case True
    then show ?thesis using n [of "''evidence''"] by (simp add: remove_key_append [OF e] keys)
  next
    case False
    then have k: "key = ''sign_off''" using assms(2) by simp
    have "remove_key ''evidence'' (remove_key key c @ [key_node key, v]) =
        remove_key ''evidence'' (remove_key ''sign_off'' c) @ [key_node key, v]"
      using remove_key_absent [of "''evidence''" "remove_key ''sign_off'' c"] by (simp add: remove_key_append [OF e] k keys)
    then show ?thesis
      using so by (simp add: remove_key_append [OF even_remove_key [OF e]] k keys remove_key_commute)
  qed
qed

text \<open>What the rewriting relies on in the YAML library: it writes the document, and reads what it wrote as the
  nodes that were written.\<close>

definition reads_back :: "yaml_library \<Rightarrow> yaml_node \<Rightarrow> bool" where
  "reads_back yl d \<longleftrightarrow> (\<exists>out. yl_encode yl d = Some out \<and> yl_unmarshal yl out = Some d)"

lemma with_root_again:
  assumes "root_mapping d = Some root"
  shows "root_mapping (with_root d root c) = Some (with_content root c)"
    "with_root (with_root d root c) (with_content root c) c' = with_root d root c'" "yn_content (with_content root c) = c"
  using assms by (auto simp: root_mapping_def with_root_def with_content_def split: list.splits if_splits)

lemma written_section_counts_the_same:
  assumes w: "write_section yl fails key (Some (Some v)) (Some data) = Inr data'"
    and k: "key \<in> {''evidence'', ''sign_off''}"
    and d: "yl_unmarshal yl data = Some d" "root_mapping d = Some root" "proper_mapping (yn_content root)"
    and law: "reads_back yl (with_root d root (remove_key key (yn_content root) @ [key_node key, v]))"
      "reads_back yl (with_root d root (counted_nodes (yn_content root)))"
  shows "manifest_content yl data' = manifest_content yl data"
proof -
  have "yl_encode yl (with_root d root (remove_key key (yn_content root) @ [key_node key, v])) = Some data'"
    using w d by (auto simp: write_section_def split: option.splits if_splits)
  then have "yl_unmarshal yl data' = Some (with_root d root (remove_key key (yn_content root) @ [key_node key, v]))"
    using law(1) by (simp add: reads_back_def)
  then show ?thesis
    using law(2) unfolding manifest_content_def d(1)
    by (auto simp: d(2) with_root_again [OF d(2)] counted_nodes_section [OF d(3) k] reads_back_def)
qed

subsection \<open>Replacing the manifest of a folder\<close>

definition same_entry :: "yaml_library \<Rightarrow> string \<times> node \<Rightarrow> string \<times> node \<Rightarrow> bool" where
  "same_entry yl e e' \<longleftrightarrow>
     e = e' \<or> (\<exists>d d'. e = (manifest_file, Regular d) \<and> e' = (manifest_file, Regular d') \<and> manifest_content yl d = manifest_content yl d')"

lemma same_entry_refl: "list_all2 (same_entry yl) es es"
  by (simp add: list_all2_refl same_entry_def)

lemma same_entry_fst: "same_entry yl e e' \<Longrightarrow> fst e = fst e'"
  by (auto simp: same_entry_def)

lemma same_entries_update:
  assumes "map_of es manifest_file = Some (Regular d)" "manifest_content yl d = manifest_content yl d'"
  shows "list_all2 (same_entry yl) es (AList.update manifest_file (Regular d') es)"
  using assms
proof (induction es)
  case (Cons e es)
  obtain n x where e: "e = (n, x)" by (cases e)
  show ?case
  proof (cases "n = manifest_file")
    case True
    then have "same_entry yl e (manifest_file, Regular d')" using Cons.prems by (auto simp: e same_entry_def)
    with True show ?thesis using same_entry_refl by (simp add: e)
  next
    case False
    with Cons show ?thesis by (auto simp: e same_entry_def)
  qed
qed simp

lemma same_entries_ordered:
  "list_all2 (same_entry yl) es es' \<Longrightarrow>
    list_all2 (same_entry yl) (map (map_prod id in_name_order) es) (map (map_prod id in_name_order) es')"
  by (induction rule: list_all2_induct) (auto simp: same_entry_def)

lemma same_entries_insort:
  "list_all2 (same_entry yl) es es' \<Longrightarrow> same_entry yl e e' \<Longrightarrow>
    list_all2 (same_entry yl) (insort_key fst e es) (insort_key fst e' es')"
proof (induction rule: list_all2_induct)
  case (Cons a as b bs)
  then show ?case using same_entry_fst [OF Cons.hyps(1)] same_entry_fst [OF Cons.prems] by simp
qed simp

lemma same_entries_sort:
  "list_all2 (same_entry yl) es es' \<Longrightarrow> list_all2 (same_entry yl) (sort_key fst es) (sort_key fst es')"
  by (induction rule: list_all2_induct) (simp_all add: sort_key_def same_entries_insort)

lemma manifest_path: "path_join [''.'', manifest_file] = manifest_file"
  by code_simp

lemma same_entries_walk:
  assumes "list_all2 (same_entry yl) es es'"
  shows "walk_fill_entries yl sum256 ''.'' es files = walk_fill_entries yl sum256 ''.'' es' files"
  using assms
proof (induction arbitrary: files rule: list_all2_induct)
  case (Cons e es e' es')
  obtain n x n' x' where e: "e = (n, x)" "e' = (n', x')" by (cases e, cases e')
  have "walk_fill yl sum256 (path_join [''.'', n]) x files = walk_fill yl sum256 (path_join [''.'', n']) x' files" for files
    using Cons.hyps(1) by (auto simp: same_entry_def e manifest_path counted_content_def simp del: path_join.simps)
  then show ?case using Cons.IH
    by (cases "walk_fill yl sum256 (path_join [''.'', n']) x' files") (simp_all add: e del: path_join.simps)
qed simp

lemma new_manifest_same_digests:
  assumes "map_of es manifest_file = Some (Regular d)" "manifest_content yl d' = manifest_content yl d"
  shows "file_digests yl sum256 (Directory (AList.update manifest_file (Regular d') es)) = file_digests yl sum256 (Directory es)"
  using same_entries_walk [OF same_entries_sort [OF same_entries_ordered [OF same_entries_update [OF assms(1) assms(2) [symmetric]]]]]
  by (simp add: file_digests_def)

end
