(* ===== verification/Contract_Laws.thy ===== *)
theory Contract_Laws
  imports Fill_Digest_Laws
begin

text \<open>
  What a contract digest covers: the contract and each protobuf file that it imports, directly or through
  another file, by the content that the captured registry holds.
\<close>

inductive imported :: "registry_file gomap \<Rightarrow> string \<Rightarrow> string \<Rightarrow> bool" for contents data where
  direct: "name \<in> set (imports_of data) \<Longrightarrow> imported contents data name"
| through: "imported contents data name \<Longrightarrow> read_proto_import contents name = Inr d \<Longrightarrow> m \<in> set (imports_of d) \<Longrightarrow>
    imported contents data m"

definition import_data :: "registry_file gomap \<Rightarrow> string \<Rightarrow> string" where
  "import_data contents name = (case read_proto_import contents name of Inr d \<Rightarrow> d | Inl _ \<Rightarrow> '''')"

text \<open>The sums of the contract and of some of its imports.\<close>

definition covered_sums :: "(string \<Rightarrow> string) \<Rightarrow> registry_file gomap \<Rightarrow> string \<Rightarrow> string \<Rightarrow> string set \<Rightarrow> string \<Rightarrow> string option" where
  "covered_sums sum256 contents contract data names =
     (\<lambda>k. if \<exists>n \<in> names. k = ''import:'' @ n then Some (sum_text sum256 (import_data contents (drop 7 k)))
          else if k = contract then Some (sum_text sum256 data) else None)"

lemma readable_import_clean:
  assumes "read_proto_import contents name = Inr d"
  shows "path_clean name = name"
  using assms by (auto simp: read_proto_import_def intro: valid_path_clean split: option.splits)

lemma covered_sums_insert:
  assumes "map_of sums = covered_sums sum256 contents contract data names" "read_proto_import contents name = Inr d"
  shows "map_of (AList.update (''import:'' @ path_clean name) (sum_text sum256 d) sums) =
    covered_sums sum256 contents contract data (insert name names)"
  using assms readable_import_clean [OF assms(2)]
  by (auto simp: fun_eq_iff map_of_update covered_sums_def import_data_def)

definition loop_invariant :: "registry_file gomap \<Rightarrow> string \<Rightarrow> string list \<Rightarrow> string list \<Rightarrow> bool" where
  "loop_invariant contents data pending seen \<longleftrightarrow>
     (\<forall>n \<in> set pending \<union> set seen. imported contents data n) \<and>
     (\<forall>n \<in> set seen. \<exists>d. read_proto_import contents n = Inr d \<and> set (imports_of d) \<subseteq> set pending \<union> set seen) \<and>
     set (imports_of data) \<subseteq> set pending \<union> set seen"

lemma invariant_closed:
  assumes "loop_invariant contents data [] seen"
  shows "imported contents data n \<longleftrightarrow> n \<in> set seen"
proof
  show "imported contents data n \<Longrightarrow> n \<in> set seen"
  proof (induction rule: imported.induct)
    case (direct name)
    then show ?case using assms by (auto simp: loop_invariant_def)
  next
    case (through name d m)
    then show ?case using assms by (fastforce simp: loop_invariant_def)
  qed
qed (use assms in \<open>auto simp: loop_invariant_def\<close>)

lemma invariant_step:
  assumes "loop_invariant contents data (name # rest) seen" "read_proto_import contents name = Inr d"
  shows "loop_invariant contents data (rest @ imports_of d) (name # seen)"
  using assms unfolding loop_invariant_def by (auto intro: imported.through) blast+

lemma invariant_skip:
  "loop_invariant contents data (name # rest) seen \<Longrightarrow> name \<in> set seen \<Longrightarrow> loop_invariant contents data rest seen"
  unfolding loop_invariant_def by auto blast+

lemma import_loop_covers:
  assumes "loop_invariant contents data pending seen" "map_of sums = covered_sums sum256 contents contract data (set seen)"
  shows "case import_loop sum256 contents pending seen sums of
      Inl e \<Rightarrow> \<exists>n. imported contents data n \<and> read_proto_import contents n = Inl e
    | Inr all \<Rightarrow> (\<forall>n. imported contents data n \<longrightarrow> n \<in> readable_imports contents) \<and>
        map_of all = covered_sums sum256 contents contract data {n. imported contents data n}"
  using assms
proof (induction sum256 contents pending seen sums rule: import_loop.induct)
  case (1 sum256 contents seen sums)
  have "{n. imported contents data n} = set seen" using invariant_closed [OF 1(1)] by auto
  moreover have "set seen \<subseteq> readable_imports contents" using 1(1) by (auto simp: loop_invariant_def readable_imports_def)
  ultimately show ?case using 1(2) by auto
next
  case (2 sum256 contents name rest seen sums)
  show ?case
  proof (cases "name \<in> set seen")
    case True
    then show ?thesis using 2(1) [OF True invariant_skip [OF 2(3) True] 2(4)] by simp
  next
    case new: False
    show ?thesis
    proof (cases "read_proto_import contents name")
      case (Inl e)
      moreover have "imported contents data name" using 2(3) by (simp add: loop_invariant_def)
      ultimately show ?thesis using new by auto
    next
      case (Inr d)
      have "map_of (AList.update (''import:'' @ path_clean name) (sum_text sum256 d) sums) =
          covered_sums sum256 contents contract data (set (name # seen))"
        using covered_sums_insert [OF 2(4) Inr] by simp
      then show ?thesis using 2(2) [OF new Inr invariant_step [OF 2(3) Inr]] new Inr by simp
    qed
  qed
qed

lemma import_loop_start:
  "loop_invariant contents data (imports_of data) []"
  "map_of [(contract, sum_text sum256 data)] = covered_sums sum256 contents contract data (set [])"
  by (auto simp: loop_invariant_def covered_sums_def fun_eq_iff intro: imported.direct)

lemma combine_cong:
  assumes m: "map_of m = map_of m'"
  shows "combine sum256 m = combine sum256 m'"
  unfolding combine_def combine_bytes_def m sorted_keys_map_of_cong [OF m] ..

text \<open>C10. A slot contract has a digest exactly when the registry holds the contract and each file that it
  imports, directly or through another file; and the digest is that of the contract and all of them, each
  by its name and the sum of its content. The loop over the imports ends, also for files that import each
  other.\<close>

theorem contract_digest_covers_imports:
  "contract_digest sum256 contents contract = Inr digest \<longleftrightarrow>
     (\<exists>data sums. read_file contents contract = Inr data \<and>
        {n. imported contents data n} \<subseteq> readable_imports contents \<and>
        map_of sums = covered_sums sum256 contents contract data {n. imported contents data n} \<and>
        digest = combine sum256 sums)"
proof (cases "read_file contents contract")
  case (Inl e)
  then show ?thesis by (simp add: contract_digest_def contract_sums_def)
next
  case (Inr data)
  let ?r = "import_loop sum256 contents (imports_of data) [] [(contract, sum_text sum256 data)]"
  note loop = import_loop_covers [OF import_loop_start, of contents data sum256 contract]
  show ?thesis
  proof (cases ?r)
    case (Inl e)
    then obtain n where "imported contents data n" "n \<notin> readable_imports contents"
      using loop by (auto simp: readable_imports_def)
    then show ?thesis using Inl Inr by (auto simp: contract_digest_def contract_sums_def)
  next
    case all: (Inr sums)
    have c: "contract_digest sum256 contents contract = Inr (combine sum256 sums)"
      by (simp add: contract_digest_def contract_sums_def Inr all)
    have r: "{n. imported contents data n} \<subseteq> readable_imports contents"
      and m: "map_of sums = covered_sums sum256 contents contract data {n. imported contents data n}"
      using loop by (auto simp: all)
    show ?thesis
    proof
      assume "contract_digest sum256 contents contract = Inr digest"
      then have "digest = combine sum256 sums" using c by simp
      then show "\<exists>data sums. read_file contents contract = Inr data \<and>
        {n. imported contents data n} \<subseteq> readable_imports contents \<and>
        map_of sums = covered_sums sum256 contents contract data {n. imported contents data n} \<and>
        digest = combine sum256 sums" using Inr r m by blast
    next
      assume "\<exists>data sums. read_file contents contract = Inr data \<and>
        {n. imported contents data n} \<subseteq> readable_imports contents \<and>
        map_of sums = covered_sums sum256 contents contract data {n. imported contents data n} \<and>
        digest = combine sum256 sums"
      then obtain sums' where s: "map_of sums' = map_of sums" "digest = combine sum256 sums'"
        using Inr m by auto
      show "contract_digest sum256 contents contract = Inr digest"
        unfolding c s(2) combine_cong [OF s(1)] ..
    qed
  qed
qed

end
