(* ===== verification/Evidence_Text.thy ===== *)
theory Evidence_Text
  imports Contract_Laws
begin

text \<open>
  The text of evidence gives the evidence: two statements with the same text are about the same fill and the
  same evidence. The text of a value tells it apart when no other value has a text that starts alike.
\<close>

subsection \<open>The text of evidence gives the evidence\<close>

lemma json_string_no_close: "valid_string s \<Longrightarrow> valid_string t \<Longrightarrow> json_string s @ x = json_string t @ y \<longleftrightarrow> s = t \<and> x = y"
  using json_string_inject by metis

definition pairs_text :: "(string \<times> string) list \<Rightarrow> string" where
  "pairs_text ps = join_with '','' (map (\<lambda>(k, v). json_string k @ CHR '':'' # json_string v) ps)"

lemma pairs_text_inject:
  assumes "\<forall>(k, v) \<in> set ps. valid_string k \<and> valid_string v" "\<forall>(k, v) \<in> set qs. valid_string k \<and> valid_string v"
    and "pairs_text ps @ CHR ''}'' # x = pairs_text qs @ CHR ''}'' # y"
  shows "ps = qs \<and> x = y"
  using assms
proof (induction ps arbitrary: qs)
  case Nil
  then show ?case by (cases qs rule: remdups_adj.cases) (auto simp: pairs_text_def json_string_def)
next
  case (Cons p ps)
  obtain k v where p: "p = (k, v)" by (cases p)
  obtain k' v' qs' where q: "qs = (k', v') # qs'"
    using Cons.prems(3) by (cases qs; cases ps) (auto simp: pairs_text_def p json_string_def)
  define rest where "rest = (\<lambda>ps z. (if ps = [] then [] else CHR '','' # pairs_text ps) @ CHR ''}'' # z :: string)"
  have t: "pairs_text ((a, b) # rs) @ CHR ''}'' # z = json_string a @ CHR '':'' # json_string b @ rest rs z" for a b rs z
    by (cases rs) (auto simp: pairs_text_def rest_def)
  have "json_string k @ CHR '':'' # json_string v @ rest ps x = json_string k' @ CHR '':'' # json_string v' @ rest qs' y"
    using Cons.prems(3) unfolding p q t .
  then have same: "k = k'" "v = v'" and r: "rest ps x = rest qs' y"
    using Cons.prems(1,2) by (simp_all add: p q json_string_no_close)
  have "ps = qs' \<and> x = y"
  proof (cases "ps = [] \<or> qs' = []")
    case True
    then show ?thesis using r by (auto simp: rest_def split: if_splits)
  next
    case False
    then have "pairs_text ps @ CHR ''}'' # x = pairs_text qs' @ CHR ''}'' # y" using r by (simp add: rest_def)
    then show ?thesis using Cons.IH [of qs'] Cons.prems(1,2) by (simp add: p q)
  qed
  then show ?case by (simp add: p q same)
qed

definition valid_map :: "string gomap \<Rightarrow> bool" where
  "valid_map m \<longleftrightarrow> (\<forall>k v. map_of m k = Some v \<longrightarrow> valid_string k \<and> valid_string v)"

lemma json_map_text: "m \<noteq> [] \<Longrightarrow> json_string_map m @ x = CHR ''{'' # pairs_text (sorted_pairs m) @ CHR ''}'' # x"
  by (simp add: json_string_map_def json_object_def pairs_text_def sorted_pairs_def comp_def)

lemma json_map_inject:
  assumes "valid_map m" "valid_map m'" "json_string_map m @ x = json_string_map m' @ y"
  shows "map_of m = map_of m'" "x = y"
proof -
  have v: "\<forall>(k, v) \<in> set (sorted_pairs m). valid_string k \<and> valid_string v" if "valid_map m" for m
    using that sorted_keys_get [of _ m] by (fastforce simp: sorted_pairs_def valid_map_def simp del: set_sorted_keys)
  have "sorted_pairs m = sorted_pairs m' \<and> x = y"
  proof (cases "m = [] \<or> m' = []")
    case True
    then show ?thesis
      using assms(3) json_map_text [of m x] json_map_text [of m' y]
      by (cases "m = []"; cases "m' = []") (simp_all add: json_string_map_def sorted_pairs_def)
  next
    case False
    then have "pairs_text (sorted_pairs m) @ CHR ''}'' # x = pairs_text (sorted_pairs m') @ CHR ''}'' # y"
      using assms(3) by (simp add: json_map_text)
    then show ?thesis by (rule pairs_text_inject [OF v [OF assms(1)] v [OF assms(2)]])
  qed
  then show "map_of m = map_of m'" "x = y" by (metis map_of_sorted_pairs, simp)
qed

text \<open>Two texts tell two values apart: whatever follows them, the same text means the same value and the same
  rest.\<close>

definition tells :: "string \<Rightarrow> string \<Rightarrow> bool \<Rightarrow> bool" where
  "tells v v' P \<longleftrightarrow> (\<forall>x y. v @ x = v' @ y \<longrightarrow> P \<and> x = y)"

fun fields_tail :: "(string \<times> string) list \<Rightarrow> string" where
  "fields_tail [] = ''}''"
| "fields_tail ((k, v) # ps) = CHR '','' # json_string k @ CHR '':'' # v @ fields_tail ps"

lemma json_object_tail: "json_object ((k, v) # ps) = CHR ''{'' # json_string k @ CHR '':'' # v @ fields_tail ps"
proof -
  have "join_with '','' (map (\<lambda>(k, v). json_string k @ CHR '':'' # v) ((k, v) # ps)) @ ''}'' =
      json_string k @ CHR '':'' # v @ fields_tail ps"
    by (induction ps arbitrary: k v) auto
  then show ?thesis by (simp add: json_object_def)
qed

lemma tells_string: "valid_string s \<Longrightarrow> valid_string t \<Longrightarrow> tells (json_string s) (json_string t) (s = t)"
  by (simp add: tells_def json_string_no_close)

lemma tells_map: "valid_map m \<Longrightarrow> valid_map m' \<Longrightarrow> tells (json_string_map m) (json_string_map m') (map_of m = map_of m')"
  unfolding tells_def using json_map_inject by blast

lemma tells_nothing: "tells (fields_tail []) (fields_tail []) True"
  by (simp add: tells_def)

lemma tells_Cons: "tells v w P \<Longrightarrow> tells (c # v) (c # w) P"
  by (simp add: tells_def)

lemma tells_prefix: "tells v w P \<Longrightarrow> tells (c @ v) (c @ w) P"
  by (simp add: tells_def)

lemma tells_append:
  assumes "tells v v' P" "tells w w' Q"
  shows "tells (v @ w) (v' @ w') (P \<and> Q)"
  unfolding tells_def append_assoc
proof (intro allI impI)
  fix x y assume "v @ w @ x = v' @ w' @ y"
  then have "P" "w @ x = w' @ y" using assms(1) by (auto simp: tells_def)
  then show "(P \<and> Q) \<and> x = y" using assms(2) by (simp add: tells_def)
qed

lemma tells_field: "tells v v' P \<Longrightarrow> tells (fields_tail ps) (fields_tail ps') Q \<Longrightarrow>
    tells (fields_tail ((k, v) # ps)) (fields_tail ((k, v') # ps')) (P \<and> Q)"
  unfolding fields_tail.simps by (intro tells_Cons tells_prefix tells_append)

lemma tells_object: "tells v v' P \<Longrightarrow> tells (fields_tail ps) (fields_tail ps') Q \<Longrightarrow>
    tells (json_object ((k, v) # ps)) (json_object ((k, v') # ps')) (P \<and> Q)"
  unfolding json_object_tail by (intro tells_Cons tells_prefix tells_append)

lemmas tells_fields = tells_object tells_field tells_nothing tells_string tells_map

definition whole_second :: "time \<Rightarrow> bool" where
  "whole_second t \<longleftrightarrow> t mod 10 ^ 9 = 0"

lemma utc_text_no_quote:
  assumes "four_digit_year t"
  shows "CHR 0x22 \<notin> set (utc_text t)"
proof -
  have "\<not> is_digit CHR 0x22" by (simp add: is_digit_def)
  then have d: "CHR 0x22 \<notin> set (show_two k)" "CHR 0x22 \<notin> set (pad_zero w (show_nat n))" for k w n
    using show_two_digits padded_digits by blast+
  have "\<not> year_of (day_of t) < 0" using assms by (simp add: four_digit_year_def)
  then show ?thesis using d by (auto simp: utc_text_def date_text_def date_of_def Let_def)
qed

lemma tells_time:
  assumes "json_time t = Some v" "json_time t' = Some v'" "whole_second t" "whole_second t'"
  shows "tells v v' (t = t')"
proof -
  have y: "four_digit_year t" "four_digit_year t'" using assms(1,2) by (auto simp: json_time_def split: if_splits)
  have e: "butlast (utc_text u) @ ''Z'' = utc_text u" for u by (simp add: utc_text_def Let_def butlast_append)
  have v: "v = CHR 0x22 # utc_text t @ [CHR 0x22]" "v' = CHR 0x22 # utc_text t' @ [CHR 0x22]"
    using assms e [of t] e [of t'] by (auto simp: json_time_def whole_second_def y append_assoc [symmetric] simp del: append_assoc)
  have "t = t'" if "utc_text t = utc_text t'"
  proof -
    have "to_second t = t" "to_second t' = t'" using assms(3,4) by (simp_all add: to_second_def whole_second_def)
    moreover have "Some (to_second t) = Some (to_second t')"
      unfolding read_utc_text [OF y(1), symmetric] read_utc_text [OF y(2), symmetric] that ..
    ultimately show ?thesis by simp
  qed
  moreover have "utc_text t = utc_text t' \<and> x = z" if "v @ x = v' @ z" for x z
  proof (rule same_until [OF utc_text_no_quote [OF y(1)] utc_text_no_quote [OF y(2)]])
    show "utc_text t @ CHR 0x22 # x = utc_text t' @ CHR 0x22 # z"
      using that unfolding v by (simp only: append.simps append_assoc list.inject simp_thms)
  qed
  ultimately show ?thesis unfolding tells_def by blast
qed

definition valid_build_texts :: "build_record \<Rightarrow> bool" where
  "valid_build_texts b \<longleftrightarrow>
     list_all valid_string [br_go_version b, br_goos b, br_goarch b, br_module_version b, br_vcs b, br_revision b, br_source_state b]"

text \<open>A fill with evidence as the code records it: its texts are UTF-8, and its time is a whole second.\<close>

definition stated_evidence :: "fill_evidence \<Rightarrow> bool" where
  "stated_evidence e \<longleftrightarrow>
     valid_string (ev_fill_digest e) \<and> valid_string (ev_contract_digest e) \<and> whole_second (ev_passed_at e) \<and>
     valid_build_texts (ev_compiler e) \<and> valid_map (ev_files e)"

definition stated_fill :: "fill \<Rightarrow> bool" where
  "stated_fill f \<longleftrightarrow>
     valid_string (fi_name f) \<and> valid_string (fi_implements f) \<and> valid_string (fi_collection f) \<and>
     (case fi_evidence f of None \<Rightarrow> False | Some e \<Rightarrow> stated_evidence e)"

definition same_evidence :: "fill_evidence \<Rightarrow> fill_evidence \<Rightarrow> bool" where
  "same_evidence e e' \<longleftrightarrow>
     ev_fill_digest e = ev_fill_digest e' \<and> ev_contract_digest e = ev_contract_digest e' \<and>
     ev_passed_at e = ev_passed_at e' \<and> ev_compiler e = ev_compiler e' \<and> map_of (ev_files e) = map_of (ev_files e')"

lemma tells_build:
  assumes "valid_build_texts b" "valid_build_texts b'"
  shows "tells (build_json b) (build_json b') (b = b')"
proof -
  have "tells (build_json b) (build_json b')
      (br_go_version b = br_go_version b' \<and> br_goos b = br_goos b' \<and> br_goarch b = br_goarch b' \<and>
       br_module_version b = br_module_version b' \<and> br_vcs b = br_vcs b' \<and> br_revision b = br_revision b' \<and>
       br_source_state b = br_source_state b' \<and> True)"
    unfolding build_json_def by (intro tells_fields) (use assms in \<open>simp_all add: valid_build_texts_def\<close>)
  then show ?thesis by (simp add: tells_def build_record.equality)
qed

lemma tells_evidence:
  assumes "evidence_json e = Some v" "evidence_json e' = Some v'" "stated_evidence e" "stated_evidence e'"
  shows "tells v v' (same_evidence e e')"
proof -
  obtain t where t: "json_time (ev_passed_at e) = Some t" using assms(1) by (auto simp: evidence_json_def)
  obtain t' where t': "json_time (ev_passed_at e') = Some t'" using assms(2) by (auto simp: evidence_json_def)
  have v: "v = json_object [(''fill_digest'', json_string (ev_fill_digest e)), (''contract_digest'', json_string (ev_contract_digest e)),
      (''passed_at'', t), (''compiler'', build_json (ev_compiler e)), (''files'', json_string_map (ev_files e))]"
    "v' = json_object [(''fill_digest'', json_string (ev_fill_digest e')), (''contract_digest'', json_string (ev_contract_digest e')),
      (''passed_at'', t'), (''compiler'', build_json (ev_compiler e')), (''files'', json_string_map (ev_files e'))]"
    using assms(1,2) by (simp_all add: evidence_json_def t t')
  have "tells v v' (ev_fill_digest e = ev_fill_digest e' \<and> ev_contract_digest e = ev_contract_digest e' \<and>
     ev_passed_at e = ev_passed_at e' \<and> ev_compiler e = ev_compiler e' \<and> map_of (ev_files e) = map_of (ev_files e') \<and> True)"
    unfolding v by (intro tells_fields tells_time [OF t t'] tells_build) (use assms(3,4) in \<open>simp_all add: stated_evidence_def\<close>)
  then show ?thesis by (simp add: same_evidence_def)
qed

end
