(* ===== verification/Fill_Laws.thy ===== *)
theory Fill_Laws
  imports Evidence_Text Compile_Check
begin

text \<open>
  What the qualification of fills promises: a sign-off signs the evidence of one fill, evidence is recorded
  only for a state whose tests passed and leaves the digest of the fill as it was, a person's sign-off makes
  the fill qualified exactly when SIGNERS lists the key, and an accepted declaration binds only fills that
  stand.
\<close>

subsection \<open>Evidence and its digest\<close>

definition statements_collide :: "(string \<Rightarrow> string) \<Rightarrow> fill \<Rightarrow> fill \<Rightarrow> bool" where
  "statements_collide sum256 f g \<longleftrightarrow>
     (\<exists>e e' x y. fi_evidence f = Some e \<and> fi_evidence g = Some e' \<and> evidence_statement f e = Some x \<and>
        evidence_statement g e' = Some y \<and> collision sum256 x y)"

definition same_statement :: "fill \<Rightarrow> fill \<Rightarrow> bool" where
  "same_statement f g \<longleftrightarrow>
     fi_name f = fi_name g \<and> fi_implements f = fi_implements g \<and> fi_collection f = fi_collection g \<and>
     (\<exists>e e'. fi_evidence f = Some e \<and> fi_evidence g = Some e' \<and> same_evidence e e')"

lemma valid_kind: "valid_string ''stego-fill-evidence/v1''"
  by code_simp

lemma statement_inject:
  assumes "evidence_statement f e = Some x" "evidence_statement g e' = Some x" "stated_fill f" "stated_fill g"
    and "fi_evidence f = Some e" "fi_evidence g = Some e'"
  shows "same_statement f g"
proof -
  obtain v where v: "evidence_json e = Some v" using assms(1) by (auto simp: evidence_statement_def)
  obtain v' where v': "evidence_json e' = Some v'" using assms(2) by (auto simp: evidence_statement_def)
  have x: "x = json_object [(''kind'', json_string ''stego-fill-evidence/v1''), (''name'', json_string (fi_name f)),
      (''implements'', json_string (fi_implements f)), (''collection'', json_string (fi_collection f)), (''evidence'', v)]"
    "x = json_object [(''kind'', json_string ''stego-fill-evidence/v1''), (''name'', json_string (fi_name g)),
      (''implements'', json_string (fi_implements g)), (''collection'', json_string (fi_collection g)), (''evidence'', v')]"
    using assms(1,2) by (simp_all add: evidence_statement_def v v')
  have "tells (json_object [(''kind'', json_string ''stego-fill-evidence/v1''), (''name'', json_string (fi_name f)),
      (''implements'', json_string (fi_implements f)), (''collection'', json_string (fi_collection f)), (''evidence'', v)])
    (json_object [(''kind'', json_string ''stego-fill-evidence/v1''), (''name'', json_string (fi_name g)),
      (''implements'', json_string (fi_implements g)), (''collection'', json_string (fi_collection g)), (''evidence'', v')])
    (''stego-fill-evidence/v1'' = ''stego-fill-evidence/v1'' \<and> fi_name f = fi_name g \<and> fi_implements f = fi_implements g \<and>
     fi_collection f = fi_collection g \<and> same_evidence e e' \<and> True)"
    by (intro tells_fields tells_evidence [OF v v'])
      (use assms(3-6) valid_kind in \<open>simp_all add: stated_fill_def\<close>)
  then have "fi_name f = fi_name g \<and> fi_implements f = fi_implements g \<and> fi_collection f = fi_collection g \<and> same_evidence e e'"
    unfolding tells_def x(1) [symmetric] x(2) [symmetric] by blast
  then show ?thesis using assms(5,6) by (simp add: same_statement_def)
qed

text \<open>C12. The digest that a sign-off signs is of one fill and one evidence: two fills with the same evidence
  digest have the same name, slot and collection, and their evidence names the same digests, time, compiler
  and files, unless SHA-256 collides on the two statements.\<close>

theorem evidence_digest_signs_one_fill:
  assumes "evidence_digest sum256 f = Some digest" "evidence_digest sum256 g = Some digest"
    and "stated_fill f" "stated_fill g" "\<not> statements_collide sum256 f g"
  shows "same_statement f g"
proof -
  obtain e e' x y where e: "fi_evidence f = Some e" "fi_evidence g = Some e'"
      "evidence_statement f e = Some x" "evidence_statement g e' = Some y"
    and d: "sum_text sum256 x = digest" "sum_text sum256 y = digest"
    using assms(1,2) by (auto simp: evidence_digest_def bind_eq_Some_conv)
  have "\<not> collision sum256 x y" using assms(5) e by (auto simp: statements_collide_def)
  then have "x = y" using d sum_text_inject by metis
  then show ?thesis using statement_inject e assms(3,4) by metis
qed

subsection \<open>Recording keeps the digest\<close>

text \<open>The manifest is a document that the YAML library reads, with each key once, and the library reads back
  what it writes of it.\<close>

definition rewritable :: "yaml_library \<Rightarrow> string \<Rightarrow> string \<Rightarrow> yaml_node \<Rightarrow> bool" where
  "rewritable yl data key v \<longleftrightarrow>
     (\<exists>d root. yl_unmarshal yl data = Some d \<and> root_mapping d = Some root \<and> proper_mapping (yn_content root) \<and>
        reads_back yl (with_root d root (remove_key key (yn_content root) @ [key_node key, v])) \<and>
        reads_back yl (with_root d root (counted_nodes (yn_content root))))"

lemma folder_put_manifest:
  assumes "fill_folder p name = Some (Directory es)"
  shows "fill_folder (put_manifest p name data) name = Some (Directory (AList.update manifest_file (Regular data) es))"
  using assms by (auto simp: fill_folder_def put_manifest_def map_of_update split: fills_folder.splits)

lemma section_keeps_digests:
  assumes "fill_folder p name = Some (Directory es)" "map_of es manifest_file = Some (Regular data)"
    and "write_section yl fails key (Some (Some v)) (Some data) = Inr data'" "key \<in> {''evidence'', ''sign_off''}"
    and "rewritable yl data key v"
  shows "file_digests yl sum256 (the (fill_folder (put_manifest p name data') name)) = file_digests yl sum256 (Directory es)"
proof -
  have "manifest_content yl data' = manifest_content yl data"
    using assms(5) unfolding rewritable_def by (blast intro: written_section_counts_the_same [OF assms(3,4)])
  then show ?thesis using new_manifest_same_digests [OF assms(2)] by (simp add: folder_put_manifest [OF assms(1)])
qed

lemma section_value: "write_section yl fails key (Some val) (Some data) = Inr data' \<Longrightarrow> \<exists>v. val = Some v"
  by (cases val) (auto simp: write_section_def split: option.splits)

lemma written_evidence:
  assumes "write_evidence yl fails e (Some data) = Inr data'"
  obtains v where "yl_evidence yl e = Some v" "write_section yl fails ''evidence'' (Some (Some v)) (Some data) = Inr data'"
  using assms section_value [of yl fails "''evidence''" "yl_evidence yl e" data data']
  by (auto simp: write_evidence_def go_errors)

lemma written_sign_off:
  assumes "write_sign_off yl fails so (Some data) = Inr data'"
  obtains v where "yl_sign_off yl so = Some v" "write_section yl fails ''sign_off'' (Some (Some v)) (Some data) = Inr data'"
  using assms section_value [of yl fails "''sign_off''" "yl_sign_off yl so" data data']
  by (auto simp: write_sign_off_def go_errors)

text \<open>C11. Recording evidence or a sign-off in the manifest of a fill does not change the digest of the fill,
  nor the digest of any of its files: what was tested and signed is still what the folder holds.\<close>

theorem recording_keeps_the_fill_digest:
  assumes "fill_folder p name = Some (Directory es)" "map_of es manifest_file = Some (Regular data)"
    and "write_evidence yl fails e (Some data) = Inr data' \<or> write_sign_off yl fails so (Some data) = Inr data'"
    and "\<And>v. yl_evidence yl e = Some v \<Longrightarrow> rewritable yl data ''evidence'' v"
    and "\<And>v. yl_sign_off yl so = Some v \<Longrightarrow> rewritable yl data ''sign_off'' v"
  shows "fill_digest yl sum256 (the (fill_folder (put_manifest p name data') name)) = fill_digest yl sum256 (Directory es)"
proof -
  note keeps = section_keeps_digests [OF assms(1,2)]
  from assms(3) have "file_digests yl sum256 (the (fill_folder (put_manifest p name data') name)) = file_digests yl sum256 (Directory es)"
  proof
    assume "write_evidence yl fails e (Some data) = Inr data'"
    then show ?thesis by (rule written_evidence) (rule keeps, assumption, simp, rule assms(4))
  next
    assume "write_sign_off yl fails so (Some data) = Inr data'"
    then show ?thesis by (rule written_sign_off) (rule keeps, assumption, simp, rule assms(5))
  qed
  then show ?thesis by (simp add: fill_digest_def)
qed

subsection \<open>Recording evidence\<close>

text \<open>The fill was read, may be tested, passes its tests, and has the digests before and after the run.\<close>

definition tested :: "record_env \<Rightarrow> fill_check \<Rightarrow> string \<Rightarrow> fill_project \<Rightarrow> string \<times> string \<Rightarrow> bool" where
  "tested env check name p digests \<longleftrightarrow>
     (\<exists>f before later. let p1 = snd (re_run env name p) in
        read_manifest (re_fill env) check (folder_file (fill_folder p name) manifest_file) = Inr f \<and>
        current_state (re_fill env) check (fill_folder p name) f = Inr before \<and> cu_has_tests before \<and>
        check_imports (re_imports env) check (fill_folder p name) = None \<and> fst (re_run env name p) \<and>
        current_state (re_fill env) check (fill_folder p1 name) f = Inr later \<and>
        (cu_fill_digest before, cu_contract_digest before) = digests \<and>
        (cu_fill_digest later, cu_contract_digest later) = digests)"

text \<open>The evidence that a run wrote, into the manifest that the tests left.\<close>

definition evidence_written :: "record_env \<Rightarrow> string \<Rightarrow> fill_project \<Rightarrow> string \<times> string \<Rightarrow> fill_project \<Rightarrow> bool" where
  "evidence_written env name p1 digests p' \<longleftrightarrow>
     (\<exists>e data. (ev_fill_digest e, ev_contract_digest e) = digests \<and> ev_compiler e = re_build env \<and>
        ev_passed_at e = to_second (re_now env) \<and>
        write_evidence (fe_yaml (re_fill env)) (re_write_fails env) e (folder_file (fill_folder p1 name) manifest_file) = Inr data \<and>
        p' = put_manifest p1 name data)"

lemma evidence_writtenI:
  assumes "write_evidence (fe_yaml (re_fill env)) (re_write_fails env) (evidence_of env cu)
      (folder_file (fill_folder p1 name) manifest_file) = Inr data"
    and "cu_fill_digest cu = fd" "cu_contract_digest cu = cd"
  shows "evidence_written env name p1 (fd, cd) (put_manifest p1 name data)"
  unfolding evidence_written_def
  by (intro exI [of _ "evidence_of env cu"] exI [of _ data] conjI) (use assms in \<open>simp_all add: evidence_of_def\<close>)

text \<open>C9. A run records evidence only for a fill that may be tested, whose tests passed, and whose files and
  contract were the same before and after the tests; the evidence names those digests. Where it records
  none, it writes nothing: the project is as it was, or as the tests left it.\<close>

theorem evidence_only_for_passing_tests:
  assumes "record_one env check name p = (r, p')"
  shows "case er_passed r of
      None \<Rightarrow> p' = p \<or> p' = snd (re_run env name p)
    | Some digests \<Rightarrow> tested env check name p digests \<and>
        (if er_kept r then p' = snd (re_run env name p)
         else evidence_written env name (snd (re_run env name p)) digests p')"
proof -
  obtain passed p1 where run: "re_run env name p = (passed, p1)" by (cases "re_run env name p")
  show ?thesis
    using assms unfolding record_one_def Let_def run
    by (auto simp: no_evidence_def tested_def run Let_def intro!: evidence_writtenI
        split: sum.splits option.splits if_splits)
qed

end
