(* ===== verification/Fill_Standing.thy ===== *)
theory Fill_Standing
  imports Fill_Laws Compile_Laws
begin

text \<open>
  Where a fill stands: a fill is qualified exactly when it was tested, is unchanged since, and SIGNERS lists
  the key of a sign-off of that evidence; signing brings a fill there; and a declaration that the gate
  accepts binds only such fills.
\<close>

subsection \<open>A qualified fill\<close>

text \<open>The statement of what a qualified fill is: evidence for the files and the contract as they are now, and
  a sign-off of the digest of that evidence with a listed key.\<close>

definition signed_evidence :: "fill_env \<Rightarrow> signers \<Rightarrow> fill \<Rightarrow> current \<Rightarrow> bool" where
  "signed_evidence env s f cu \<longleftrightarrow>
     cu_has_tests cu \<and> evidence_current f cu \<and>
     (\<exists>so who. fi_sign_off f = Some so \<and> evidence_digest (fe_sum256 env) f = Some (so_evidence_digest so) \<and>
        verify_signature (fe_tools env) (so_signature so) (so_evidence_digest so) s = Inr who)"

lemma changed_parts_Nil: "fi_evidence f = Some e \<Longrightarrow> changed_parts f e cu = [] \<longleftrightarrow> evidence_current f cu"
  by (simp add: changed_parts_def evidence_current_def Let_def)

lemma verify_sign_off_Inr:
  "(\<exists>who. verify_sign_off vt so digest s = Inr who) \<longleftrightarrow>
     (\<exists>o' who. so = Some o' \<and> so_evidence_digest o' = digest \<and> verify_signature vt (so_signature o') digest s = Inr who)"
  by (cases so) (auto simp: verify_sign_off_def)

lemma assess_Qualified: "fst (assess env s f cu) = Qualified \<longleftrightarrow> signed_evidence env s f cu"
proof (cases "cu_has_tests cu \<and> evidence_current f cu")
  case False
  then show ?thesis
    using changed_parts_Nil [of f _ cu] by (auto simp: assess_def signed_evidence_def split: option.splits)
next
  case True
  then obtain e where e: "fi_evidence f = Some e" by (cases "fi_evidence f") (auto simp: evidence_current_def)
  have c: "changed_parts f e cu = []" using changed_parts_Nil [OF e] True by simp
  show ?thesis
  proof (cases "\<exists>so digest. fi_sign_off f = Some so \<and> evidence_digest (fe_sum256 env) f = Some digest")
    case False
    then show ?thesis using True e c by (auto simp: assess_def signed_evidence_def split: option.splits)
  next
    case d: True
    then obtain so digest where so: "fi_sign_off f = Some so" "evidence_digest (fe_sum256 env) f = Some digest" by blast
    show ?thesis
      using verify_sign_off_Inr [of "fe_tools env" "Some so" digest s] True e c
      by (cases "verify_sign_off (fe_tools env) (Some so) digest s") (auto simp: assess_def signed_evidence_def so)
  qed
qed

subsection \<open>Signing\<close>

text \<open>The laws that signing asks of the YAML library for one manifest: the strict decoder reads the new manifest
  as the old one with the sign-off, and the library reads back what it writes.\<close>

definition sign_off_reads_back :: "fill_env \<Rightarrow> string \<Rightarrow> string \<Rightarrow> fill_sign_off \<Rightarrow> bool" where
  "sign_off_reads_back env data data' so \<longleftrightarrow>
     fe_decode env data' = map_option (\<lambda>f. f\<lparr>fi_sign_off := Some so\<rparr>) (fe_decode env data) \<and>
     (\<forall>v. yl_sign_off (fe_yaml env) so = Some v \<longrightarrow> rewritable (fe_yaml env) data ''sign_off'' v)"

lemma several_values_remove: "several_values c = None \<Longrightarrow> several_values (remove_key key c) = None"
  by (induction key c rule: remove_key.induct) (auto split: if_splits)

lemma several_values_append:
  "several_values c = None \<Longrightarrow> even (length c) \<Longrightarrow> yn_value k \<notin> {''implements'', ''collection''} \<Longrightarrow>
    several_values (c @ [k, v]) = None"
  by (induction c rule: several_values.induct) (auto split: if_splits)


lemma even_proper: "proper_mapping c \<Longrightarrow> even (length c)"
  by (simp add: proper_mapping_def)

lemma reads_back_writes: "reads_back yl d \<Longrightarrow> yl_encode yl d = Some out \<Longrightarrow> yl_unmarshal yl out = Some d"
  by (auto simp: reads_back_def)

lemma check_one_value_root:
  "yl_unmarshal yl data = Some d \<Longrightarrow> root_mapping d = Some root \<Longrightarrow> check_one_value yl data = several_values (yn_content root)"
  by (auto simp: check_one_value_def root_mapping_def split: list.splits if_splits)

lemma write_section_document:
  assumes "write_section yl fails key (Some (Some v)) (Some data) = Inr data'" "rewritable yl data key v"
  obtains d root where "yl_unmarshal yl data = Some d" "root_mapping d = Some root" "proper_mapping (yn_content root)"
    "yl_unmarshal yl data' = Some (with_root d root (remove_key key (yn_content root) @ [key_node key, v]))"
proof -
  obtain d root where d: "yl_unmarshal yl data = Some d" "root_mapping d = Some root" "proper_mapping (yn_content root)"
    and again: "reads_back yl (with_root d root (remove_key key (yn_content root) @ [key_node key, v]))"
    using assms(2) unfolding rewritable_def by blast
  have "yl_encode yl (with_root d root (remove_key key (yn_content root) @ [key_node key, v])) = Some data'"
    using assms(1) by (simp add: write_section_def d(1,2) split: option.splits if_splits)
  with d again that show thesis using reads_back_writes by blast
qed

lemma section_keeps_one_value:
  assumes "write_section yl fails ''sign_off'' (Some (Some v)) (Some data) = Inr data'" "rewritable yl data ''sign_off'' v"
    and "check_one_value yl data = None"
  shows "check_one_value yl data' = None"
proof -
  obtain d root where d: "yl_unmarshal yl data = Some d" "root_mapping d = Some root" "proper_mapping (yn_content root)"
    and d': "yl_unmarshal yl data' = Some (with_root d root (remove_key ''sign_off'' (yn_content root) @ [key_node ''sign_off'', v]))"
    using write_section_document [OF assms(1,2)] .
  have "several_values (yn_content root) = None" using assms(3) by (simp add: check_one_value_root [OF d(1,2)])
  then have "several_values (remove_key ''sign_off'' (yn_content root) @ [key_node ''sign_off'', v]) = None"
    by (intro several_values_append several_values_remove even_remove_key even_proper d(3)) (simp_all add: key_node_def)
  then show ?thesis by (simp add: check_one_value_root [OF d'] with_root_again [OF d(2)])
qed

lemma read_manifest_Some:
  "read_manifest env check (Some data) = Inr f \<longleftrightarrow>
     check_one_value (fe_yaml env) data = None \<and> parse_fill (fe_decode env) data = Inr f \<and>
     (\<exists>ref. parse_slot_ref (fi_implements f) = Some ref \<and> find_slot check ref \<noteq> None) \<and> fi_implements f \<noteq> '''' \<and>
     fi_collection f \<noteq> '''' \<and> fi_collection f \<in> set (fc_collections check)"
  by (cases "parse_fill (fe_decode env) data") (auto simp: read_manifest_def go_errors split: option.splits if_splits)

lemma parse_fill_Inr:
  "parse_fill decode data = Inr f \<longleftrightarrow>
     decode data = Some f \<and> Option.bind (fi_evidence f) evidence_fault = None \<and> Option.bind (fi_sign_off f) sign_off_fault = None"
  by (auto simp: parse_fill_def go_errors split: option.splits)

lemma current_state_sign_off: "current_state env check folder (f\<lparr>fi_sign_off := so\<rparr>) = current_state env check folder f"
proof -
  have "fi_implements (f\<lparr>fi_sign_off := so\<rparr>) = fi_implements f" by simp
  then show ?thesis unfolding current_state_def by (rule arg_cong)
qed

lemma evidence_digest_sign_off: "evidence_digest sum256 (f\<lparr>fi_sign_off := so\<rparr>) = evidence_digest sum256 f"
  by (cases f) (simp add: evidence_digest_def evidence_statement_def)

lemma current_state_cong:
  "file_digests (fe_yaml env) (fe_sum256 env) n = file_digests (fe_yaml env) (fe_sum256 env) n' \<Longrightarrow>
    current_state env check (Some n) f = current_state env check (Some n') f"
  by (simp add: current_state_def)

lemma folder_file_Some:
  assumes "folder_file folder name = Some data"
  obtains es where "folder = Some (Directory es)" "map_of es name = Some (Regular data)"
  using assms by (auto simp: folder_file_def split: option.splits node.splits)

text \<open>What a successful \<open>sign_fill\<close> found and did.\<close>

lemma sign_fill_Inr:
  assumes "sign_fill env check name p = Inr (so, p')"
  obtains f cu data data' s where
    "folder_file (fill_folder p name) manifest_file = Some data"
    "read_manifest (si_fill env) check (Some data) = Inr f"
    "current_state (si_fill env) check (fill_folder p name) f = Inr cu" "evidence_current f cu"
    "evidence_digest (fe_sum256 (si_fill env)) f = Some (so_evidence_digest so)"
    "read_signers (fe_sum1 (si_fill env)) (fp_signers p) = Inr s"
    "write_sign_off (fe_yaml (si_fill env)) (si_write_fails env) so (Some data) = Inr data'"
    "p' = put_manifest p name data'"
proof -
  let ?env = "si_fill env" and ?folder = "fill_folder p name" and ?content = "folder_file (fill_folder p name) manifest_file"
  note run = assms [unfolded sign_fill_def Let_def]
  obtain f where f: "read_manifest ?env check ?content = Inr f"
    using run by (cases "read_manifest ?env check ?content") (simp_all split: if_splits)
  note run = run [unfolded f, simplified]
  obtain data where data: "?content = Some data" using f by (cases ?content) (simp_all add: read_manifest_def)
  obtain cu where cu: "current_state ?env check ?folder f = Inr cu" "evidence_current f cu"
    using run by (cases "current_state ?env check ?folder f") (simp_all split: if_splits)
  obtain digest where digest: "evidence_digest (fe_sum256 ?env) f = Some digest"
    using run cu by (cases "evidence_digest (fe_sum256 ?env) f") (simp_all split: if_splits)
  note run = run [unfolded cu(1) digest, simplified]
  obtain s where s: "read_signers (fe_sum1 ?env) (fp_signers p) = Inr s"
    using run cu digest by (cases "read_signers (fe_sum1 ?env) (fp_signers p)") (simp_all split: if_splits sum.splits prod.splits)
  note run = run [unfolded s, simplified]
  obtain k sig where so: "so = sign_off_of env k sig digest s"
      "(case write_sign_off (fe_yaml ?env) (si_write_fails env) so ?content of
          Inl e \<Rightarrow> Inl (SignNotWritten e) | Inr data \<Rightarrow> Inr (so, put_manifest p name data)) = Inr (so, p')"
    using run cu digest by (auto split: if_splits sum.splits)
  obtain data' where w: "write_sign_off (fe_yaml ?env) (si_write_fails env) so ?content = Inr data'" "p' = put_manifest p name data'"
    using so(2) by (cases "write_sign_off (fe_yaml ?env) (si_write_fails env) so ?content") simp_all
  have "so_evidence_digest so = digest" by (simp add: so(1) sign_off_of_def Let_def)
  then show thesis using that [OF data f [unfolded data] cu _ s w(1) [unfolded data] w(2)] digest by simp
qed

lemma sign_off_only: "fi_implements (f\<lparr>fi_sign_off := so\<rparr>) = fi_implements f" "fi_collection (f\<lparr>fi_sign_off := so\<rparr>) = fi_collection f"
  by simp_all

lemma read_manifest_signed:
  assumes "read_manifest env check (Some data) = Inr f"
    and "check_one_value (fe_yaml env) data = None \<Longrightarrow> check_one_value (fe_yaml env) data' = None"
    and "sign_off_fault so = None"
    and "fe_decode env data' = map_option (\<lambda>f. f\<lparr>fi_sign_off := Some so\<rparr>) (fe_decode env data) \<and> others"
  shows "read_manifest env check (Some data') = Inr (f\<lparr>fi_sign_off := Some so\<rparr>)"
proof -
  have d: "fe_decode env data = Some f" "Option.bind (fi_evidence f) evidence_fault = None"
    using assms(1) unfolding read_manifest_Some parse_fill_Inr by blast+
  have "fe_decode env data' = Some (f\<lparr>fi_sign_off := Some so\<rparr>)" using assms(4) d(1) by simp
  then have "parse_fill (fe_decode env) data' = Inr (f\<lparr>fi_sign_off := Some so\<rparr>)"
    unfolding parse_fill_Inr using d(2) assms(3) by simp
  then show ?thesis
    using assms(1,2) unfolding read_manifest_Some sign_off_only by blast
qed

text \<open>C8. Signing makes the fill qualified when its folder has a test and SIGNERS lists the key that signed,
  and only then: the project that a successful run of fill sign leaves is read back as the same fill with the
  sign-off, and its standing is qualified exactly when the signature of the evidence digest verifies.\<close>

theorem signing_qualifies_the_fill:
  assumes "sign_fill env check name p = Inr (so, p')"
    and "read_signers (fe_sum1 (si_fill env)) (fp_signers p) = Inr s"
    and "\<And>data data'. folder_file (fill_folder p name) manifest_file = Some data \<Longrightarrow>
      folder_file (fill_folder p' name) manifest_file = Some data' \<Longrightarrow> sign_off_reads_back (si_fill env) data data' so"
  shows "\<exists>f cu q. read_manifest (si_fill env) check (folder_file (fill_folder p' name) manifest_file) = Inr (f\<lparr>fi_sign_off := Some so\<rparr>) \<and>
    current_state (si_fill env) check (fill_folder p' name) f = Inr cu \<and> qualify_one (si_fill env) check p' s name = Inr q \<and>
    (ql_standing q = Qualified \<longleftrightarrow> cu_has_tests cu \<and>
       (\<exists>who. verify_signature (fe_tools (si_fill env)) (so_signature so) (so_evidence_digest so) s = Inr who))"
proof -
  let ?env = "si_fill env"
  obtain f cu data data' where data: "folder_file (fill_folder p name) manifest_file = Some data"
    and f: "read_manifest ?env check (Some data) = Inr f"
    and cu: "current_state ?env check (fill_folder p name) f = Inr cu" "evidence_current f cu"
    and digest: "evidence_digest (fe_sum256 ?env) f = Some (so_evidence_digest so)"
    and w: "write_sign_off (fe_yaml ?env) (si_write_fails env) so (Some data) = Inr data'"
    and p': "p' = put_manifest p name data'"
    using sign_fill_Inr [OF assms(1)] .
  obtain es where es: "fill_folder p name = Some (Directory es)" "map_of es manifest_file = Some (Regular data)"
    using folder_file_Some [OF data] .
  have data': "folder_file (fill_folder p' name) manifest_file = Some data'"
    by (simp add: p' folder_put_manifest [OF es(1)] folder_file_def map_of_update)
  have law: "sign_off_reads_back ?env data data' so" by (rule assms(3) [OF data data'])
  obtain v where v: "yl_sign_off (fe_yaml ?env) so = Some v"
    and ws: "write_section (fe_yaml ?env) (si_write_fails env) ''sign_off'' (Some (Some v)) (Some data) = Inr data'"
    using written_sign_off [OF w] .
  have rw: "rewritable (fe_yaml ?env) data ''sign_off'' v" using law v by (simp add: sign_off_reads_back_def)
  have sound: "sign_off_fault so = None" using w by (simp add: write_sign_off_def go_errors)
  have read: "read_manifest ?env check (Some data') = Inr (f\<lparr>fi_sign_off := Some so\<rparr>)"
    using f section_keeps_one_value [OF ws rw] sound law unfolding sign_off_reads_back_def by (rule read_manifest_signed)
  have now: "current_state ?env check (fill_folder p' name) f = Inr cu"
    using current_state_cong [OF section_keeps_digests [OF es ws _ rw]] cu(1)
    unfolding p' folder_put_manifest [OF es(1)] es(1) option.sel by simp
  have "fst (assess ?env s (f\<lparr>fi_sign_off := Some so\<rparr>) cu) = Qualified \<longleftrightarrow> cu_has_tests cu \<and>
      (\<exists>who. verify_signature (fe_tools ?env) (so_signature so) (so_evidence_digest so) s = Inr who)"
    unfolding assess_Qualified using cu(2) digest
    by (auto simp: signed_evidence_def evidence_digest_sign_off evidence_current_def)
  then show ?thesis
    using read now by (auto simp: qualify_one_def Let_def data' current_state_sign_off split: prod.splits)
qed


subsection \<open>The gate\<close>

lemma each_result_Inr: "each_result g xs = Inr ys \<longleftrightarrow> list_all2 (\<lambda>x y. g x = Inr y) xs ys"
proof (induction xs arbitrary: ys)
  case (Cons x xs)
  then show ?case by (cases "g x"; cases "each_result g xs"; cases ys) (auto simp: bind_result_Inr list_all2_Cons1)
qed auto

lemma list_all2_ex: "(\<exists>ys. list_all2 P xs ys) \<longleftrightarrow> (\<forall>x \<in> set xs. \<exists>y. P x y)"
  by (induction xs) (auto simp: list_all2_Cons1)

text \<open>A fill is for a binding when it implements a slot of the name that is bound, for the collection.\<close>

definition for_binding :: "fill_check \<Rightarrow> fill \<Rightarrow> fill_binding \<Rightarrow> bool" where
  "for_binding check f b \<longleftrightarrow>
     (\<exists>ref \<in> set (slots_named check (fb_slot b)). parse_slot_ref (fi_implements f) = Some ref) \<and> fi_collection f = fb_collection b"

text \<open>What it takes that a fill stands in a project: its manifest reads as a fill of an active slot, its
  evidence is of what its folder and its contract are now, a listed key signed that evidence, and it is for
  each of its bindings.\<close>

definition stands :: "fill_env \<Rightarrow> fill_check \<Rightarrow> fill_project \<Rightarrow> string \<Rightarrow> bool" where
  "stands env check p name \<longleftrightarrow>
     (\<exists>s f cu. read_signers (fe_sum1 env) (fp_signers p) = Inr s \<and>
        read_manifest env check (folder_file (fill_folder p name) manifest_file) = Inr f \<and>
        current_state env check (fill_folder p name) f = Inr cu \<and> signed_evidence env s f cu \<and>
        (\<forall>b \<in> set (fc_bindings check). fb_fill b = name \<longrightarrow> for_binding check f b))"

lemma misfit_None: "misfit f (slots_named check (fb_slot b)) (fb_collection b) = None \<longleftrightarrow> for_binding check f b"
  by (auto simp: misfit_def for_binding_def split: option.splits)

lemma misfits_Nil: "misfits check f name = [] \<longleftrightarrow> (\<forall>b \<in> set (fc_bindings check). fb_fill b = name \<longrightarrow> for_binding check f b)"
  unfolding misfit_None [symmetric] misfits_def List.map_filter_def by (auto simp: filter_empty_conv)

lemma qualify_one_passes:
  assumes "read_signers (fe_sum1 env) (fp_signers p) = Inr s"
  shows "(\<exists>q. qualify_one env check p s name = Inr q \<and> passes_qualification q) \<longleftrightarrow> stands env check p name"
proof (cases "\<exists>f cu. read_manifest env check (folder_file (fill_folder p name) manifest_file) = Inr f \<and>
    current_state env check (fill_folder p name) f = Inr cu")
  case False
  then show ?thesis
    by (cases "read_manifest env check (folder_file (fill_folder p name) manifest_file)")
      (auto simp: qualify_one_def Let_def stands_def passes_qualification_def split: sum.splits)
next
  case True
  then obtain f cu where f: "read_manifest env check (folder_file (fill_folder p name) manifest_file) = Inr f"
    and cu: "current_state env check (fill_folder p name) f = Inr cu" by blast
  have "stands env check p name \<longleftrightarrow> fst (assess env s f cu) = Qualified \<and> misfits check f name = []"
    unfolding stands_def assess_Qualified misfits_Nil f using assms cu by auto
  then show ?thesis
    by (simp add: qualify_one_def Let_def f cu passes_qualification_def split: prod.splits)
qed

lemma bound_names_set: "set (bound_names check) = fb_fill ` set (fc_bindings check)"
  by (simp add: bound_names_def)

lemma qualification_faults_Nil:
  "qualification_faults env check p = Inr [] \<longleftrightarrow>
     (\<exists>s. read_signers (fe_sum1 env) (fp_signers p) = Inr s) \<and> (\<forall>b \<in> set (fc_bindings check). stands env check p (fb_fill b))"
proof (cases "read_signers (fe_sum1 env) (fp_signers p)")
  case (Inl e)
  then show ?thesis by (simp add: qualification_faults_def project_qualification_def)
next
  case (Inr s)
  let ?one = "qualify_one env check p s"
  have "qualification_faults env check p = Inr [] \<longleftrightarrow>
      (\<exists>qs. each_result ?one (bound_names check) = Inr qs \<and> (\<forall>q \<in> set qs. passes_qualification q))"
    by (auto simp: qualification_faults_def project_qualification_def Inr bind_result_Inr filter_empty_conv)
  also have "\<dots> \<longleftrightarrow> (\<exists>qs. list_all2 (\<lambda>name q. ?one name = Inr q \<and> passes_qualification q) (bound_names check) qs)"
    unfolding each_result_Inr by (auto simp: list_all2_conv_all_nth all_set_conv_all_nth)
  also have "\<dots> \<longleftrightarrow> (\<forall>name \<in> set (bound_names check). stands env check p name)"
    unfolding list_all2_ex qualify_one_passes [OF Inr] ..
  finally show ?thesis using Inr by (simp add: bound_names_set)
qed

text \<open>The qualifier that validate, plan and apply give the gate: a sentence for each fault.\<close>

definition gate_qualifier :: "fill_env \<Rightarrow> fill_project \<Rightarrow> (qualification \<Rightarrow> string) \<Rightarrow> fill_check \<Rightarrow> string list option" where
  "gate_qualifier env p sentence check =
     (case qualification_faults env check p of Inl _ \<Rightarrow> None | Inr rows \<Rightarrow> Some (map sentence rows))"

lemma gate_qualifier_Nil: "gate_qualifier env p sentence check = Some [] \<longleftrightarrow> qualification_faults env check p = Inr []"
  by (simp add: gate_qualifier_def split: sum.splits)

lemma bound_fill_binding:
  assumes "sb \<in> set (sv_slots sv)" "name \<in> set (bound_fills sb)"
  shows "\<exists>b \<in> set (fc_bindings (fill_check_of m sv mixins active)). fb_fill b = name"
  using assms by (force simp: fill_check_of_def)

text \<open>C7. When the gate is given the qualifier of the project, a declaration that it accepts binds only fills
  that stand: tested as they are now against the contract as it is now, signed by a listed key, and for the
  slot and the collection of each of their bindings.\<close>

theorem accepted_fills_stand:
  assumes "ce_qualify env = Some (gate_qualifier fenv p sentence)"
    and "validate_source env inp sv undeclared r = Inr res" "cd_faults res = []"
    and "sb \<in> set (sv_slots sv)" "name \<in> set (bound_fills sb)"
  shows "\<exists>active. cd_active res = Some active \<and> stands fenv (fill_check_of (ck_module inp) sv (rg_mixins r) active) p name"
proof -
  obtain a active where c: "compilable env inp sv r a active"
    and act: "cd_active res = Some (fst (apply_declared_namespaces env sv active))"
    using accepted_active [OF assms(2,3)] .
  let ?check = "fill_check_of (ck_module inp) sv (rg_mixins r) (fst (apply_declared_namespaces env sv active))"
  have "fills_in_order env inp sv r (fst (apply_declared_namespaces env sv active))"
    using c unfolding compilable_def Let_def by blast
  then have "gate_qualifier fenv p sentence ?check = Some []"
    using assms(1,4,5) unfolding fills_in_order_def by (metis empty_iff list.set(1))
  then have "\<forall>b \<in> set (fc_bindings ?check). stands fenv ?check p (fb_fill b)"
    unfolding gate_qualifier_Nil qualification_faults_Nil by blast
  then show ?thesis using act bound_fill_binding [OF assms(4,5)] by blast
qed

end
