(* ===== verification/Fill_Samples.thy ===== *)
theory Fill_Samples
  imports Fill_Standing
begin

text \<open>
  A project with one fill: its manifest, its folder before and after the tests and the signature, and the
  properties of fills at that project. The YAML of the sample is a flat document, with a key or a value on
  each line, and its hash gives one sum.
\<close>

subsection \<open>A flat YAML library\<close>

definition flat_document :: "yaml_node list \<Rightarrow> yaml_node" where
  "flat_document nodes = YamlNode DocumentNode '''' [YamlNode MappingNode '''' nodes ''''] ''''"

definition flat_lines :: "string \<Rightarrow> string list" where
  "flat_lines data = butlast (split_on line_end data)"

definition flat_text :: "string list \<Rightarrow> string" where
  "flat_text ls = concat (map (\<lambda>l. l @ [line_end]) ls)"

definition flat_yaml :: "fill_evidence option \<Rightarrow> fill_sign_off option \<Rightarrow> yaml_library" where
  "flat_yaml e so =
     \<lparr>yl_unmarshal = (\<lambda>data. Some (flat_document (map key_node (flat_lines data)))),
      yl_encode = (\<lambda>d. case yn_content d of [root] \<Rightarrow> Some (flat_text (map yn_value (yn_content root))) | _ \<Rightarrow> None),
      yl_evidence = (\<lambda>x. if Some x = e then Some (key_node ''tested'') else None),
      yl_sign_off = (\<lambda>x. if Some x = so then Some (key_node ''signed'') else None)\<rparr>"

fun line_after :: "string \<Rightarrow> string list \<Rightarrow> string" where
  "line_after key (k # v # rest) = (if k = key then v else line_after key rest)"
| "line_after key rest = ''''"

definition flat_decode :: "fill_evidence option \<Rightarrow> fill_sign_off option \<Rightarrow> string \<Rightarrow> fill option" where
  "flat_decode e so data =
     (let value_of = (\<lambda>key. line_after key (flat_lines data)) in
      if value_of ''kind'' \<noteq> ''fill'' then None
      else Some \<lparr>fi_kind = ''fill'', fi_name = value_of ''name'', fi_implements = value_of ''implements'',
        fi_collection = value_of ''collection'', fi_evidence = (if value_of ''evidence'' = ''tested'' then e else None),
        fi_sign_off = (if value_of ''sign_off'' = ''signed'' then so else None)\<rparr>)"

definition flat_sum :: "string \<Rightarrow> string" where
  "flat_sum s = replicate 32 (CHR ''a'')"

definition flat_digest :: string where
  "flat_digest = hex_text (replicate 32 (CHR ''a''))"

lemma sum_flat [simp]: "sum_text flat_sum x = flat_digest" "combine flat_sum m = flat_digest"
  by (simp_all add: sum_text_def flat_sum_def flat_digest_def combine_def)

lemma flat_digest_valid: "valid_digest flat_digest"
  by code_simp

subsection \<open>The fill\<close>

definition plain_lines :: "string list" where
  "plain_lines = [''kind'', ''fill'', ''name'', ''limit'', ''implements'', ''store.policy'', ''collection'', ''teams'']"

definition tested_lines :: "string list" where "tested_lines = plain_lines @ [''evidence'', ''tested'']"

definition signed_lines :: "string list" where "signed_lines = tested_lines @ [''sign_off'', ''signed'']"

definition fill_files :: "string list \<Rightarrow> (string \<times> node) list" where
  "fill_files ls = [(''fill.yaml'', Regular (flat_text ls)), (''limit.go'', Regular ''package limit''),
     (''limit_test.go'', Regular ''package limit'')]"

definition fill_contents :: "registry_file gomap" where
  "fill_contents = [(''components/store/slots/policy.proto'', \<lparr>rf_data = ''proto'', rf_hash = '''', rf_size = 5\<rparr>)]"

definition digests_of_files :: "string gomap" where
  "digests_of_files = [(''fill.yaml'', flat_digest), (''limit.go'', flat_digest), (''limit_test.go'', flat_digest)]"

definition compiler_of_sample :: build_record where
  "compiler_of_sample = \<lparr>br_go_version = ''go1.26'', br_goos = ''linux'', br_goarch = ''amd64'', br_module_version = ''v1.0.0'',
     br_vcs = ''git'', br_revision = ''abc'', br_source_state = ''clean''\<rparr>"

definition fill_time :: time where "fill_time = time_of_day 20000"

definition limit_evidence :: fill_evidence where
  "limit_evidence =
     \<lparr>ev_fill_digest = flat_digest, ev_contract_digest = flat_digest,
      ev_passed_at = fill_time, ev_compiler = compiler_of_sample, ev_files = digests_of_files\<rparr>"

definition limit_fill :: fill where
  "limit_fill = \<lparr>fi_kind = ''fill'', fi_name = ''limit'', fi_implements = ''store.policy'', fi_collection = ''teams'',
     fi_evidence = Some limit_evidence, fi_sign_off = None\<rparr>"

definition armored_signature :: string where
  "armored_signature = flat_text [''-----BEGIN SSH SIGNATURE-----'', ''AAAA'', ''-----END SSH SIGNATURE-----'']"

definition limit_sign_off :: fill_sign_off where
  "limit_sign_off =
     \<lparr>so_evidence_digest = flat_digest,
      so_signature = \<lparr>sg_key_type = ''ssh'', sg_signer = ''ann'', sg_armored = armored_signature\<rparr>, so_signed_at = fill_time\<rparr>"

definition limit_project :: "string list \<Rightarrow> fill_project" where
  "limit_project ls = \<lparr>fp_signers = SignersData ''ann ssh-ed25519 AAAA'', fp_fills = FillsFolder [(''limit'', Directory (fill_files ls))]\<rparr>"

definition limit_env :: fill_env where
  "limit_env =
     \<lparr>fe_yaml = flat_yaml (Some limit_evidence) (Some limit_sign_off), fe_decode = flat_decode (Some limit_evidence) (Some limit_sign_off),
      fe_sum256 = flat_sum, fe_sum1 = flat_sum,
      fe_tools = \<lparr>vt_find = (\<lambda>allowed sig. if has_prefix allowed ''ann'' then Some ''ann'' else None),
        vt_verify = (\<lambda>allowed who ns sig digest. who = ''ann'' \<and> sig = armored_signature), vt_gpgv = (\<lambda>_ _ _. ('''', False)), vt_files = True\<rparr>,
      fe_registry = fill_contents\<rparr>"

definition limit_check :: fill_check where
  "limit_check =
     \<lparr>fc_slots = [\<lparr>fl_ref = \<lparr>sr_component = ''store'', sr_slot = ''policy''\<rparr>, fl_contract = ''components/store/slots/policy.proto''\<rparr>],
      fc_bindings = [\<lparr>fb_fill = ''limit'', fb_slot = ''policy'', fb_collection = ''teams''\<rparr>],
      fc_collections = [''teams''], fc_module = ''example.org/web'', fc_fill_modules = []\<rparr>"

lemma flat_lines_read: "flat_lines (flat_text plain_lines) = plain_lines" "flat_lines (flat_text tested_lines) = tested_lines"
  "flat_lines (flat_text signed_lines) = signed_lines"
  by code_simp+

lemma in_folder: "path_join [''.'', ''fill.yaml''] = ''fill.yaml''" "path_join [''.'', ''limit.go''] = ''limit.go''"
  "path_join [''.'', ''limit_test.go''] = ''limit_test.go''"
  by code_simp+

lemma files_ordered: "in_name_order (Directory (fill_files ls)) = Directory (fill_files ls)"
  by (simp add: fill_files_def sort_key_def)

lemma files_digested: "file_digests yl flat_sum (Directory (fill_files ls)) = Inr digests_of_files"
  unfolding file_digests_def files_ordered
  by (simp add: fill_files_def in_folder digests_of_files_def del: path_join.simps)

lemma contract_digested: "contract_digest flat_sum fill_contents ''components/store/slots/policy.proto'' = Inr flat_digest"
proof -
  have i: "imports_of ''proto'' = []" by code_simp
  have r: "read_file fill_contents ''components/store/slots/policy.proto'' = Inr ''proto''" by code_simp
  show ?thesis by (simp add: contract_digest_def contract_sums_def r i)
qed

lemma time_stated: "four_digit_year fill_time" "whole_second fill_time" "to_second fill_time = fill_time" "fill_time \<noteq> 0"
  by code_simp+

lemma limit_digest: "evidence_digest flat_sum (limit_fill\<lparr>fi_sign_off := so\<rparr>) = Some flat_digest"
  by (simp add: evidence_digest_def limit_fill_def evidence_statement_def evidence_json_def limit_evidence_def json_time_def time_stated Let_def)


subsection \<open>Its manifest\<close>

lemma yn_value_key [simp]: "yn_value (key_node k) = k" "yn_kind (key_node k) = ScalarNode"
  by (simp_all add: key_node_def)

lemma several_values_keys: "several_values (map key_node ls) = None"
  by (induction ls rule: induct_list012) simp_all

lemma flat_document_root [simp]:
  "yn_content (flat_document nodes) = [YamlNode MappingNode '''' nodes '''']" "yn_kind (flat_document nodes) = DocumentNode"
  "root_mapping (flat_document nodes) = Some (YamlNode MappingNode '''' nodes '''')"
  "with_root (flat_document nodes) (YamlNode MappingNode '''' nodes '''') nodes' = flat_document nodes'"
  by (simp_all add: flat_document_def root_mapping_def with_root_def with_content_def)

lemma flat_library [simp]:
  "yl_unmarshal (flat_yaml e so) data = Some (flat_document (map key_node (flat_lines data)))"
  "yl_encode (flat_yaml e so) (flat_document nodes) = Some (flat_text (map yn_value nodes))"
  "yl_evidence (flat_yaml e so) x = (if Some x = e then Some (key_node ''tested'') else None)"
  "yl_sign_off (flat_yaml e so) y = (if Some y = so then Some (key_node ''signed'') else None)"
  by (simp_all add: flat_yaml_def)

lemma one_value: "check_one_value (flat_yaml e so) data = None"
  by (simp add: check_one_value_def several_values_keys)

lemma flat_reads_back: "flat_lines (flat_text ls) = ls \<Longrightarrow> reads_back (flat_yaml e so) (flat_document (map key_node ls))"
  by (simp add: reads_back_def comp_def)

lemma flat_rewritable:
  assumes "flat_lines data = ls" "proper_mapping (map key_node ls)"
    and "remove_key key (map key_node ls) @ [key_node key, key_node v] = map key_node ls'" "flat_lines (flat_text ls') = ls'"
    and "counted_nodes (map key_node ls) = map key_node ls''" "flat_lines (flat_text ls'') = ls''"
  shows "rewritable (flat_yaml e so) data key (key_node v)"
  unfolding rewritable_def
  by (rule exI [of _ "flat_document (map key_node ls)"], rule exI [of _ "YamlNode MappingNode '''' (map key_node ls) ''''"])
    (simp add: assms flat_reads_back)

lemma proper_lines: "proper_mapping (map key_node plain_lines)" "proper_mapping (map key_node tested_lines)"
  by (simp_all add: proper_mapping_def plain_lines_def tested_lines_def)

lemma evidence_sound: "evidence_fault limit_evidence = None"
proof -
  have "flat_digest \<noteq> ''''" using flat_digest_valid by (auto simp: valid_digest_def)
  then show ?thesis by (simp add: evidence_fault_def digest_fault_def limit_evidence_def flat_digest_valid time_stated)
qed

lemma sign_off_sound: "sign_off_fault limit_sign_off = None"
proof -
  have "flat_digest \<noteq> ''''" using flat_digest_valid by (auto simp: valid_digest_def)
  moreover have "signature_fault (so_signature limit_sign_off) = None" by code_simp
  ultimately show ?thesis
    by (simp add: sign_off_fault_def digest_fault_def limit_sign_off_def flat_digest_valid time_stated armored_signature_def flat_text_def)
qed

lemma rewritable_evidence: "rewritable (flat_yaml e so) (flat_text plain_lines) ''evidence'' (key_node ''tested'')"
  by (rule flat_rewritable [of _ plain_lines _ _ tested_lines plain_lines])
    (simp_all add: flat_lines_read proper_lines, simp_all add: plain_lines_def tested_lines_def)

lemma rewritable_sign_off: "rewritable (flat_yaml e so) (flat_text tested_lines) ''sign_off'' (key_node ''signed'')"
  by (rule flat_rewritable [of _ tested_lines _ _ signed_lines plain_lines])
    (simp_all add: flat_lines_read proper_lines, simp_all add: plain_lines_def tested_lines_def signed_lines_def)

lemma evidence_written_text:
  "write_evidence (flat_yaml (Some limit_evidence) so) False limit_evidence (Some (flat_text plain_lines)) = Inr (flat_text tested_lines)"
  by (simp add: write_evidence_def evidence_sound write_section_def flat_lines_read)
    (simp add: plain_lines_def tested_lines_def)

lemma sign_off_written_text:
  "write_sign_off (flat_yaml e (Some limit_sign_off)) False limit_sign_off (Some (flat_text tested_lines)) = Inr (flat_text signed_lines)"
  by (simp add: write_sign_off_def sign_off_sound write_section_def flat_lines_read)
    (simp add: plain_lines_def tested_lines_def signed_lines_def)

lemma slot_of_fill: "parse_slot_ref ''store.policy'' = Some \<lparr>sr_component = ''store'', sr_slot = ''policy''\<rparr>"
  by code_simp

lemma limit_read:
  "read_manifest limit_env limit_check (Some (flat_text plain_lines)) = Inr (limit_fill\<lparr>fi_evidence := None\<rparr>)"
  "read_manifest limit_env limit_check (Some (flat_text tested_lines)) = Inr limit_fill"
  "read_manifest limit_env limit_check (Some (flat_text signed_lines)) = Inr (limit_fill\<lparr>fi_sign_off := Some limit_sign_off\<rparr>)"
  by (simp_all add: read_manifest_Some parse_fill_Inr limit_env_def one_value flat_decode_def flat_lines_read Let_def
      evidence_sound sign_off_sound limit_fill_def slot_of_fill find_slot_def limit_check_def)
    (simp_all add: plain_lines_def tested_lines_def signed_lines_def)

lemma limit_current:
  "current_state limit_env limit_check (Some (Directory (fill_files ls))) (limit_fill\<lparr>fi_evidence := e, fi_sign_off := so\<rparr>) =
     Inr \<lparr>cu_fill_digest = flat_digest, cu_files = digests_of_files, cu_contract_digest = flat_digest,
          cu_contract = \<lparr>sr_component = ''store'', sr_slot = ''policy''\<rparr>, cu_has_tests = True\<rparr>"
proof -
  have t: "list_ex (\<lambda>(name, _). has_suffix name ''_test.go'') digests_of_files" by (simp add: digests_of_files_def has_suffix_def suffix_def)
  show ?thesis
    by (simp add: current_state_def limit_env_def files_digested limit_fill_def slot_of_fill find_slot_def limit_check_def contract_digested t)
qed


subsection \<open>The properties at the sample\<close>

lemma limit_stated: "stated_fill (limit_fill\<lparr>fi_sign_off := so\<rparr>)"
proof -
  have d: "valid_string flat_digest" by code_simp
  have m: "valid_string ''fill.yaml'' \<and> valid_string ''limit.go'' \<and> valid_string ''limit_test.go''" by code_simp
  have b: "valid_build_texts compiler_of_sample" by code_simp
  have t: "valid_string ''limit'' \<and> valid_string ''store.policy'' \<and> valid_string ''teams''" by code_simp
  have v: "valid_map digests_of_files" using d m by (simp add: valid_map_def digests_of_files_def)
  show ?thesis using d b t v by (simp add: stated_fill_def stated_evidence_def limit_fill_def limit_evidence_def time_stated)
qed

lemma evidence_digest_signs_one_fill_witness:
  "evidence_digest flat_sum (limit_fill\<lparr>fi_sign_off := None\<rparr>) = Some flat_digest \<and>
   evidence_digest flat_sum (limit_fill\<lparr>fi_sign_off := Some limit_sign_off\<rparr>) = Some flat_digest \<and>
   same_statement (limit_fill\<lparr>fi_sign_off := None\<rparr>) (limit_fill\<lparr>fi_sign_off := Some limit_sign_off\<rparr>)"
proof -
  have "\<not> statements_collide flat_sum (limit_fill\<lparr>fi_sign_off := None\<rparr>) (limit_fill\<lparr>fi_sign_off := Some limit_sign_off\<rparr>)"
    by (auto simp: statements_collide_def collision_def evidence_statement_def limit_fill_def)
  then show ?thesis
    using evidence_digest_signs_one_fill [OF limit_digest limit_digest limit_stated limit_stated] limit_digest by blast
qed

lemma limit_folder: "fill_folder (limit_project ls) ''limit'' = Some (Directory (fill_files ls))"
  by (simp add: fill_folder_def limit_project_def)

lemma limit_manifest: "map_of (fill_files ls) manifest_file = Some (Regular (flat_text ls))"
  by (simp add: fill_files_def manifest_file_def)

lemma limit_content: "folder_file (Some (Directory (fill_files ls))) manifest_file = Some (flat_text ls)"
  by (simp add: folder_file_def limit_manifest)

lemma limit_put: "put_manifest (limit_project ls) ''limit'' (flat_text ls') = limit_project ls'"
  by (simp add: put_manifest_def limit_project_def fill_files_def manifest_file_def)

lemma recording_keeps_the_fill_digest_witness:
  "fill_digest (fe_yaml limit_env) flat_sum (the (fill_folder (limit_project tested_lines) ''limit'')) =
   fill_digest (fe_yaml limit_env) flat_sum (Directory (fill_files plain_lines))"
proof -
  have w: "write_evidence (fe_yaml limit_env) False limit_evidence (Some (flat_text plain_lines)) = Inr (flat_text tested_lines)"
    by (simp add: limit_env_def evidence_written_text)
  have r: "rewritable (fe_yaml limit_env) (flat_text plain_lines) ''evidence'' v" if "yl_evidence (fe_yaml limit_env) limit_evidence = Some v" for v
    using that by (auto simp: limit_env_def rewritable_evidence split: if_splits)
  have s: "rewritable (fe_yaml limit_env) (flat_text plain_lines) ''sign_off'' v"
    if "yl_sign_off (fe_yaml limit_env) (limit_sign_off\<lparr>so_signed_at := 0\<rparr>) = Some v" for v
    using that time_stated(4) by (simp add: limit_env_def limit_sign_off_def split: if_splits)
  show ?thesis
    using recording_keeps_the_fill_digest [OF limit_folder limit_manifest disjI1 [OF w] r s] unfolding limit_put .
qed

definition limit_record :: record_env where
  "limit_record =
     \<lparr>re_fill = limit_env, re_imports = (\<lambda>_. Some [''errors'']), re_run = (\<lambda>_ p. (True, p)), re_build = compiler_of_sample,
      re_now = fill_time, re_write_fails = False\<rparr>"

lemma limit_imports: "check_imports (\<lambda>_. Some [''errors'']) limit_check (Some (Directory (fill_files ls))) = None"
proof -
  have s: "may_import limit_check ''errors''" by code_simp
  show ?thesis
    unfolding check_imports_def option.case files_ordered
    by (simp add: fill_files_def in_folder file_imports_def s del: path_join.simps)
qed

lemma limit_recorded:
  "record_one limit_record limit_check ''limit'' (limit_project plain_lines) =
     (\<lparr>er_fill = ''limit'', er_passed = Some (flat_digest, flat_digest), er_kept = False, er_failed = False, er_reason = None\<rparr>,
      limit_project tested_lines)"
proof -
  note cu = limit_current [of plain_lines None None]
  have e: "\<lparr>ev_fill_digest = flat_digest, ev_contract_digest = flat_digest, ev_passed_at = to_second fill_time,
      ev_compiler = compiler_of_sample, ev_files = digests_of_files\<rparr> = limit_evidence"
    by (simp add: limit_evidence_def time_stated)
  have w: "write_evidence (fe_yaml limit_env) False limit_evidence (Some (flat_text plain_lines)) = Inr (flat_text tested_lines)"
    by (simp add: limit_env_def evidence_written_text)
  show ?thesis
    using cu limit_imports
    by (simp add: record_one_def Let_def limit_record_def limit_folder limit_content limit_read limit_put evidence_current_def
        evidence_of_def limit_fill_def e w)
qed

lemma evidence_only_for_passing_tests_witness:
  "tested limit_record limit_check ''limit'' (limit_project plain_lines) (flat_digest, flat_digest) \<and>
   evidence_written limit_record ''limit'' (limit_project plain_lines) (flat_digest, flat_digest) (limit_project tested_lines)"
  using evidence_only_for_passing_tests [OF limit_recorded] by (simp add: limit_record_def)

definition limit_sign :: sign_env where
  "limit_sign =
     \<lparr>si_fill = limit_env, si_identifier = (\<lambda>_. True),
      si_config = (\<lambda>k. if k = ''gpg.format'' then ''ssh'' else if k = ''user.signingkey'' then ''key'' else ''''),
      si_execute = (\<lambda>_ _ _. Some armored_signature), si_home = None, si_now = fill_time, si_write_fails = False\<rparr>"

abbreviation limit_signers :: signers where
  "limit_signers \<equiv> \<lparr>sn_ssh_lines = [''ann ssh-ed25519 AAAA''], sn_open_pgp = []\<rparr>"

lemma limit_signers_read: "read_signers (fe_sum1 limit_env) (fp_signers (limit_project ls)) = Inr limit_signers"
proof -
  have "parse_signers flat_sum ''ann ssh-ed25519 AAAA'' = Inr limit_signers" by code_simp
  then show ?thesis by (simp add: read_signers_def limit_env_def limit_project_def)
qed

lemma limit_verified:
  "verify_signature (fe_tools limit_env) \<lparr>sg_key_type = ''ssh'', sg_signer = who, sg_armored = armored_signature\<rparr> digest limit_signers
     = Inr ''ann''"
proof -
  have "go_fields ''ann'' = [''ann'']" by code_simp
  then show ?thesis
    by (simp add: verify_signature_def limit_env_def key_ssh_def verify_ssh_def Let_def has_prefix_def prefix_def)
qed

lemma limit_signature:
  "sign_digest (\<lambda>_ _ _. Some armored_signature) None \<lparr>sk_format = ''ssh'', sk_key = ''key'', sk_program = ''ssh-keygen''\<rparr> digest =
     Inr \<lparr>sg_key_type = ''ssh'', sg_signer = '''', sg_armored = armored_signature\<rparr>"
proof -
  have "sign_command None \<lparr>sk_format = ''ssh'', sk_key = ''key'', sk_program = ''ssh-keygen''\<rparr> =
      Inr (key_ssh, [''-Y'', ''sign'', ''-n'', ssh_namespace, ''-f'', ''key''])" by code_simp
  moreover have "armored_signature \<noteq> ''''" by code_simp
  ultimately show ?thesis by (simp add: sign_digest_def key_ssh_def)
qed

lemma limit_sign_off_made:
  "sign_off_of limit_sign \<lparr>sk_format = ''ssh'', sk_key = ''key'', sk_program = ''ssh-keygen''\<rparr>
     \<lparr>sg_key_type = ''ssh'', sg_signer = '''', sg_armored = armored_signature\<rparr> flat_digest limit_signers = limit_sign_off"
proof -
  have "si_fill limit_sign = limit_env" "si_now limit_sign = fill_time" by (simp_all add: limit_sign_def)
  then show ?thesis by (simp add: sign_off_of_def principal_of_def limit_verified limit_sign_off_def time_stated Let_def)
qed

lemma limit_signed:
  "sign_fill limit_sign limit_check ''limit'' (limit_project tested_lines) = Inr (limit_sign_off, limit_project signed_lines)"
proof -
  have n: "fill_package_name (\<lambda>_. True) ''limit'' \<noteq> None" by code_simp
  have k: "personal_signing_key (si_config limit_sign) = Inr \<lparr>sk_format = ''ssh'', sk_key = ''key'', sk_program = ''ssh-keygen''\<rparr>"
    by (simp add: personal_signing_key_def limit_sign_def)
  have f: "limit_fill = limit_fill\<lparr>fi_evidence := Some limit_evidence, fi_sign_off := None\<rparr>" by (simp add: limit_fill_def)
  note cu = limit_current [of tested_lines None "Some limit_evidence", folded f]
  have d: "evidence_digest (fe_sum256 limit_env) limit_fill = Some flat_digest"
    using limit_digest [of None] by (simp add: limit_env_def limit_fill_def)
  have e: "fi_evidence limit_fill = Some limit_evidence" "evidence_current limit_fill \<lparr>cu_fill_digest = flat_digest, cu_files = fs,
      cu_contract_digest = flat_digest, cu_contract = c, cu_has_tests = b\<rparr>" for fs c b
    by (simp_all add: evidence_current_def limit_fill_def limit_evidence_def)
  have w: "write_sign_off (fe_yaml limit_env) False limit_sign_off (Some (flat_text tested_lines)) = Inr (flat_text signed_lines)"
    by (simp add: limit_env_def sign_off_written_text)
  have p: "si_fill limit_sign = limit_env" "si_identifier limit_sign = (\<lambda>_. True)" "si_execute limit_sign = (\<lambda>_ _ _. Some armored_signature)"
    "si_home limit_sign = None" "si_write_fails limit_sign = False" by (simp_all add: limit_sign_def)
  show ?thesis
    unfolding sign_fill_def Let_def p limit_folder limit_content
    by (simp add: n limit_read cu e d k limit_signature limit_signers_read limit_sign_off_made w limit_put)
qed

lemma signing_qualifies_the_fill_witness:
  "\<exists>q. qualify_one limit_env limit_check (limit_project signed_lines) limit_signers ''limit'' = Inr q \<and> ql_standing q = Qualified"
proof -
  have p: "si_fill limit_sign = limit_env" by (simp add: limit_sign_def)
  have law: "sign_off_reads_back limit_env data data' limit_sign_off"
    if "folder_file (fill_folder (limit_project tested_lines) ''limit'') manifest_file = Some data"
      "folder_file (fill_folder (limit_project signed_lines) ''limit'') manifest_file = Some data'" for data data'
  proof -
    have d: "data = flat_text tested_lines" "data' = flat_text signed_lines" using that by (simp_all add: limit_folder limit_content)
    have "fe_decode limit_env data = Some limit_fill" "fe_decode limit_env data' = Some (limit_fill\<lparr>fi_sign_off := Some limit_sign_off\<rparr>)"
      using limit_read(2,3) unfolding d read_manifest_Some parse_fill_Inr by blast+
    then show ?thesis
      unfolding sign_off_reads_back_def by (auto simp: d limit_env_def rewritable_sign_off split: if_splits)
  qed
  obtain f cu q where f: "read_manifest limit_env limit_check (folder_file (fill_folder (limit_project signed_lines) ''limit'') manifest_file) =
      Inr (f\<lparr>fi_sign_off := Some limit_sign_off\<rparr>)" "current_state limit_env limit_check (fill_folder (limit_project signed_lines) ''limit'') f = Inr cu"
    and q: "qualify_one limit_env limit_check (limit_project signed_lines) limit_signers ''limit'' = Inr q"
      "ql_standing q = Qualified \<longleftrightarrow> cu_has_tests cu \<and>
        (\<exists>who. verify_signature (fe_tools limit_env) (so_signature limit_sign_off) (so_evidence_digest limit_sign_off) limit_signers = Inr who)"
    using signing_qualifies_the_fill [OF limit_signed, unfolded p, OF limit_signers_read law] by blast
  have "current_state limit_env limit_check (Some (Directory (fill_files signed_lines))) (f\<lparr>fi_sign_off := Some limit_sign_off\<rparr>) = Inr cu"
    using f(2) by (simp add: current_state_sign_off limit_folder)
  moreover have "f\<lparr>fi_sign_off := Some limit_sign_off\<rparr> = limit_fill\<lparr>fi_evidence := Some limit_evidence, fi_sign_off := Some limit_sign_off\<rparr>"
    using f(1) by (simp add: limit_folder limit_content limit_read limit_fill_def)
  ultimately have "cu_has_tests cu" using limit_current [of signed_lines "Some limit_sign_off" "Some limit_evidence"] by auto
  then show ?thesis using q limit_verified unfolding limit_sign_off_def by simp
qed


subsection \<open>An accepted declaration\<close>

lemma limit_stands: "stands limit_env limit_check (limit_project signed_lines) ''limit''"
proof -
  let ?f = "limit_fill\<lparr>fi_evidence := Some limit_evidence, fi_sign_off := Some limit_sign_off\<rparr>"
  have f: "limit_fill\<lparr>fi_sign_off := Some limit_sign_off\<rparr> = ?f" by (simp add: limit_fill_def)
  note read = limit_read(3) [unfolded f] and cu = limit_current [of signed_lines "Some limit_sign_off" "Some limit_evidence"]
  have d: "evidence_digest (fe_sum256 limit_env) ?f = Some (so_evidence_digest limit_sign_off)"
    using limit_digest [of "Some limit_sign_off"] by (simp add: limit_env_def limit_fill_def limit_sign_off_def)
  have e: "evidence_current ?f \<lparr>cu_fill_digest = flat_digest, cu_files = fs, cu_contract_digest = flat_digest, cu_contract = c, cu_has_tests = b\<rparr>" for fs c b
    by (simp add: evidence_current_def limit_evidence_def)
  have v: "verify_signature (fe_tools limit_env) (so_signature limit_sign_off) (so_evidence_digest limit_sign_off) limit_signers = Inr ''ann''"
    using limit_verified by (simp add: limit_sign_off_def)
  have "for_binding limit_check ?f \<lparr>fb_fill = ''limit'', fb_slot = ''policy'', fb_collection = ''teams''\<rparr>"
    by (simp add: for_binding_def slots_named_def limit_check_def limit_fill_def slot_of_fill)
  then have b: "\<forall>b \<in> set (fc_bindings limit_check). fb_fill b = ''limit'' \<longrightarrow> for_binding limit_check ?f b" by (simp add: limit_check_def)
  have "signed_evidence limit_env limit_signers ?f \<lparr>cu_fill_digest = flat_digest, cu_files = digests_of_files, cu_contract_digest = flat_digest,
      cu_contract = \<lparr>sr_component = ''store'', sr_slot = ''policy''\<rparr>, cu_has_tests = True\<rparr>"
    unfolding signed_evidence_def using d e v by simp
  then show ?thesis unfolding stands_def limit_folder limit_content using read cu b limit_signers_read by blast
qed

text \<open>Another qualifier that gives the same answer for the active set gives the same result of the gate.\<close>

lemma other_qualifier:
  assumes "\<And>a. qualify_faults (env\<lparr>ce_qualify := q\<rparr>) inp sv r (fst (apply_declared_namespaces env sv a)) =
      qualify_faults env inp sv r (fst (apply_declared_namespaces env sv a)) \<or> resolved_components r sv \<noteq> Some a"
  shows "validate_source (env\<lparr>ce_qualify := q\<rparr>) inp sv undeclared r = validate_source env inp sv undeclared r"
proof -
  have e: "build_target_faults (env\<lparr>ce_qualify := q\<rparr>) = build_target_faults env"
    "apply_declared_namespaces (env\<lparr>ce_qualify := q\<rparr>) = apply_declared_namespaces env"
    "component_faults (env\<lparr>ce_qualify := q\<rparr>) = component_faults env"
    by (simp_all add: fun_eq_iff build_target_faults_def valid_build_target_def apply_declared_namespaces_def component_faults_def)
  have f: "ce_rules (env\<lparr>ce_qualify := q\<rparr>) = ce_rules env" "ce_fill (env\<lparr>ce_qualify := q\<rparr>) = ce_fill env"
    "ce_reads_fills (env\<lparr>ce_qualify := q\<rparr>) = ce_reads_fills env" "ce_prepare (env\<lparr>ce_qualify := q\<rparr>) = ce_prepare env"
    by simp_all
  show ?thesis
  proof (cases "resolved_components r sv")
    case None
    show ?thesis unfolding validate_source_def e f Let_def None option.case by (rule refl)
  next
    case (Some a)
    then have "qualify_faults (env\<lparr>ce_qualify := q\<rparr>) inp sv r (fst (apply_declared_namespaces env sv a)) =
        qualify_faults env inp sv r (fst (apply_declared_namespaces env sv a))"
      using assms [of a] by blast
    then show ?thesis
      by (cases "apply_declared_namespaces env sv a") (simp only: validate_source_def e f Let_def Some option.case prod.case fst_conv)
  qed
qed

definition teams_declaration :: service_declaration where
  "teams_declaration = sample_declaration
     \<lparr>sv_name := ''teams'', sv_entities := [team_entity],
      sv_collections := [clusters\<lparr>cl_name := ''teams'', cl_entity := ''Team'', cl_scope := [], cl_patchable := [],
        cl_operations := [''create'', ''read'']\<rparr>],
      sv_slots := [\<lparr>sd_slot = ''policy'', sd_collection = ''teams'', sd_gate = [''limit''], sd_chain = [], sd_fan_out = [],
        sd_short_circuit = False\<rparr>]\<rparr>"

definition teams_env :: check_env where
  "teams_env = sample_env\<lparr>ce_fill := \<lambda>name. if name = ''limit'' then FillServes ''teams'' else FillMissing\<rparr>"

lemma teams_accepted:
  "(case load_sources sum256 sample_parsers sample_disk sample_sources of
      Inl _ \<Rightarrow> False
    | Inr r \<Rightarrow> (case validate_source teams_env sample_check teams_declaration [] r of
        Inl _ \<Rightarrow> False
      | Inr res \<Rightarrow> cd_faults res = [] \<and>
          map_option (fill_check_of (ck_module sample_check) teams_declaration (rg_mixins r)) (cd_active res) = Some limit_check))"
  by code_simp

lemma accepted_fills_stand_witness:
  "\<exists>r res active. load_sources sample_sum sample_parsers sample_disk sample_sources = Inr r \<and>
     validate_source (teams_env\<lparr>ce_qualify := Some (gate_qualifier limit_env (limit_project signed_lines) ql_fill)\<rparr>)
       sample_check teams_declaration [] r = Inr res \<and> cd_active res = Some active \<and>
     stands limit_env (fill_check_of (ck_module sample_check) teams_declaration (rg_mixins r) active) (limit_project signed_lines) ''limit''"
proof -
  let ?env = "teams_env\<lparr>ce_qualify := Some (gate_qualifier limit_env (limit_project signed_lines) ql_fill)\<rparr>"
  obtain r res active where r: "load_sources sample_sum sample_parsers sample_disk sample_sources = Inr r"
    and res: "validate_source teams_env sample_check teams_declaration [] r = Inr res" "cd_faults res = []" "cd_active res = Some active"
    and c: "fill_check_of (ck_module sample_check) teams_declaration (rg_mixins r) active = limit_check"
    using teams_accepted [of sample_sum] by (auto split: sum.splits)
  have stand: "stands limit_env limit_check (limit_project signed_lines) ''limit''"
    by (rule limit_stands)
  have g: "gate_qualifier limit_env (limit_project signed_lines) ql_fill limit_check = Some []"
    unfolding gate_qualifier_Nil qualification_faults_Nil using stand limit_signers_read by (auto simp: limit_check_def)
  have active: "active = fst (apply_declared_namespaces teams_env teams_declaration a)" if "resolved_components r teams_declaration = Some a" for a
    using res(1,3) that by (auto simp: validate_source_def Let_def bind_result_Inr split: prod.splits sum.splits)
  have q: "validate_source ?env sample_check teams_declaration [] r = Inr res"
    unfolding res(1) [symmetric]
  proof (rule other_qualifier)
    fix a
    show "qualify_faults ?env sample_check teams_declaration r (fst (apply_declared_namespaces teams_env teams_declaration a)) =
        qualify_faults teams_env sample_check teams_declaration r (fst (apply_declared_namespaces teams_env teams_declaration a)) \<or>
        resolved_components r teams_declaration \<noteq> Some a"
      using c active [of a] by (auto simp: qualify_faults_def Let_def g teams_env_def sample_env_def fun_eq_iff)
  qed
  have b: "\<lparr>sd_slot = ''policy'', sd_collection = ''teams'', sd_gate = [''limit''], sd_chain = [], sd_fan_out = [], sd_short_circuit = False\<rparr>
      \<in> set (sv_slots teams_declaration)" by (simp add: teams_declaration_def)
  have "\<exists>active. cd_active res = Some active \<and>
      stands limit_env (fill_check_of (ck_module sample_check) teams_declaration (rg_mixins r) active) (limit_project signed_lines) ''limit''"
    by (rule accepted_fills_stand [OF _ q res(2) b]) (simp_all add: bound_fills_def)
  then show ?thesis using r q by blast
qed

end
