(* ===== verification/Spec2Isabelle.thy ===== *)
theory Spec2Isabelle
  imports Ports Lifecycle_Store File_Layout Apply_Checks Declaration_Laws Registry_Laws Compile_Laws Fleet Parent_Loop Fill_Samples
begin

text \<open>Verification of the stego compiler core.\<close>

end
